theory Spec2Isabelle
  imports Complex_Main
begin

section \<open>Liquid-handling protocols: the bookkeeping of the scripts\<close>

text \<open>
  The repository is a set of Python scripts that drive a liquid-handling robot through
  the vendor's SDK. What the scripts compute themselves is bookkeeping: how many sample
  columns there are, which deck slots hold tip racks, which tip comes next, how much
  liquid went to waste. This theory embeds that bookkeeping.

  Conventions of the embedding:
  \<^item> Python integers are \<open>int\<close>. Volumes, heights and rates are Python floats in the
    source; they are embedded as exact rationals (\<open>rat\<close>), so rounding of the float
    arithmetic is not modelled.
  \<^item> A call into the SDK is recorded as an \<open>event\<close>, appended to the trace of the robot
    in the order the script makes the calls. What the SDK does inside a call (motion,
    liquid simulation, its own errors) is not modelled.
  \<^item> A Python exception raised by the script itself is a value \<open>Inl e\<close> of a sum type.
  \<^item> \<open>print\<close> calls write to the host's standard output and are left out. The text of
    a comment built with an f-string is recorded by its literal head only.
\<close>

subsection \<open>Python values\<close>

datatype py_error =
    ValueError string
  | IndexError
  | KeyError
  | TypeError
  | AttributeError
  | OutOfTipsError

text \<open>\<open>math.ceil(a / b)\<close> for integers \<open>a\<close>, \<open>b\<close>: true division, then the ceiling.\<close>

definition math_ceil_div :: "int \<Rightarrow> int \<Rightarrow> int" where
  "math_ceil_div a b = \<lceil>(of_int a :: rat) / of_int b\<rceil>"

text \<open>The slices \<open>xs[:k]\<close>, \<open>xs[k:]\<close> and \<open>xs[a:b]\<close>; a negative bound counts from the end.\<close>

definition py_index :: "'a list \<Rightarrow> int \<Rightarrow> nat" where
  "py_index xs k = (if k < 0 then nat (int (length xs) + k) else nat k)"

definition slice_to :: "'a list \<Rightarrow> int \<Rightarrow> 'a list" where
  "slice_to xs k = take (py_index xs k) xs"

definition slice_from :: "'a list \<Rightarrow> int \<Rightarrow> 'a list" where
  "slice_from xs k = drop (py_index xs k) xs"

definition slice :: "'a list \<Rightarrow> int \<Rightarrow> int \<Rightarrow> 'a list" where
  "slice xs a b = drop (py_index xs a) (take (py_index xs b) xs)"

text \<open>
  \<open>xs[i]\<close>: an index from 0 counts from the front, a negative one from the back, and
  anything else raises \<open>IndexError\<close>.
\<close>

definition item :: "'a list \<Rightarrow> int \<Rightarrow> py_error + 'a" where
  "item xs i =
     (if 0 \<le> i \<and> i < int (length xs) then Inr (xs ! nat i)
      else if i < 0 \<and> - int (length xs) \<le> i then Inr (xs ! nat (int (length xs) + i))
      else Inl IndexError)"

subsection \<open>The robot as seen by a script\<close>

datatype pipette = P50 | P1000

datatype labware = Labware nat string

datatype well = Well labware string

datatype place =
    At well
  | Bottom well rat
  | Top well rat
  | TopMove well rat rat
  | BottomMove well rat

datatype target = Slot string | OffDeck | OnModule string | Chute | NoLocation

datatype flow = FlowAspirate | FlowDispense | FlowBlowOut

datatype event =
    Comment string
  | Pause string
  | DelaySeconds rat
  | DelayMinutes rat
  | SetRailLights bool
  | DelDeck string
  | LoadLabware labware target
  | MoveLabware labware target bool
  | PickUpTip pipette "well option"
  | DropTip pipette "target option"
  | DropTipInto pipette well
  | ReturnTip pipette
  | ResetTipracks pipette
  | MoveTo pipette place
  | Aspirate pipette rat "place option" rat
  | Dispense pipette rat "place option" rat "rat option"
  | BlowOut pipette "place option"
  | AirGap pipette rat
  | TouchTip pipette rat rat rat
  | ConfigureForVolume pipette rat
  | SetFlowRate pipette flow rat
  | SetDefaultSpeed pipette rat

text \<open>
  The robot: the events so far (oldest first) and the number of labware objects the
  script has created, which names the next one.
\<close>

record robot =
  events :: "event list"
  next_labware :: nat

definition emit :: "event \<Rightarrow> 'a robot_scheme \<Rightarrow> 'a robot_scheme" where
  "emit e r = r\<lparr>events := events r @ [e]\<rparr>"

text \<open>\<open>protocol.load_labware(name, slot)\<close> creates a labware object and returns it.\<close>

definition load_labware :: "string \<Rightarrow> target \<Rightarrow> 'a robot_scheme \<Rightarrow> labware \<times> 'a robot_scheme" where
  "load_labware name tgt r =
     (let lw = Labware (next_labware r) name
      in (lw, emit (LoadLabware lw tgt) (r\<lparr>next_labware := next_labware r + 1\<rparr>)))"

text \<open>The list comprehension \<open>[protocol.load_labware(name, slot) for slot in slots]\<close>.\<close>

fun load_racks :: "string \<Rightarrow> target list \<Rightarrow> 'a robot_scheme \<Rightarrow> labware list \<times> 'a robot_scheme" where
  "load_racks name [] r = ([], r)"
| "load_racks name (slot # slots) r =
     (let (lw, r1) = load_labware name slot r;
          (lws, r2) = load_racks name slots r1
      in (lw # lws, r2))"

definition COLUMN_1_LIST :: "string list" where
  "COLUMN_1_LIST =
     [''A1'', ''A2'', ''A3'', ''A4'', ''A5'', ''A6'', ''A7'', ''A8'', ''A9'', ''A10'', ''A11'', ''A12'']"

text \<open>\<open>rack.rows()[0]\<close> of a 96-well rack: its wells A1 to A12.\<close>

definition row_A :: "labware \<Rightarrow> well list" where
  "row_A lw = map (Well lw) COLUMN_1_LIST"

section \<open>UltraExpress part 1: set-up of the run\<close>

subsection \<open>Run-time parameter bounds (add_parameters)\<close>

text \<open>
  \<open>add_parameters\<close> declares \<open>num_samples\<close> as an integer with minimum 1 and maximum 96;
  the SDK hands \<open>run\<close> only values inside the declared bounds.
\<close>

definition num_samples_minimum :: int where
  "num_samples_minimum = 1"

definition num_samples_maximum :: int where
  "num_samples_maximum = 96"

definition num_samples_declared :: "int \<Rightarrow> bool" where
  "num_samples_declared n = (num_samples_minimum \<le> n \<and> n \<le> num_samples_maximum)"

subsection \<open>Column split\<close>

record col_split =
  cols :: int
  cols_m :: int
  cols_s :: "int option"

text \<open>Lines 163 to 173 of P1_V1.py (the same lines stand in P4_V1.py).\<close>

definition column_split :: "int \<Rightarrow> col_split" where
  "column_split num_samples =
     (let c = math_ceil_div num_samples 8
      in if num_samples mod 8 = 0 then \<lparr>cols = c, cols_m = c, cols_s = None\<rparr>
         else if c = 1 then \<lparr>cols = c, cols_m = 0, cols_s = Some num_samples\<rparr>
         else \<lparr>cols = c, cols_m = c - 1, cols_s = Some (num_samples mod 8)\<rparr>)"

subsection \<open>Tip planning and slot assignment\<close>

record tip_plan =
  required_slots_num_50 :: int
  slots_50 :: "string list"
  regular_slot_list :: "string list"
  expansion_slots :: "string list"
  required_cols_200 :: int
  required_slots_num_200 :: int
  slots_200 :: "string list"
  slots_200_extra :: "string list"
  slots_empty_expansion :: "string list"

text \<open>Lines 190 to 261 of P1_V1.py, as a function of \<open>cols\<close>.\<close>

definition P1_tip_plan :: "int \<Rightarrow> tip_plan" where
  "P1_tip_plan c =
     (let required_cols_200_1 = 1 + 1 + 1;
          required_cols_200_2 = c + 1;
          required_cols_200_3 = c + c;
          required_cols_200_4 = 1 + c;
          required_cols_200_5 = c + c;
          required_cols_200_6 = 1 + c;
          (n50, s50, regular) =
             (if c * 2 > 12 then (2, [''A2'', ''A3''], [''B2'', ''B3'', ''C3''])
              else (1, [''A2''], [''B2'', ''B3'', ''C3'', ''A3'']));
          expansion = [''A4'', ''B4'', ''C4''];
          req_cols = required_cols_200_1 + required_cols_200_2 + required_cols_200_3
                     + required_cols_200_4 + required_cols_200_5 + required_cols_200_6;
          req_slots = math_ceil_div req_cols 12;
          difference = req_slots - int (length regular);
          (s200, s200_extra, s_empty) =
             (if difference \<le> 0 then (slice_to regular req_slots, [], [])
              else (regular, slice_to expansion difference, slice_from expansion difference))
      in \<lparr>required_slots_num_50 = n50, slots_50 = s50, regular_slot_list = regular,
          expansion_slots = expansion, required_cols_200 = req_cols,
          required_slots_num_200 = req_slots, slots_200 = s200,
          slots_200_extra = s200_extra, slots_empty_expansion = s_empty\<rparr>)"

subsection \<open>The start of run: checks, calculation, loading of the tip racks\<close>

text \<open>
  What the start of run leaves behind: the column split, the tip plan, and the racks bound
  to the variables \<open>tips50\<close>, \<open>tips200\<close> and \<open>tips200_extra\<close> at lines 274 to 285.
\<close>

record P1_setup =
  split :: col_split
  plan :: tip_plan
  loaded_tips50 :: "labware list"
  loaded_tips200 :: "labware list"
  loaded_tips200_extra :: "labware list"

definition sample_range_message :: string where
  "sample_range_message = ''The number of samples should be between 1 and 96''"

definition volume_message :: string where
  "volume_message = ''The volume should be equal to or less than 200 ul''"

text \<open>
  Lines 118 to 285 of P1_V1.py. Reading \<open>protocol.params\<close> and assigning the volume
  constants touch no hardware. The result of a raise carries the robot as it is at
  that moment, so the events made before the raise can be read off.
\<close>

definition P1_run_setup :: "int \<Rightarrow> robot \<Rightarrow> py_error \<times> robot + P1_setup \<times> robot" where
  "P1_run_setup num_samples r =
     (let dT25_beads_vol = (20::rat);
          binding_buffer_vol = (50::rat);
          tris_and_binding_mm_vol = (100::rat);
          wash_buffer_vol = (200::rat);
          fragmentation_vol_in = (13 / 2 :: rat);
          fragmentation_vol_out = (5::rat)
      in if num_samples > 96 \<or> num_samples < 1
         then Inl (ValueError sample_range_message, r)
         else if dT25_beads_vol > 200 \<or> binding_buffer_vol > 200
                 \<or> tris_and_binding_mm_vol > 200 \<or> wash_buffer_vol > 200
                 \<or> fragmentation_vol_in > 200 \<or> fragmentation_vol_out > 200
         then Inl (ValueError volume_message, r)
         else
           (let sp = column_split num_samples;
                pl = P1_tip_plan (cols sp);
                (t50, r1) = load_racks ''opentrons_flex_96_filtertiprack_50ul'' (map Slot (slots_50 pl)) r;
                (t200, r2) = load_racks ''opentrons_flex_96_filtertiprack_200ul'' (map Slot (slots_200 pl)) r1;
                (t200x, r3) = load_racks ''opentrons_flex_96_filtertiprack_200ul'' (map Slot (slots_200_extra pl)) r2
            in Inr (\<lparr>split = sp, plan = pl, loaded_tips50 = t50, loaded_tips200 = t200, loaded_tips200_extra = t200x\<rparr>, r3)))"

definition fresh_robot :: robot where
  "fresh_robot = \<lparr>events = [], next_labware = 0\<rparr>"

subsection \<open>Facts about the column split\<close>

lemma math_ceil_div_8: "math_ceil_div n 8 = (n + 7) div 8"
proof -
  have "math_ceil_div n 8 = - (- n div 8)"
    unfolding math_ceil_div_def using ceiling_divide_eq_div [of n 8, where ?'a = rat] by simp
  also have "\<dots> = (n + 7) div 8" by presburger
  finally show ?thesis .
qed

lemma math_ceil_div_12: "math_ceil_div n 12 = (n + 11) div 12"
proof -
  have "math_ceil_div n 12 = - (- n div 12)"
    unfolding math_ceil_div_def using ceiling_divide_eq_div [of n 12, where ?'a = rat] by simp
  also have "\<dots> = (n + 11) div 12" by presburger
  finally show ?thesis .
qed

text \<open>
  C5. For every \<open>num_samples\<close> from 1 to 96: \<open>cols\<close> is the ceiling of \<open>num_samples / 8\<close>
  (the least integer with \<open>num_samples \<le> 8 * cols\<close>); when \<open>num_samples\<close> is a multiple of
  8, \<open>cols_m = cols\<close> and \<open>cols_s\<close> is \<open>None\<close>; otherwise \<open>cols_s\<close> is a number between 1
  and 7 with \<open>8 * cols_m + cols_s = num_samples\<close>.
\<close>

theorem column_split_covers:
  assumes "1 \<le> n" and "n \<le> 96"
  shows "cols (column_split n) = \<lceil>(of_int n :: rat) / 8\<rceil>
       \<and> 8 * (cols (column_split n) - 1) < n \<and> n \<le> 8 * cols (column_split n)
       \<and> (if n mod 8 = 0
          then cols_m (column_split n) = cols (column_split n) \<and> cols_s (column_split n) = None
          else (\<exists>k. cols_s (column_split n) = Some k \<and> 1 \<le> k \<and> k \<le> 7
                    \<and> 8 * cols_m (column_split n) + k = n))"
proof -
  have c: "cols (column_split n) = (n + 7) div 8"
    by (simp add: column_split_def Let_def math_ceil_div_8)
  have c1: "cols (column_split n) = \<lceil>(of_int n :: rat) / 8\<rceil>"
    by (simp add: column_split_def Let_def math_ceil_div_def)
  have c2: "8 * (cols (column_split n) - 1) < n \<and> n \<le> 8 * cols (column_split n)"
    unfolding c by presburger
  have c3: "cols_m (column_split n) = cols (column_split n) \<and> cols_s (column_split n) = None"
    if "n mod 8 = 0"
    using that by (simp add: column_split_def Let_def)
  have c4: "\<exists>k. cols_s (column_split n) = Some k \<and> 1 \<le> k \<and> k \<le> 7
                \<and> 8 * cols_m (column_split n) + k = n"
    if nz: "n mod 8 \<noteq> 0"
  proof (cases "(n + 7) div 8 = 1")
    case True
    then have "n \<le> 8" by presburger
    with nz assms have "1 \<le> n \<and> n \<le> 7" by presburger
    with True nz show ?thesis
      by (simp add: column_split_def Let_def math_ceil_div_8)
  next
    case False
    have "1 \<le> n mod 8 \<and> n mod 8 \<le> 7 \<and> 8 * ((n + 7) div 8 - 1) + n mod 8 = n"
      using nz by presburger
    with False nz show ?thesis
      by (simp add: column_split_def Let_def math_ceil_div_8)
  qed
  show ?thesis using c1 c2 c3 c4 by simp
qed

theorem column_split_covers_witness:
  "cols (column_split 94) = 12 \<and> cols_m (column_split 94) = 11
   \<and> cols_s (column_split 94) = Some 6 \<and> 8 * cols_m (column_split 94) + 6 = 94"
  using column_split_covers [of 94]
  by (simp add: column_split_def Let_def math_ceil_div_8)

lemma ceiling_rat_12: "\<lceil>(of_int n :: rat) / 12\<rceil> = (n + 11) div 12"
  using math_ceil_div_12 [of n] by (simp add: math_ceil_div_def)

subsection \<open>The range check\<close>

text \<open>
  C9. The start of run raises \<open>ValueError('The number of samples should be between 1 and
  96')\<close> exactly when \<open>num_samples > 96\<close> or \<open>num_samples < 1\<close>; whenever the start of run
  raises, the robot is as it was on entry, so no SDK call came before the check; and for
  a value inside the bounds declared by \<open>add_parameters\<close> the start of run does not raise.
\<close>

theorem P1_sample_range_check:
  "(P1_run_setup n r = Inl (ValueError sample_range_message, r)) = (n > 96 \<or> n < 1)
   \<and> (\<forall>e r'. P1_run_setup n r = Inl (e, r') \<longrightarrow> r' = r)
   \<and> (num_samples_declared n \<longrightarrow> (\<exists>s r'. P1_run_setup n r = Inr (s, r')))"
  by (auto simp: P1_run_setup_def Let_def num_samples_declared_def num_samples_minimum_def
       num_samples_maximum_def split: prod.splits)

theorem P1_sample_range_check_witness:
  "P1_run_setup 97 fresh_robot = Inl (ValueError sample_range_message, fresh_robot)
   \<and> P1_run_setup 0 fresh_robot = Inl (ValueError sample_range_message, fresh_robot)
   \<and> num_samples_declared 94
   \<and> (\<exists>s r'. P1_run_setup 94 fresh_robot = Inr (s, r'))"
proof -
  have d: "num_samples_declared 94"
    by (simp add: num_samples_declared_def num_samples_minimum_def num_samples_maximum_def)
  have a: "P1_run_setup 97 fresh_robot = Inl (ValueError sample_range_message, fresh_robot)"
    using P1_sample_range_check [of 97 fresh_robot] by simp
  have b: "P1_run_setup 0 fresh_robot = Inl (ValueError sample_range_message, fresh_robot)"
    using P1_sample_range_check [of 0 fresh_robot] by simp
  have c: "\<exists>s r'. P1_run_setup 94 fresh_robot = Inr (s, r')"
    using P1_sample_range_check [of 94 fresh_robot] d by blast
  show ?thesis using a b c d by blast
qed

subsection \<open>How many 200 ul racks are loaded\<close>

definition racks_200_loaded :: "P1_setup \<Rightarrow> int" where
  "racks_200_loaded s = int (length (loaded_tips200 s)) + int (length (loaded_tips200_extra s))"

text \<open>The racks loaded and the racks required, read off the start of a run on a fresh robot.\<close>

definition P1_racks_200_at_start :: "int \<Rightarrow> (int \<times> int) option" where
  "P1_racks_200_at_start n =
     (case P1_run_setup n fresh_robot of
        Inl _ \<Rightarrow> None
      | Inr (s, _) \<Rightarrow> Some (racks_200_loaded s, required_slots_num_200 (plan s)))"

lemma length_load_racks: "length (fst (load_racks name slots r)) = length slots"
  by (induction slots arbitrary: r) (auto simp: Let_def split: prod.splits, metis fst_conv)

lemma cols_cases:
  assumes "1 \<le> (c::int)" and "c \<le> 12"
  shows "c = 1 \<or> c = 2 \<or> c = 3 \<or> c = 4 \<or> c = 5 \<or> c = 6
       \<or> c = 7 \<or> c = 8 \<or> c = 9 \<or> c = 10 \<or> c = 11 \<or> c = 12"
  using assms by arith

lemma P1_plan_fields:
  "required_cols_200 (P1_tip_plan c) = (1 + 1 + 1) + (c + 1) + (c + c) + (1 + c) + (c + c) + (1 + c)"
  "required_slots_num_200 (P1_tip_plan c) = math_ceil_div (required_cols_200 (P1_tip_plan c)) 12"
  "regular_slot_list (P1_tip_plan c) =
     (if c * 2 > 12 then [''B2'', ''B3'', ''C3''] else [''B2'', ''B3'', ''C3'', ''A3''])"
  "expansion_slots (P1_tip_plan c) = [''A4'', ''B4'', ''C4'']"
  by (simp_all add: P1_tip_plan_def Let_def split: prod.splits)

lemma P1_plan_lengths:
  assumes "1 \<le> c" and "c \<le> 12"
  shows "int (length (slots_200 (P1_tip_plan c))) + int (length (slots_200_extra (P1_tip_plan c)))
         = min (required_slots_num_200 (P1_tip_plan c))
               (int (length (regular_slot_list (P1_tip_plan c)))
                + int (length (expansion_slots (P1_tip_plan c))))"
  using cols_cases [OF assms]
  by (elim disjE)
     (simp_all add: P1_tip_plan_def Let_def math_ceil_div_12 slice_to_def slice_from_def py_index_def)

lemma P1_plan_enough:
  assumes "1 \<le> c" and "c \<le> 9"
  shows "int (length (slots_200 (P1_tip_plan c))) + int (length (slots_200_extra (P1_tip_plan c)))
         = required_slots_num_200 (P1_tip_plan c)"
proof -
  have "c = 1 \<or> c = 2 \<or> c = 3 \<or> c = 4 \<or> c = 5 \<or> c = 6 \<or> c = 7 \<or> c = 8 \<or> c = 9"
    using assms by arith
  then show ?thesis
    by (elim disjE)
       (simp_all add: P1_tip_plan_def Let_def math_ceil_div_12 slice_to_def slice_from_def py_index_def)
qed

lemma P1_plan_short:
  assumes "10 \<le> c" and "c \<le> 12"
  shows "int (length (slots_200 (P1_tip_plan c))) + int (length (slots_200_extra (P1_tip_plan c))) = 6
         \<and> 6 < required_slots_num_200 (P1_tip_plan c)"
proof -
  have "c = 10 \<or> c = 11 \<or> c = 12"
    using assms by arith
  then show ?thesis
    by (elim disjE)
       (simp_all add: P1_tip_plan_def Let_def math_ceil_div_12 slice_to_def slice_from_def py_index_def)
qed

lemma P1_run_setup_fields:
  assumes "P1_run_setup n r = Inr (s, r')"
  shows "split s = column_split n"
    and "plan s = P1_tip_plan (cols (column_split n))"
    and "length (loaded_tips200 s) = length (slots_200 (plan s))"
    and "length (loaded_tips200_extra s) = length (slots_200_extra (plan s))"
proof -
  let ?pl = "P1_tip_plan (cols (column_split n))"
  obtain t50 r1 where a: "load_racks ''opentrons_flex_96_filtertiprack_50ul'' (map Slot (slots_50 ?pl)) r = (t50, r1)"
    by (cases "load_racks ''opentrons_flex_96_filtertiprack_50ul'' (map Slot (slots_50 ?pl)) r") blast
  obtain t200 r2 where b: "load_racks ''opentrons_flex_96_filtertiprack_200ul'' (map Slot (slots_200 ?pl)) r1 = (t200, r2)"
    by (cases "load_racks ''opentrons_flex_96_filtertiprack_200ul'' (map Slot (slots_200 ?pl)) r1") blast
  obtain t200x r3 where c: "load_racks ''opentrons_flex_96_filtertiprack_200ul'' (map Slot (slots_200_extra ?pl)) r2 = (t200x, r3)"
    by (cases "load_racks ''opentrons_flex_96_filtertiprack_200ul'' (map Slot (slots_200_extra ?pl)) r2") blast
  have s: "s = \<lparr>split = column_split n, plan = ?pl, loaded_tips50 = t50, loaded_tips200 = t200, loaded_tips200_extra = t200x\<rparr>"
    using assms a b c by (simp add: P1_run_setup_def Let_def split: if_splits)
  have l1: "length t200 = length (slots_200 ?pl)"
    using length_load_racks [of "''opentrons_flex_96_filtertiprack_200ul''" "map Slot (slots_200 ?pl)" r1] b by simp
  have l2: "length t200x = length (slots_200_extra ?pl)"
    using length_load_racks [of "''opentrons_flex_96_filtertiprack_200ul''" "map Slot (slots_200_extra ?pl)" r2] c by simp
  show "split s = column_split n" using s by simp
  show "plan s = P1_tip_plan (cols (column_split n))" using s by simp
  show "length (loaded_tips200 s) = length (slots_200 (plan s))" using s l1 by simp
  show "length (loaded_tips200_extra s) = length (slots_200_extra (plan s))" using s l2 by simp
qed

lemma P1_run_setup_in_range:
  assumes "1 \<le> n" and "n \<le> 96"
  shows "\<exists>s r'. P1_run_setup n r = Inr (s, r')"
  using assms by (auto simp: P1_run_setup_def Let_def split: prod.splits)

lemma cols_range:
  assumes "1 \<le> n" and "n \<le> 96"
  shows "1 \<le> cols (column_split n) \<and> cols (column_split n) \<le> 12
       \<and> (n \<le> 72 \<longleftrightarrow> cols (column_split n) \<le> 9)"
proof -
  have c: "cols (column_split n) = (n + 7) div 8"
    by (simp add: column_split_def Let_def math_ceil_div_8)
  show ?thesis unfolding c using assms by presburger
qed

text \<open>
  C6, as the claim states it, fails: with 96 samples the script loads 6 racks of 200 ul
  tips at the start, while \<open>required_slots_num_200\<close> is 8.
\<close>

theorem P1_racks_200_counterexample: "P1_racks_200_at_start 96 = Some (6, 8)"
  by (simp add: P1_racks_200_at_start_def P1_run_setup_def fresh_robot_def column_split_def Let_def
      math_ceil_div_8 math_ceil_div_12 P1_tip_plan_def slice_to_def slice_from_def py_index_def
      load_labware_def emit_def racks_200_loaded_def)

text \<open>
  C6, amended. For every \<open>num_samples\<close> from 1 to 96, \<open>required_cols_200\<close> is the sum of the
  six per-step requirements, \<open>required_slots_num_200\<close> is the ceiling of
  \<open>required_cols_200 / 12\<close>, and the number of 200 ul racks loaded at the start (those in
  \<open>slots_200\<close> plus those in \<open>slots_200_extra\<close>) is the smaller of \<open>required_slots_num_200\<close>
  and the number of slots there are (the regular slots plus the three expansion slots).
  It equals \<open>required_slots_num_200\<close> when \<open>num_samples \<le> 72\<close>, and is 6, fewer than
  required, when \<open>num_samples \<ge> 73\<close>.
\<close>

theorem P1_racks_200_loaded_amended:
  assumes "1 \<le> n" and "n \<le> 96" and "P1_run_setup n r = Inr (s, r')"
  shows "required_cols_200 (plan s)
           = (1 + 1 + 1) + (cols (split s) + 1) + (cols (split s) + cols (split s))
             + (1 + cols (split s)) + (cols (split s) + cols (split s)) + (1 + cols (split s))
       \<and> required_slots_num_200 (plan s) = \<lceil>(of_int (required_cols_200 (plan s)) :: rat) / 12\<rceil>
       \<and> racks_200_loaded s
           = min (required_slots_num_200 (plan s))
                 (int (length (regular_slot_list (plan s))) + int (length (expansion_slots (plan s))))
       \<and> length (expansion_slots (plan s)) = 3
       \<and> (if n \<le> 72 then racks_200_loaded s = required_slots_num_200 (plan s)
          else racks_200_loaded s = 6 \<and> 6 < required_slots_num_200 (plan s))"
proof -
  let ?c = "cols (column_split n)"
  note f = P1_run_setup_fields [OF assms(3)]
  note cr = cols_range [OF assms(1,2)]
  have p1: "required_cols_200 (plan s)
           = (1 + 1 + 1) + (cols (split s) + 1) + (cols (split s) + cols (split s))
             + (1 + cols (split s)) + (cols (split s) + cols (split s)) + (1 + cols (split s))"
    unfolding f(1) f(2) by (rule P1_plan_fields(1))
  have p2: "required_slots_num_200 (plan s) = \<lceil>(of_int (required_cols_200 (plan s)) :: rat) / 12\<rceil>"
    unfolding f(2) P1_plan_fields(2) by (simp add: math_ceil_div_def)
  have l: "racks_200_loaded s
           = int (length (slots_200 (P1_tip_plan ?c))) + int (length (slots_200_extra (P1_tip_plan ?c)))"
    unfolding racks_200_loaded_def f(3) f(4) f(2) by simp
  have p3: "racks_200_loaded s
           = min (required_slots_num_200 (plan s))
                 (int (length (regular_slot_list (plan s))) + int (length (expansion_slots (plan s))))"
    unfolding l f(2) using cr by (intro P1_plan_lengths) simp_all
  have p4: "length (expansion_slots (plan s)) = 3"
    unfolding f(2) P1_plan_fields(4) by simp
  have p5: "racks_200_loaded s = required_slots_num_200 (plan s)" if "n \<le> 72"
    unfolding l f(2) using cr that by (intro P1_plan_enough) simp_all
  have p6: "racks_200_loaded s = 6 \<and> 6 < required_slots_num_200 (plan s)" if "\<not> n \<le> 72"
    unfolding l f(2) using cr that by (intro P1_plan_short) simp_all
  show ?thesis using p1 p2 p3 p4 p5 p6 by simp
qed

theorem P1_racks_200_loaded_amended_witness:
  "P1_racks_200_at_start 48 = Some (4, 4) \<and> P1_racks_200_at_start 80 = Some (6, 7)"
proof -
  obtain s r' where a: "P1_run_setup 48 fresh_robot = Inr (s, r')"
    using P1_run_setup_in_range [of 48 fresh_robot] by auto
  obtain t q' where b: "P1_run_setup 80 fresh_robot = Inr (t, q')"
    using P1_run_setup_in_range [of 80 fresh_robot] by auto
  have ca: "cols (split s) = 6"
    using P1_run_setup_fields(1) [OF a] by (simp add: column_split_def Let_def math_ceil_div_8)
  have cb: "cols (split t) = 10"
    using P1_run_setup_fields(1) [OF b] by (simp add: column_split_def Let_def math_ceil_div_8)
  have t48: "(1::int) \<le> 48" "(48::int) \<le> 96" by simp_all
  have t80: "(1::int) \<le> 80" "(80::int) \<le> 96" by simp_all
  note ha = P1_racks_200_loaded_amended [OF t48 a]
  note hb = P1_racks_200_loaded_amended [OF t80 b]
  have ra: "required_slots_num_200 (plan s) = 4"
  proof -
    have "required_slots_num_200 (plan s) = (required_cols_200 (plan s) + 11) div 12"
      using ha [THEN conjunct2, THEN conjunct1] by (simp only: ceiling_rat_12)
    then show ?thesis using ha [THEN conjunct1] ca by simp
  qed
  have rb: "required_slots_num_200 (plan t) = 7"
  proof -
    have "required_slots_num_200 (plan t) = (required_cols_200 (plan t) + 11) div 12"
      using hb [THEN conjunct2, THEN conjunct1] by (simp only: ceiling_rat_12)
    then show ?thesis using hb [THEN conjunct1] cb by simp
  qed
  have wa: "racks_200_loaded s = 4 \<and> required_slots_num_200 (plan s) = 4"
    using ha [THEN conjunct2, THEN conjunct2, THEN conjunct2, THEN conjunct2] ra by simp
  have wb: "racks_200_loaded t = 6 \<and> required_slots_num_200 (plan t) = 7"
    using hb [THEN conjunct2, THEN conjunct2, THEN conjunct2, THEN conjunct2] rb by simp
  show ?thesis using a b wa wb by (simp add: P1_racks_200_at_start_def)
qed

section \<open>UltraExpress: handling of the 200 ul tips\<close>

text \<open>Sequencing of steps that may raise: the first exception ends the computation.\<close>

definition and_then :: "py_error + 'a \<Rightarrow> ('a \<Rightarrow> py_error + 'b) \<Rightarrow> py_error + 'b" where
  "and_then m f = (case m of Inl e \<Rightarrow> Inl e | Inr x \<Rightarrow> f x)"

text \<open>
  The variables of \<open>run\<close> that the nested functions share through \<open>nonlocal\<close>
  (lines 521 to 524 of P1_V1.py), on top of the robot.
\<close>

record tip_vars = robot +
  tips200 :: "labware list"
  tips200_extra :: "labware list"
  tip_count_200 :: int
  tiporder_200 :: "well list"
  pause_time :: int

definition emits :: "event list \<Rightarrow> 'a robot_scheme \<Rightarrow> 'a robot_scheme" where
  "emits es r = r\<lparr>events := events r @ es\<rparr>"

text \<open>\<open>pause_attention\<close>, lines 526 to 543.\<close>

definition pause_attention :: "string \<Rightarrow> bool \<Rightarrow> 'a tip_vars_scheme \<Rightarrow> 'a tip_vars_scheme" where
  "pause_attention msg flash v =
     (let v1 = (if flash
                then emits [SetRailLights False, DelaySeconds (1 / 4),
                            SetRailLights True, DelaySeconds (1 / 4),
                            SetRailLights False, DelaySeconds (1 / 4),
                            SetRailLights True, DelaySeconds (1 / 4),
                            SetRailLights False, DelaySeconds (1 / 4),
                            SetRailLights True] v
                else v);
          v2 = emit (Comment ''PAUSE X'') v1;
          v3 = emit (Pause msg) v2
      in v3\<lparr>pause_time := pause_time v3 + 1\<rparr>)"

text \<open>
  \<open>[t1 for i in range(len(tips200)) for t1 in tips200[i].rows()[0]]\<close>, and the state
  after lines 521 to 524, given the racks loaded at the start and the robot of that moment.
\<close>

definition tiporder_of :: "labware list \<Rightarrow> well list" where
  "tiporder_of racks = concat (map row_A racks)"

definition tip_vars_init :: "labware list \<Rightarrow> labware list \<Rightarrow> robot \<Rightarrow> tip_vars" where
  "tip_vars_init t200 t200x r =
     \<lparr>events = events r, next_labware = next_labware r,
      tips200 = t200, tips200_extra = t200x,
      tip_count_200 = 0, tiporder_200 = tiporder_of t200, pause_time = 1\<rparr>"

text \<open>
  \<open>pick_up_200\<close>, lines 546 to 596 of P1_V1.py and 532 to 582 of P4_V1.py. The two
  differ in one literal, the number of extra racks at which the first used rack goes to
  the waste chute (3 in P1, 4 in P4); it is the parameter \<open>K\<close>. The branch taken when no
  extra racks are left is \<open>replace_all_racks\<close>; the other branch is
  \<open>move_in_extra_racks\<close>, with its loop \<open>move_in\<close> over \<open>range(len(slots_200_extra))\<close>.
\<close>

definition replace_all_racks :: "'p tip_plan_scheme \<Rightarrow> 'a tip_vars_scheme \<Rightarrow> 'a tip_vars_scheme" where
  "replace_all_racks pl v =
     (let v1 = pause_attention ''Replace empty 200ul filter tips'' False v;
          v2 = v1\<lparr>tiporder_200 := []\<rparr>;
          v3 = fold (\<lambda>a. emit (DelDeck a)) (slots_200 pl) v2;
          v4 = fold (\<lambda>c. emit (DelDeck c)) (expansion_slots pl) v3;
          (t200, v5) = load_racks ''opentrons_flex_96_filtertiprack_200ul'' (map Slot (slots_200 pl)) v4;
          v6 = v5\<lparr>tips200 := t200\<rparr>;
          v7 = v6\<lparr>tiporder_200 := fold (\<lambda>lw order. order @ row_A lw) (tips200 v6) (tiporder_200 v6)\<rparr>;
          (t200x, v8) = load_racks ''opentrons_flex_96_filtertiprack_200ul'' (map Slot (slots_200_extra pl)) v7
      in v8\<lparr>tips200_extra := t200x\<rparr>)"

fun move_in :: "'p tip_plan_scheme \<Rightarrow> int list \<Rightarrow> 'a tip_vars_scheme \<Rightarrow> py_error + 'a tip_vars_scheme" where
  "move_in pl [] v = Inr v"
| "move_in pl (b # bs) v =
     and_then (item (slots_200_extra pl) b) (\<lambda>sx.
     and_then (item (slots_200 pl) b) (\<lambda>s2.
     let v1 = emit (Comment ''---move in'') v in
     and_then (item (tips200_extra v1) b) (\<lambda>tx.
     let v2 = emit (MoveLabware tx (Slot s2) True) v1 in
     and_then
       (if b + 1 < int (length (slots_200_extra pl))
        then and_then (item (slots_200 pl) (b + 1)) (\<lambda>s2n.
             let v3 = emit (Comment ''---move out'') v2 in
             and_then (item (tips200 v3) (b + 1)) (\<lambda>t.
             Inr (emit (MoveLabware t (Slot sx) True) v3)))
        else Inr v2) (\<lambda>v4.
     and_then (item (tips200_extra v4) b) (\<lambda>tx2.
     move_in pl bs (v4\<lparr>tiporder_200 := tiporder_200 v4 @ row_A tx2\<rparr>))))))"

definition move_in_extra_racks :: "int \<Rightarrow> 'p tip_plan_scheme \<Rightarrow> 'a tip_vars_scheme \<Rightarrow> py_error + 'a tip_vars_scheme" where
  "move_in_extra_racks K pl v =
     (let v1 = v\<lparr>tiporder_200 := []\<rparr> in
      and_then
        (if int (length (tips200_extra v1)) = K
         then and_then (item (slots_200 pl) 0) (\<lambda>s0.
              let v2 = emit (Comment ''---move out 1'') v1 in
              and_then (item (tips200 v2) 0) (\<lambda>t.
              Inr (emit (MoveLabware t Chute True) v2)))
         else and_then (item (slots_200 pl) 0) (\<lambda>s0.
              and_then (item (slots_empty_expansion pl) 0) (\<lambda>se.
              let v2 = emit (Comment ''---move out 1'') v1 in
              and_then (item (tips200 v2) 0) (\<lambda>t.
              and_then (item (slots_empty_expansion pl) 0) (\<lambda>se2.
              Inr (emit (MoveLabware t (Slot se2) True) v2)))))) (\<lambda>v3.
      and_then (move_in pl (map int [0..<length (slots_200_extra pl)]) v3) (\<lambda>v4.
      Inr (v4\<lparr>tips200_extra := []\<rparr>))))"

definition pick_up_200 :: "int \<Rightarrow> 'p tip_plan_scheme \<Rightarrow> 'a tip_vars_scheme \<Rightarrow> py_error + 'a tip_vars_scheme" where
  "pick_up_200 K pl v =
     and_then
       (if tip_count_200 v = int (length (tiporder_200 v))
        then and_then
               (if length (tips200_extra v) = 0 then Inr (replace_all_racks pl v)
                else move_in_extra_racks K pl v)
               (\<lambda>v1. Inr (v1\<lparr>tip_count_200 := 0\<rparr>))
        else Inr v) (\<lambda>v2.
     and_then (item (tiporder_200 v2) (tip_count_200 v2)) (\<lambda>w.
     let v3 = emit (PickUpTip P1000 (Some w)) v2
     in Inr (v3\<lparr>tip_count_200 := tip_count_200 v3 + 1\<rparr>)))"

subsection \<open>The invariant of the tip counter\<close>

text \<open>
  What the slot assignment guarantees (\<open>plan_ok\<close>) and what holds of the variables
  between calls (\<open>tip_inv\<close>): the counter is between 0 and the length of \<open>tiporder_200\<close>,
  which holds at least one rack's row; \<open>tips200\<close> has a rack for every slot of
  \<open>slots_200\<close>; and \<open>tips200_extra\<close> is empty or has a rack for every slot of
  \<open>slots_200_extra\<close>.
\<close>

definition plan_ok :: "int \<Rightarrow> 'p tip_plan_scheme \<Rightarrow> bool" where
  "plan_ok K pl =
     (slots_200 pl \<noteq> []
      \<and> length (slots_200_extra pl) \<le> length (slots_200 pl)
      \<and> (slots_200_extra pl = [] \<or> int (length (slots_200_extra pl)) = K
          \<or> slots_empty_expansion pl \<noteq> []))"

definition tip_inv :: "int \<Rightarrow> 'p tip_plan_scheme \<Rightarrow> 'a tip_vars_scheme \<Rightarrow> bool" where
  "tip_inv K pl v =
     (plan_ok K pl
      \<and> 0 \<le> tip_count_200 v \<and> tip_count_200 v \<le> int (length (tiporder_200 v))
      \<and> 12 \<le> length (tiporder_200 v)
      \<and> length (tips200 v) = length (slots_200 pl)
      \<and> (tips200_extra v = [] \<or> length (tips200_extra v) = length (slots_200_extra pl)))"

lemma and_then_simps [simp]:
  "and_then (Inl e) f = Inl e"
  "and_then (Inr x) f = f x"
  by (simp_all add: and_then_def)

lemma item_in_range: "0 \<le> i \<Longrightarrow> i < int (length xs) \<Longrightarrow> item xs i = Inr (xs ! nat i)"
  by (simp add: item_def Let_def)

lemma item_first: "xs \<noteq> [] \<Longrightarrow> item xs 0 = Inr (xs ! 0)"
  by (simp add: item_def)

lemma length_row_A [simp]: "length (row_A lw) = 12"
  by (simp add: row_A_def COLUMN_1_LIST_def)

lemma length_fold_rows:
  "length (fold (\<lambda>lw order. order @ row_A lw) racks acc) = length acc + 12 * length racks"
  by (induction racks arbitrary: acc) simp_all

lemma load_racks_frame:
  "load_racks name slots v = (lws, v') \<Longrightarrow>
     length lws = length slots \<and> tip_vars.more v' = tip_vars.more v
     \<and> tips200 v' = tips200 v \<and> tips200_extra v' = tips200_extra v
     \<and> tip_count_200 v' = tip_count_200 v \<and> tiporder_200 v' = tiporder_200 v
     \<and> pause_time v' = pause_time v"
proof (induction slots arbitrary: v lws v')
  case Nil
  then show ?case by simp
next
  case (Cons a slots)
  obtain lw v1 where a: "load_labware name a v = (lw, v1)"
    by (cases "load_labware name a v") blast
  obtain ls v2 where b: "load_racks name slots v1 = (ls, v2)"
    by (cases "load_racks name slots v1") blast
  have c: "lws = lw # ls" "v' = v2" using Cons.prems a b by simp_all
  have d: "tips200 v1 = tips200 v \<and> tips200_extra v1 = tips200_extra v
     \<and> tip_count_200 v1 = tip_count_200 v \<and> tiporder_200 v1 = tiporder_200 v
     \<and> pause_time v1 = pause_time v \<and> tip_vars.more v1 = tip_vars.more v"
    using a by (auto simp: load_labware_def emit_def Let_def)
  show ?case using Cons.IH [OF b] c d by simp
qed

lemma fold_emit_frame:
  "tips200 (fold (\<lambda>a. emit (f a)) xs v) = tips200 v
   \<and> tips200_extra (fold (\<lambda>a. emit (f a)) xs v) = tips200_extra v
   \<and> tip_count_200 (fold (\<lambda>a. emit (f a)) xs v) = tip_count_200 v
   \<and> tiporder_200 (fold (\<lambda>a. emit (f a)) xs v) = tiporder_200 v
   \<and> pause_time (fold (\<lambda>a. emit (f a)) xs v) = pause_time v"
  by (induction xs arbitrary: v) (simp_all add: emit_def)

lemma replace_all_racks_fields:
  "length (tiporder_200 (replace_all_racks pl v)) = 12 * length (slots_200 pl)
   \<and> length (tips200 (replace_all_racks pl v)) = length (slots_200 pl)
   \<and> length (tips200_extra (replace_all_racks pl v)) = length (slots_200_extra pl)
   \<and> tip_count_200 (replace_all_racks pl v) = tip_count_200 v"
proof -
  let ?n = "''opentrons_flex_96_filtertiprack_200ul''"
  let ?v1 = "pause_attention ''Replace empty 200ul filter tips'' False v"
  let ?v2 = "?v1\<lparr>tiporder_200 := []\<rparr>"
  let ?v3 = "fold (\<lambda>a. emit (DelDeck a)) (slots_200 pl) ?v2"
  let ?v4 = "fold (\<lambda>c. emit (DelDeck c)) (expansion_slots pl) ?v3"
  obtain t200 v5 where l1: "load_racks ?n (map Slot (slots_200 pl)) ?v4 = (t200, v5)"
    by (cases "load_racks ?n (map Slot (slots_200 pl)) ?v4") blast
  let ?v6 = "v5\<lparr>tips200 := t200\<rparr>"
  let ?v7 = "?v6\<lparr>tiporder_200 := fold (\<lambda>lw order. order @ row_A lw) (tips200 ?v6) (tiporder_200 ?v6)\<rparr>"
  obtain t200x v8 where l2: "load_racks ?n (map Slot (slots_200_extra pl)) ?v7 = (t200x, v8)"
    by (cases "load_racks ?n (map Slot (slots_200_extra pl)) ?v7") blast
  have r: "replace_all_racks pl v = v8\<lparr>tips200_extra := t200x\<rparr>"
    using l1 l2 by (simp add: replace_all_racks_def Let_def)
  have p1: "tip_count_200 ?v1 = tip_count_200 v"
    by (simp add: pause_attention_def Let_def emit_def)
  have p4: "tiporder_200 ?v4 = [] \<and> tip_count_200 ?v4 = tip_count_200 v"
    using p1 by (simp add: fold_emit_frame)
  note f1 = load_racks_frame [OF l1]
  note f2 = load_racks_frame [OF l2]
  have o7: "length (tiporder_200 ?v7) = 12 * length (slots_200 pl)"
    using f1 p4 by (simp add: length_fold_rows)
  show ?thesis unfolding r using f1 f2 o7 p4 by simp
qed


lemma move_in_ok:
  assumes "\<forall>b\<in>set bs. 0 \<le> b \<and> b < int (length (slots_200_extra pl))"
    and "length (slots_200_extra pl) \<le> length (slots_200 pl)"
    and "length (tips200 v) = length (slots_200 pl)"
    and "length (tips200_extra v) = length (slots_200_extra pl)"
  shows "\<exists>v'. move_in pl bs v = Inr v' \<and> tips200 v' = tips200 v
           \<and> tips200_extra v' = tips200_extra v \<and> tip_count_200 v' = tip_count_200 v
           \<and> length (tiporder_200 v') = length (tiporder_200 v) + 12 * length bs"
  using assms
proof (induction bs arbitrary: v)
  case Nil
  then show ?case by simp
next
  case (Cons b bs)
  have b: "0 \<le> b" "b < int (length (slots_200_extra pl))"
    using Cons.prems(1) by simp_all
  have b2: "b < int (length (slots_200 pl))" using b Cons.prems(2) by linarith
  have b3: "b + 1 < int (length (slots_200_extra pl)) \<Longrightarrow> b + 1 < int (length (slots_200 pl))"
    using Cons.prems(2) by linarith
  let ?sx = "slots_200_extra pl ! nat b"
  let ?s2 = "slots_200 pl ! nat b"
  let ?tx = "tips200_extra v ! nat b"
  let ?v2 = "emit (MoveLabware ?tx (Slot ?s2) True) (emit (Comment ''---move in'') v)"
  let ?v4 = "if b + 1 < int (length (slots_200_extra pl))
             then emit (MoveLabware (tips200 v ! nat (b + 1)) (Slot ?sx) True)
                    (emit (Comment ''---move out'') ?v2)
             else ?v2"
  let ?v5 = "?v4\<lparr>tiporder_200 := tiporder_200 ?v4 @ row_A ?tx\<rparr>"
  have i1: "item (slots_200_extra pl) b = Inr ?sx" using b by (simp add: item_in_range)
  have i2: "item (slots_200 pl) b = Inr ?s2" using b b2 by (simp add: item_in_range)
  have i3: "item (tips200_extra v) b = Inr ?tx"
    using b Cons.prems(4) by (simp add: item_in_range)
  have i4: "b + 1 < int (length (slots_200_extra pl)) \<Longrightarrow>
              item (slots_200 pl) (b + 1) = Inr (slots_200 pl ! nat (b + 1))
              \<and> item (tips200 v) (b + 1) = Inr (tips200 v ! nat (b + 1))"
    using b b3 Cons.prems(3) by (simp add: item_in_range)
  have step: "move_in pl (b # bs) v = move_in pl bs ?v5"
    using i1 i2 i3 i4 by (simp add: emit_def Let_def)
  have f: "tips200 ?v5 = tips200 v" "tips200_extra ?v5 = tips200_extra v"
          "tip_count_200 ?v5 = tip_count_200 v"
          "length (tiporder_200 ?v5) = length (tiporder_200 v) + 12"
    by (simp_all add: emit_def)
  have "\<exists>v'. move_in pl bs ?v5 = Inr v' \<and> tips200 v' = tips200 ?v5
           \<and> tips200_extra v' = tips200_extra ?v5 \<and> tip_count_200 v' = tip_count_200 ?v5
           \<and> length (tiporder_200 v') = length (tiporder_200 ?v5) + 12 * length bs"
    using Cons.prems by (intro Cons.IH) (simp_all add: f)
  then show ?case unfolding step f by auto
qed

lemma move_in_extra_racks_ok:
  assumes "plan_ok K pl"
    and "length (tips200 v) = length (slots_200 pl)"
    and "tips200_extra v \<noteq> []"
    and "length (tips200_extra v) = length (slots_200_extra pl)"
  shows "\<exists>v'. move_in_extra_racks K pl v = Inr v' \<and> tips200 v' = tips200 v
           \<and> tips200_extra v' = [] \<and> tip_count_200 v' = tip_count_200 v
           \<and> length (tiporder_200 v') = 12 * length (slots_200_extra pl)"
proof -
  let ?v1 = "v\<lparr>tiporder_200 := []\<rparr>"
  have ne: "slots_200 pl \<noteq> []" "tips200 v \<noteq> []"
    using assms(1,2) by (auto simp: plan_ok_def)
  have i0: "item (slots_200 pl) 0 = Inr (slots_200 pl ! 0)"
    using ne by (simp add: item_def)
  have t0: "item (tips200 v) 0 = Inr (tips200 v ! 0)"
    using ne by (simp add: item_def)
  have e0: "int (length (tips200_extra v)) \<noteq> K \<Longrightarrow>
              item (slots_empty_expansion pl) 0 = Inr (slots_empty_expansion pl ! 0)"
    using assms(1,3,4) by (auto simp: plan_ok_def item_def)
  let ?v2 = "emit (Comment ''---move out 1'') ?v1"
  let ?v3 = "if int (length (tips200_extra v)) = K
             then emit (MoveLabware (tips200 v ! 0) Chute True) ?v2
             else emit (MoveLabware (tips200 v ! 0) (Slot (slots_empty_expansion pl ! 0)) True) ?v2"
  have first: "move_in_extra_racks K pl v =
     and_then (move_in pl (map int [0..<length (slots_200_extra pl)]) ?v3)
              (\<lambda>v4. Inr (v4\<lparr>tips200_extra := []\<rparr>))"
    using i0 t0 e0 by (simp add: move_in_extra_racks_def Let_def emit_def)
  have f: "tips200 ?v3 = tips200 v" "tips200_extra ?v3 = tips200_extra v"
          "tip_count_200 ?v3 = tip_count_200 v" "tiporder_200 ?v3 = []"
    by (simp_all add: emit_def)
  have a1: "\<forall>b\<in>set (map int [0..<length (slots_200_extra pl)]). 0 \<le> b \<and> b < int (length (slots_200_extra pl))"
    by auto
  have a2: "length (slots_200_extra pl) \<le> length (slots_200 pl)"
    using assms(1) by (simp add: plan_ok_def)
  have a3: "length (tips200 ?v3) = length (slots_200 pl)"
    unfolding f using assms(2) .
  have a4: "length (tips200_extra ?v3) = length (slots_200_extra pl)"
    unfolding f using assms(4) .
  have "\<exists>v'. move_in pl (map int [0..<length (slots_200_extra pl)]) ?v3 = Inr v' \<and> tips200 v' = tips200 ?v3
           \<and> tips200_extra v' = tips200_extra ?v3 \<and> tip_count_200 v' = tip_count_200 ?v3
           \<and> length (tiporder_200 v') = length (tiporder_200 ?v3)
                + 12 * length (map int [0..<length (slots_200_extra pl)])"
    by (rule move_in_ok [OF a1 a2 a3 a4])
  then obtain v4 where m: "move_in pl (map int [0..<length (slots_200_extra pl)]) ?v3 = Inr v4"
      "tips200 v4 = tips200 v" "tip_count_200 v4 = tip_count_200 v"
      "length (tiporder_200 v4) = 12 * length (slots_200_extra pl)"
    unfolding f by auto
  show ?thesis unfolding first using m by simp
qed

lemma pick_up_200_refill:
  assumes "tip_inv K pl v" and "tip_count_200 v = int (length (tiporder_200 v))"
  shows "\<exists>v'. pick_up_200 K pl v = Inr v' \<and> tip_inv K pl v' \<and> tip_count_200 v' = 1
           \<and> 12 \<le> length (tiporder_200 v')
           \<and> events v' \<noteq> [] \<and> last (events v') = PickUpTip P1000 (Some (tiporder_200 v' ! 0))"
proof (cases "tips200_extra v = []")
  case True
  let ?w = "(replace_all_racks pl v)\<lparr>tip_count_200 := 0\<rparr>"
  note ff = replace_all_racks_fields [of pl v]
  have pos: "0 < length (slots_200 pl)" using assms(1) by (simp add: tip_inv_def plan_ok_def)
  have len: "12 \<le> length (tiporder_200 ?w)"
  proof -
    have "length (tiporder_200 ?w) = 12 * length (slots_200 pl)" using ff by simp
    then show ?thesis using pos by linarith
  qed
  have it: "item (tiporder_200 ?w) 0 = Inr (tiporder_200 ?w ! 0)"
    using len by (intro item_first) auto
  let ?v' = "(emit (PickUpTip P1000 (Some (tiporder_200 ?w ! 0))) ?w)\<lparr>tip_count_200 := 1\<rparr>"
  have p: "pick_up_200 K pl v = Inr ?v'"
    using True assms(2) it by (simp add: pick_up_200_def Let_def emit_def)
  have ne: "tiporder_200 (replace_all_racks pl v) \<noteq> []"
  proof
    assume "tiporder_200 (replace_all_racks pl v) = []"
    with len show False by simp
  qed
  have inv: "tip_inv K pl ?v'"
    using assms(1) ff len ne by (auto simp: tip_inv_def emit_def)
  show ?thesis unfolding p using inv len by (simp add: emit_def)
next
  case False
  have l: "length (tips200_extra v) = length (slots_200_extra pl)"
    and t: "length (tips200 v) = length (slots_200 pl)" and pk: "plan_ok K pl"
    using assms(1) False by (auto simp: tip_inv_def)
  obtain u where u: "move_in_extra_racks K pl v = Inr u" "tips200 u = tips200 v"
      "tips200_extra u = []" "length (tiporder_200 u) = 12 * length (slots_200_extra pl)"
    using move_in_extra_racks_ok [OF pk t False l] by auto
  have pos: "0 < length (slots_200_extra pl)" using False l by auto
  let ?w = "u\<lparr>tip_count_200 := 0\<rparr>"
  have len: "12 \<le> length (tiporder_200 ?w)"
  proof -
    have "length (tiporder_200 ?w) = 12 * length (slots_200_extra pl)" using u(4) by simp
    then show ?thesis using pos by linarith
  qed
  have it: "item (tiporder_200 ?w) 0 = Inr (tiporder_200 ?w ! 0)"
    using len by (intro item_first) auto
  let ?v' = "(emit (PickUpTip P1000 (Some (tiporder_200 ?w ! 0))) ?w)\<lparr>tip_count_200 := 1\<rparr>"
  have p: "pick_up_200 K pl v = Inr ?v'"
    using False assms(2) it u(1) by (simp add: pick_up_200_def Let_def emit_def)
  have ne: "tiporder_200 u \<noteq> []"
  proof
    assume "tiporder_200 u = []"
    with len show False by simp
  qed
  have inv: "tip_inv K pl ?v'"
    using pk t u len ne by (auto simp: tip_inv_def emit_def)
  show ?thesis unfolding p using inv len by (simp add: emit_def)
qed

lemma pick_up_200_next:
  assumes "tip_inv K pl v" and "tip_count_200 v \<noteq> int (length (tiporder_200 v))"
  shows "\<exists>v'. pick_up_200 K pl v = Inr v' \<and> tip_inv K pl v'
           \<and> tip_count_200 v' = tip_count_200 v + 1
           \<and> tiporder_200 v' = tiporder_200 v \<and> tips200 v' = tips200 v
           \<and> tips200_extra v' = tips200_extra v
           \<and> events v' = events v @ [PickUpTip P1000 (Some (tiporder_200 v ! nat (tip_count_200 v)))]"
proof -
  have r: "0 \<le> tip_count_200 v" "tip_count_200 v < int (length (tiporder_200 v))"
    using assms by (auto simp: tip_inv_def)
  have it: "item (tiporder_200 v) (tip_count_200 v) = Inr (tiporder_200 v ! nat (tip_count_200 v))"
    using r by (simp add: item_in_range)
  let ?v' = "(emit (PickUpTip P1000 (Some (tiporder_200 v ! nat (tip_count_200 v)))) v)
               \<lparr>tip_count_200 := tip_count_200 v + 1\<rparr>"
  have p: "pick_up_200 K pl v = Inr ?v'"
    using assms(2) it by (simp add: pick_up_200_def Let_def emit_def)
  have inv: "tip_inv K pl ?v'"
    using assms(1) r by (auto simp: tip_inv_def emit_def)
  show ?thesis unfolding p using inv by (simp add: emit_def)
qed

section \<open>UltraExpress part 4: tip planning\<close>

record tip_plan_P4 = tip_plan +
  slots_50_extra :: "target list"

text \<open>
  Lines 196 to 263 of P4_V1.py, as a function of \<open>cols\<close>. The list that P4 calls
  \<open>expansion_slots_200\<close> is the field \<open>expansion_slots\<close>.
\<close>

definition P4_tip_plan :: "int \<Rightarrow> tip_plan_P4" where
  "P4_tip_plan c =
     (let required_cols_200_1 = c + c;
          required_cols_200_2 = c + c + c;
          required_cols_200_3 = 1 + c;
          required_cols_200_4 = 1 + c;
          required_cols_50_1 = c + c;
          required_cols_50 = required_cols_50_1;
          req_slots_50 = math_ceil_div required_cols_50 12;
          expansion = [''A4'', ''B4'', ''C4'', ''D4''];
          (n50, s50, regular, s50_extra) =
             (if req_slots_50 \<ge> 2
              then (req_slots_50, [''C3'', ''D2''], [''A2'', ''B2'', ''B3'', ''A3''],
                    replicate (nat (req_slots_50 - 2)) OffDeck)
              else (1, [''C3''], [''A2'', ''B2'', ''B3'', ''A3'', ''D2''], []));
          req_cols = required_cols_200_1 + required_cols_200_2 + required_cols_200_3
                     + required_cols_200_4;
          req_slots = math_ceil_div req_cols 12;
          difference = req_slots - int (length regular);
          (s200, s200_extra, s_empty) =
             (if difference \<le> 0 then (slice_to regular req_slots, [], [])
              else (regular, slice_to expansion difference, slice_from expansion difference))
      in \<lparr>required_slots_num_50 = n50, slots_50 = s50, regular_slot_list = regular,
          expansion_slots = expansion, required_cols_200 = req_cols,
          required_slots_num_200 = req_slots, slots_200 = s200,
          slots_200_extra = s200_extra, slots_empty_expansion = s_empty,
          slots_50_extra = s50_extra\<rparr>)"

text \<open>Lines 118 to 292 of P4_V1.py; the racks, in the order the script loads them.\<close>

record P4_racks =
  P4_tips50 :: "labware list"
  P4_tips50_extra :: "labware list"
  P4_tips200 :: "labware list"
  P4_tips200_extra :: "labware list"

definition P4_run_setup :: "int \<Rightarrow> robot \<Rightarrow> py_error \<times> robot + (col_split \<times> tip_plan_P4 \<times> P4_racks) \<times> robot" where
  "P4_run_setup num_samples r =
     (let sample_vol = (100::rat);
          res_beads_vol = (7 / 10) * sample_vol;
          te_1_vol = (50::rat);
          recon_buffer_vol = (8 / 10) * te_1_vol;
          ethanol_vol = (200::rat);
          te_2_in_vol = (23::rat);
          te_2_out_vol = (20::rat)
      in if num_samples > 96 \<or> num_samples < 1
         then Inl (ValueError sample_range_message, r)
         else if sample_vol > 200 \<or> res_beads_vol > 200 \<or> te_1_vol > 200
                 \<or> recon_buffer_vol > 200 \<or> ethanol_vol > 200
                 \<or> te_2_in_vol > 200 \<or> te_2_out_vol > 200
         then Inl (ValueError volume_message, r)
         else
           (let sp = column_split num_samples;
                pl = P4_tip_plan (cols sp);
                (t50, r1) = load_racks ''opentrons_flex_96_filtertiprack_50ul'' (map Slot (slots_50 pl)) r;
                (t50x, r2) = load_racks ''opentrons_flex_96_filtertiprack_50ul'' (slots_50_extra pl) r1;
                (t200, r3) = load_racks ''opentrons_flex_96_filtertiprack_200ul'' (map Slot (slots_200 pl)) r2;
                (t200x, r4) = load_racks ''opentrons_flex_96_filtertiprack_200ul'' (map Slot (slots_200_extra pl)) r3
            in Inr ((sp, pl, \<lparr>P4_tips50 = t50, P4_tips50_extra = t50x, P4_tips200 = t200,
                              P4_tips200_extra = t200x\<rparr>), r4)))"

section \<open>The sequence of tip actions in a run\<close>

text \<open>
  Three places of P1_V1.py write \<open>tip_count_200\<close>: \<open>pick_up_200\<close>; \<open>dt25_beads_prep\<close>,
  which adds one after the partial column (line 779); and \<open>tc_steps\<close>, which pauses for
  a refill and sets the counter to 0 (lines 1017 to 1020). In P4_V1.py only
  \<open>pick_up_200\<close> writes it.
\<close>

datatype tip_action = Pick_up_200 | Partial_column | Refill_pause

definition partial_column_used :: "'a tip_vars_scheme \<Rightarrow> 'a tip_vars_scheme" where
  "partial_column_used v = v\<lparr>tip_count_200 := tip_count_200 v + 1\<rparr>"

definition refill_pause :: "'a tip_vars_scheme \<Rightarrow> 'a tip_vars_scheme" where
  "refill_pause v =
     (let v1 = pause_attention
                 ''Please replace the empty and partial 200ul filter tips before resuming.'' False v
      in v1\<lparr>tip_count_200 := 0\<rparr>)"

fun tip_step :: "int \<Rightarrow> 'p tip_plan_scheme \<Rightarrow> tip_action \<Rightarrow> 'a tip_vars_scheme \<Rightarrow> py_error + 'a tip_vars_scheme" where
  "tip_step K pl Pick_up_200 v = pick_up_200 K pl v"
| "tip_step K pl Partial_column v = Inr (partial_column_used v)"
| "tip_step K pl Refill_pause v = Inr (refill_pause v)"

fun tip_steps :: "int \<Rightarrow> 'p tip_plan_scheme \<Rightarrow> tip_action list \<Rightarrow> 'a tip_vars_scheme \<Rightarrow> py_error + 'a tip_vars_scheme" where
  "tip_steps K pl [] v = Inr v"
| "tip_steps K pl (a # as) v = and_then (tip_step K pl a v) (tip_steps K pl as)"

text \<open>
  The tip actions of a run of P1_V1.py: \<open>dt25_beads_prep\<close> comes first, with one
  \<open>pick_up_200\<close> and, when \<open>cols_s\<close> is truthy, the extra count for the partial column;
  after it come only calls of \<open>pick_up_200\<close> and refill pauses.
\<close>

definition truthy :: "int option \<Rightarrow> bool" where
  "truthy x = (case x of None \<Rightarrow> False | Some k \<Rightarrow> k \<noteq> 0)"

definition P1_tip_actions :: "col_split \<Rightarrow> tip_action list \<Rightarrow> tip_action list" where
  "P1_tip_actions sp rest =
     Pick_up_200 # (if truthy (cols_s sp) then [Partial_column] else []) @ rest"

lemma P1_plan_ok:
  assumes "1 \<le> c" and "c \<le> 12"
  shows "plan_ok 3 (P1_tip_plan c)"
  using cols_cases [OF assms]
  by (elim disjE)
     (simp_all add: plan_ok_def P1_tip_plan_def Let_def math_ceil_div_12 slice_to_def
        slice_from_def py_index_def)

lemma P4_plan_ok:
  assumes "1 \<le> c" and "c \<le> 12"
  shows "plan_ok 4 (P4_tip_plan c)"
  using cols_cases [OF assms]
  by (elim disjE)
     (simp_all add: plan_ok_def P4_tip_plan_def Let_def math_ceil_div_12 slice_to_def
        slice_from_def py_index_def)

lemma length_tiporder_of: "length (tiporder_of racks) = 12 * length racks"
  by (induction racks) (simp_all add: tiporder_of_def)

lemma tip_inv_init:
  assumes "plan_ok K pl"
    and "length t200 = length (slots_200 pl)"
    and "length t200x = length (slots_200_extra pl)"
  shows "tip_inv K pl (tip_vars_init t200 t200x r)"
proof -
  have "0 < length t200" using assms(1,2) by (auto simp: plan_ok_def)
  then have "12 \<le> length (tiporder_of t200)"
    using length_tiporder_of [of t200] by linarith
  then show ?thesis using assms by (simp add: tip_inv_def tip_vars_init_def)
qed

lemma refill_pause_inv: "tip_inv K pl v \<Longrightarrow> tip_inv K pl (refill_pause v)"
  by (simp add: tip_inv_def refill_pause_def pause_attention_def Let_def emit_def)

lemma pick_up_200_ok:
  assumes "tip_inv K pl v"
  shows "\<exists>v'. pick_up_200 K pl v = Inr v' \<and> tip_inv K pl v'"
proof (cases "tip_count_200 v = int (length (tiporder_200 v))")
  case True
  then show ?thesis using pick_up_200_refill [OF assms True] by blast
next
  case False
  then show ?thesis using pick_up_200_next [OF assms False] by blast
qed

lemma tip_steps_ok:
  assumes "tip_inv K pl v" and "Partial_column \<notin> set acts"
  shows "\<exists>v'. tip_steps K pl acts v = Inr v' \<and> tip_inv K pl v'"
  using assms
proof (induction acts arbitrary: v)
  case Nil
  then show ?case by simp
next
  case (Cons a acts)
  show ?case
  proof (cases a)
    case Pick_up_200
    obtain v1 where "pick_up_200 K pl v = Inr v1" "tip_inv K pl v1"
      using pick_up_200_ok [OF Cons.prems(1)] by blast
    then show ?thesis using Cons.IH [of v1] Cons.prems(2) Pick_up_200 by simp
  next
    case Partial_column
    then show ?thesis using Cons.prems(2) by simp
  next
    case Refill_pause
    then show ?thesis
      using Cons.IH [OF refill_pause_inv [OF Cons.prems(1)]] Cons.prems(2) by simp
  qed
qed

lemma first_pick_then_partial:
  assumes "tip_inv K pl v" and "tip_count_200 v = 0"
  shows "\<exists>v1. pick_up_200 K pl v = Inr v1 \<and> tip_inv K pl v1
           \<and> tip_inv K pl (partial_column_used v1)"
proof -
  have ne: "12 \<le> length (tiporder_200 v)" using assms(1) by (simp add: tip_inv_def)
  then have n0: "tip_count_200 v \<noteq> int (length (tiporder_200 v))"
    using assms(2) by linarith
  obtain v1 where v1: "pick_up_200 K pl v = Inr v1" "tip_inv K pl v1"
      "tip_count_200 v1 = tip_count_200 v + 1" "tiporder_200 v1 = tiporder_200 v"
    using pick_up_200_next [OF assms(1) n0] by blast
  have "tip_inv K pl (partial_column_used v1)"
    using v1(2,3,4) assms(2) ne by (simp add: tip_inv_def partial_column_used_def)
  then show ?thesis using v1 by blast
qed

lemma P1_tip_actions_ok:
  assumes "tip_inv K pl v" and "tip_count_200 v = 0" and "Partial_column \<notin> set rest"
  shows "\<exists>v'. tip_steps K pl (P1_tip_actions sp rest) v = Inr v'"
proof -
  obtain v1 where v1: "pick_up_200 K pl v = Inr v1" "tip_inv K pl v1"
      "tip_inv K pl (partial_column_used v1)"
    using first_pick_then_partial [OF assms(1,2)] by blast
  show ?thesis
  proof (cases "truthy (cols_s sp)")
    case True
    obtain v' where "tip_steps K pl rest (partial_column_used v1) = Inr v'"
      using tip_steps_ok [OF v1(3) assms(3)] by blast
    then show ?thesis using True v1(1) by (simp add: P1_tip_actions_def)
  next
    case False
    obtain v' where "tip_steps K pl rest v1 = Inr v'"
      using tip_steps_ok [OF v1(2) assms(3)] by blast
    then show ?thesis using False v1(1) by (simp add: P1_tip_actions_def)
  qed
qed

lemma load_racks_length: "load_racks name slots r = (lws, r') \<Longrightarrow> length lws = length slots"
  using length_load_racks [of name slots r] by simp

lemma P4_run_setup_in_range:
  assumes "1 \<le> n" and "n \<le> 96"
  shows "\<exists>sp pl racks r'. P4_run_setup n r = Inr ((sp, pl, racks), r')"
  using assms by (auto simp: P4_run_setup_def Let_def split: prod.splits)

lemma P4_run_setup_fields:
  assumes "P4_run_setup n r = Inr ((sp, pl, racks), r')"
  shows "pl = P4_tip_plan (cols (column_split n))"
    and "length (P4_tips200 racks) = length (slots_200 pl)"
    and "length (P4_tips200_extra racks) = length (slots_200_extra pl)"
proof -
  let ?pl = "P4_tip_plan (cols (column_split n))"
  let ?n50 = "''opentrons_flex_96_filtertiprack_50ul''"
  let ?n200 = "''opentrons_flex_96_filtertiprack_200ul''"
  obtain t50 r1 where a: "load_racks ?n50 (map Slot (slots_50 ?pl)) r = (t50, r1)"
    by (cases "load_racks ?n50 (map Slot (slots_50 ?pl)) r") blast
  obtain t50x r2 where b: "load_racks ?n50 (slots_50_extra ?pl) r1 = (t50x, r2)"
    by (cases "load_racks ?n50 (slots_50_extra ?pl) r1") blast
  obtain t200 r3 where c: "load_racks ?n200 (map Slot (slots_200 ?pl)) r2 = (t200, r3)"
    by (cases "load_racks ?n200 (map Slot (slots_200 ?pl)) r2") blast
  obtain t200x r4 where d: "load_racks ?n200 (map Slot (slots_200_extra ?pl)) r3 = (t200x, r4)"
    by (cases "load_racks ?n200 (map Slot (slots_200_extra ?pl)) r3") blast
  have s: "pl = ?pl \<and> racks = \<lparr>P4_tips50 = t50, P4_tips50_extra = t50x, P4_tips200 = t200,
                              P4_tips200_extra = t200x\<rparr>"
    using assms a b c d by (auto simp: P4_run_setup_def Let_def split: if_splits)
  show "pl = P4_tip_plan (cols (column_split n))" using s by simp
  show "length (P4_tips200 racks) = length (slots_200 pl)"
    using s load_racks_length [OF c] by simp
  show "length (P4_tips200_extra racks) = length (slots_200_extra pl)"
    using s load_racks_length [OF d] by simp
qed

lemma pick_up_200_step:
  assumes "tip_inv K pl v"
  shows "\<exists>v'. pick_up_200 K pl v = Inr v' \<and> tip_inv K pl v'
          \<and> 0 < tip_count_200 v' \<and> tip_count_200 v' \<le> int (length (tiporder_200 v'))
          \<and> last (events v') = PickUpTip P1000 (Some (tiporder_200 v' ! nat (tip_count_200 v' - 1)))
          \<and> (if tip_count_200 v = int (length (tiporder_200 v))
             then tip_count_200 v' = 1 \<and> tiporder_200 v' \<noteq> []
             else tip_count_200 v' = tip_count_200 v + 1 \<and> tiporder_200 v' = tiporder_200 v)"
proof (cases "tip_count_200 v = int (length (tiporder_200 v))")
  case True
  obtain v' where v': "pick_up_200 K pl v = Inr v'" "tip_inv K pl v'" "tip_count_200 v' = 1"
      "12 \<le> length (tiporder_200 v')"
      "last (events v') = PickUpTip P1000 (Some (tiporder_200 v' ! 0))"
    using pick_up_200_refill [OF assms True] by blast
  have "tiporder_200 v' \<noteq> []" using v'(4) by auto
  then show ?thesis using True v' by auto
next
  case False
  obtain v' where v': "pick_up_200 K pl v = Inr v'" "tip_inv K pl v'"
      "tip_count_200 v' = tip_count_200 v + 1" "tiporder_200 v' = tiporder_200 v"
      "events v' = events v @ [PickUpTip P1000 (Some (tiporder_200 v ! nat (tip_count_200 v)))]"
    using pick_up_200_next [OF assms False] by blast
  have "0 \<le> tip_count_200 v" using assms by (simp add: tip_inv_def)
  moreover have "tip_count_200 v' \<le> int (length (tiporder_200 v'))"
    using v'(2) by (simp add: tip_inv_def)
  ultimately show ?thesis using False v' by auto
qed

text \<open>
  C10. Whenever \<open>pick_up_200\<close> is entered with \<open>tip_count_200\<close> at most
  \<open>len(tiporder_200)\<close> (the invariant \<open>tip_inv\<close>), the read \<open>tiporder_200[tip_count_200]\<close>
  is in bounds: the call returns without \<open>IndexError\<close>, its last event is the pick-up of
  the tip at the index the counter had, and the invariant holds again. The refill branch
  runs exactly when the counter equals the length; it leaves a non-empty \<open>tiporder_200\<close>
  and the counter at 0, so the counter is 1 after the pick-up. The invariant holds at the
  start of a run of P1_V1 and of P4_V1 for every \<open>num_samples\<close> from 1 to 96, and every
  sequence of tip actions of such a run goes through without \<open>IndexError\<close>.
\<close>

theorem pick_up_200_in_bounds:
  "(tip_inv K pl v \<longrightarrow>
      (\<exists>v'. pick_up_200 K pl v = Inr v' \<and> tip_inv K pl v'
          \<and> 0 < tip_count_200 v' \<and> tip_count_200 v' \<le> int (length (tiporder_200 v'))
          \<and> last (events v') = PickUpTip P1000 (Some (tiporder_200 v' ! nat (tip_count_200 v' - 1)))
          \<and> (if tip_count_200 v = int (length (tiporder_200 v))
             then tip_count_200 v' = 1 \<and> tiporder_200 v' \<noteq> []
             else tip_count_200 v' = tip_count_200 v + 1 \<and> tiporder_200 v' = tiporder_200 v)))
   \<and> (1 \<le> n \<and> n \<le> 96 \<and> P1_run_setup n r = Inr (s, r') \<and> Partial_column \<notin> set rest \<longrightarrow>
        tip_inv 3 (plan s) (tip_vars_init (loaded_tips200 s) (loaded_tips200_extra s) r'')
        \<and> (\<exists>v'. tip_steps 3 (plan s) (P1_tip_actions (split s) rest)
                (tip_vars_init (loaded_tips200 s) (loaded_tips200_extra s) r'') = Inr v'))
   \<and> (1 \<le> n \<and> n \<le> 96 \<and> P4_run_setup n r = Inr ((sp, pl4, racks), r') \<longrightarrow>
        tip_inv 4 pl4 (tip_vars_init (P4_tips200 racks) (P4_tips200_extra racks) r'')
        \<and> (\<exists>v'. tip_steps 4 pl4 (replicate k Pick_up_200)
                (tip_vars_init (P4_tips200 racks) (P4_tips200_extra racks) r'') = Inr v'))"
proof (intro conjI impI)
  assume "tip_inv K pl v"
  then show "\<exists>v'. pick_up_200 K pl v = Inr v' \<and> tip_inv K pl v'
          \<and> 0 < tip_count_200 v' \<and> tip_count_200 v' \<le> int (length (tiporder_200 v'))
          \<and> last (events v') = PickUpTip P1000 (Some (tiporder_200 v' ! nat (tip_count_200 v' - 1)))
          \<and> (if tip_count_200 v = int (length (tiporder_200 v))
             then tip_count_200 v' = 1 \<and> tiporder_200 v' \<noteq> []
             else tip_count_200 v' = tip_count_200 v + 1 \<and> tiporder_200 v' = tiporder_200 v)"
    by (rule pick_up_200_step)
next
  assume a: "1 \<le> n \<and> n \<le> 96 \<and> P1_run_setup n r = Inr (s, r') \<and> Partial_column \<notin> set rest"
  then have su: "P1_run_setup n r = Inr (s, r')" by simp
  note f = P1_run_setup_fields [OF su]
  have cr: "1 \<le> cols (column_split n)" "cols (column_split n) \<le> 12"
    using cols_range [of n] a by simp_all
  have pk: "plan_ok 3 (plan s)" unfolding f(2) by (rule P1_plan_ok [OF cr])
  show inv: "tip_inv 3 (plan s) (tip_vars_init (loaded_tips200 s) (loaded_tips200_extra s) r'')"
    by (rule tip_inv_init [OF pk f(3) f(4)])
  have z: "tip_count_200 (tip_vars_init (loaded_tips200 s) (loaded_tips200_extra s) r'') = 0"
    by (simp add: tip_vars_init_def)
  show "\<exists>v'. tip_steps 3 (plan s) (P1_tip_actions (split s) rest)
                (tip_vars_init (loaded_tips200 s) (loaded_tips200_extra s) r'') = Inr v'"
    using P1_tip_actions_ok [OF inv z] a by blast
next
  assume a: "1 \<le> n \<and> n \<le> 96 \<and> P4_run_setup n r = Inr ((sp, pl4, racks), r')"
  then have su: "P4_run_setup n r = Inr ((sp, pl4, racks), r')" by simp
  note f = P4_run_setup_fields [OF su]
  have cr: "1 \<le> cols (column_split n)" "cols (column_split n) \<le> 12"
    using cols_range [of n] a by simp_all
  have pk: "plan_ok 4 pl4" unfolding f(1) by (rule P4_plan_ok [OF cr])
  show inv: "tip_inv 4 pl4 (tip_vars_init (P4_tips200 racks) (P4_tips200_extra racks) r'')"
    by (rule tip_inv_init [OF pk f(2) f(3)])
  have np: "Partial_column \<notin> set (replicate k Pick_up_200)" by auto
  show "\<exists>v'. tip_steps 4 pl4 (replicate k Pick_up_200)
                (tip_vars_init (P4_tips200 racks) (P4_tips200_extra racks) r'') = Inr v'"
    using tip_steps_ok [OF inv np] by blast
qed

theorem pick_up_200_in_bounds_witness:
  "tip_inv 3 (P1_tip_plan 1)
     ((tip_vars_init [Labware 0 ''rack'', Labware 1 ''rack''] [] fresh_robot)\<lparr>tip_count_200 := 24\<rparr>)
   \<and> (\<exists>v'. pick_up_200 3 (P1_tip_plan 1)
          ((tip_vars_init [Labware 0 ''rack'', Labware 1 ''rack''] [] fresh_robot)\<lparr>tip_count_200 := 24\<rparr>)
          = Inr v' \<and> tip_count_200 v' = 1)
   \<and> (\<exists>s r' v'. P1_run_setup 94 fresh_robot = Inr (s, r')
          \<and> tip_steps 3 (plan s) (P1_tip_actions (split s) [Pick_up_200, Refill_pause, Pick_up_200])
               (tip_vars_init (loaded_tips200 s) (loaded_tips200_extra s) r') = Inr v')
   \<and> (\<exists>sp pl4 racks r' v'. P4_run_setup 94 fresh_robot = Inr ((sp, pl4, racks), r')
          \<and> tip_steps 4 pl4 (replicate 100 Pick_up_200)
               (tip_vars_init (P4_tips200 racks) (P4_tips200_extra racks) r') = Inr v')"
proof -
  let ?v0 = "(tip_vars_init [Labware 0 ''rack'', Labware 1 ''rack''] [] fresh_robot)\<lparr>tip_count_200 := 24\<rparr>"
  have inv0: "tip_inv 3 (P1_tip_plan 1) ?v0"
    by (simp add: tip_inv_def plan_ok_def P1_tip_plan_def Let_def math_ceil_div_12 slice_to_def
          slice_from_def py_index_def tip_vars_init_def tiporder_of_def row_A_def
          COLUMN_1_LIST_def)
  have full: "tip_count_200 ?v0 = int (length (tiporder_200 ?v0))"
    by (simp add: tip_vars_init_def tiporder_of_def row_A_def COLUMN_1_LIST_def)
  have w1: "\<exists>v'. pick_up_200 3 (P1_tip_plan 1) ?v0 = Inr v' \<and> tip_count_200 v' = 1"
    using pick_up_200_in_bounds [where K = 3 and pl = "P1_tip_plan 1" and v = ?v0,
            THEN conjunct1, rule_format, OF inv0] full
    by auto
  obtain s r' where su: "P1_run_setup 94 fresh_robot = Inr (s, r')"
    using P1_run_setup_in_range [of 94 fresh_robot] by auto
  have np: "Partial_column \<notin> set [Pick_up_200, Refill_pause, Pick_up_200]" by simp
  have w2: "\<exists>v'. tip_steps 3 (plan s) (P1_tip_actions (split s) [Pick_up_200, Refill_pause, Pick_up_200])
               (tip_vars_init (loaded_tips200 s) (loaded_tips200_extra s) r') = Inr v'"
    using pick_up_200_in_bounds [where n = 94 and r = fresh_robot and s = s and r' = r'
            and rest = "[Pick_up_200, Refill_pause, Pick_up_200]" and r'' = r',
            THEN conjunct2, THEN conjunct1] su np
    by simp
  obtain sp pl4 racks q' where su4: "P4_run_setup 94 fresh_robot = Inr ((sp, pl4, racks), q')"
    using P4_run_setup_in_range [of 94 fresh_robot] by auto
  have w3: "\<exists>v'. tip_steps 4 pl4 (replicate 100 Pick_up_200)
               (tip_vars_init (P4_tips200 racks) (P4_tips200_extra racks) q') = Inr v'"
    using pick_up_200_in_bounds [where n = 94 and r = fresh_robot and sp = sp and ?pl4.0 = pl4
            and racks = racks and r' = q' and k = 100 and r'' = q',
            THEN conjunct2, THEN conjunct2] su4
    by simp
  show ?thesis using inv0 w1 su w2 su4 w3 by blast
qed

section \<open>BombBio and Yeast protocols: tip racks and the tip counter\<close>

subsection \<open>Dictionaries, strings, wells\<close>

text \<open>\<open>d[k]\<close> raises \<open>KeyError\<close> for a key that is not there.\<close>

definition dict_get :: "('k \<rightharpoonup> 'v) \<Rightarrow> 'k \<Rightarrow> py_error + 'v" where
  "dict_get d k = (case d k of None \<Rightarrow> Inl KeyError | Some x \<Rightarrow> Inr x)"

text \<open>\<open>str(n)\<close> for an integer, as an f-string formats it.\<close>

definition digit_char :: "nat \<Rightarrow> char" where
  "digit_char d = (''0123456789'' ! d)"

fun str_nat :: "nat \<Rightarrow> string" where
  "str_nat n = (if n < 10 then [digit_char n] else str_nat (n div 10) @ [digit_char (n mod 10)])"

declare str_nat.simps [simp del]

definition str_int :: "int \<Rightarrow> string" where
  "str_int k = (if k < 0 then CHR ''-'' # str_nat (nat (- k)) else str_nat (nat k))"

text \<open>
  The well names of a 96-well labware, and \<open>labware[name]\<close>, which raises \<open>KeyError\<close> for
  a name the labware does not have.
\<close>

definition wells_96 :: "string list" where
  "wells_96 = concat (map (\<lambda>c. map (\<lambda>r. r # str_nat c) ''ABCDEFGH'') [1..<13])"

definition labware_well :: "labware \<Rightarrow> string \<Rightarrow> py_error + well" where
  "labware_well lw name = (if name \<in> set wells_96 then Inr (Well lw name) else Inl KeyError)"

subsection \<open>State\<close>

text \<open>
  The dictionaries of \<open>run\<close> that the nested functions receive as arguments. Every call
  in the scripts passes the dictionaries \<open>ACTIVE_TIPRACKS\<close>, \<open>BACKUP_TIPRACKS\<close>,
  \<open>TIPS_USED\<close> and \<open>COUNTERS\<close> themselves, and the functions change them in place, so the
  parameters \<open>active_tipracks\<close>, \<open>backup_tipracks\<close>, \<open>tips_used\<close> and \<open>counter_dict\<close> are
  these fields. \<open>parent\<close> is where the SDK says a labware is (\<open>labware.parent\<close>). The
  entry of an active rack is a dictionary with keys \<open>deckslot\<close> and \<open>rack\<close> in noShake v3,
  and the rack itself (or \<open>None\<close>) in shake v1 and Yeast_OPP v1.
\<close>

record active_entry =
  deckslot :: "string option"
  rack :: "labware option"

record 'e bench = robot +
  parent :: "labware \<Rightarrow> target"
  ACTIVE_TIPRACKS :: "string \<rightharpoonup> 'e"
  BACKUP_TIPRACKS :: "string \<rightharpoonup> labware list"
  TIPS_USED :: "string \<rightharpoonup> int"
  COUNTERS :: "string \<rightharpoonup> rat"

definition bench_load_labware :: "string \<Rightarrow> target \<Rightarrow> ('e, 'z) bench_scheme \<Rightarrow> labware \<times> ('e, 'z) bench_scheme" where
  "bench_load_labware name tgt v =
     (let (lw, v1) = load_labware name tgt v
      in (lw, v1\<lparr>parent := (parent v1)(lw := tgt)\<rparr>))"

definition move_labware :: "labware \<Rightarrow> target \<Rightarrow> bool \<Rightarrow> ('e, 'z) bench_scheme \<Rightarrow> ('e, 'z) bench_scheme" where
  "move_labware lw tgt use_gripper v =
     (let v1 = emit (MoveLabware lw tgt use_gripper) v
      in v1\<lparr>parent := (parent v1)(lw := tgt)\<rparr>)"

text \<open>A deck slot read from a dictionary entry may be \<open>None\<close>.\<close>

definition slot_target :: "string option \<Rightarrow> target" where
  "slot_target s = (case s of None \<Rightarrow> NoLocation | Some n \<Rightarrow> Slot n)"

text \<open>Truth value of a string or \<open>None\<close> in a condition.\<close>

definition truthy_str :: "string option \<Rightarrow> bool" where
  "truthy_str s = (case s of None \<Rightarrow> False | Some n \<Rightarrow> n \<noteq> [])"

subsection \<open>noShake v3: swap_tips and get_next_tip\<close>

text \<open>Lines 236 to 264 of BombBio_Trizol_RNA_reuse_noShake_v3.py.\<close>

definition swap_tips :: "string \<Rightarrow> string \<Rightarrow> string option \<Rightarrow> (active_entry, 'z) bench_scheme \<Rightarrow> py_error + (active_entry, 'z) bench_scheme" where
  "swap_tips tip_type tip_apiname new_slot v =
     and_then (dict_get (ACTIVE_TIPRACKS v) tip_type) (\<lambda>entry.
     let old_box = rack entry;
         entry1 = (if truthy_str new_slot then entry\<lparr>deckslot := new_slot\<rparr> else entry);
         v1 = v\<lparr>ACTIVE_TIPRACKS := (ACTIVE_TIPRACKS v)(tip_type \<mapsto> entry1)\<rparr>;
         slot = slot_target (deckslot entry1)
     in and_then
          (case old_box of
             None \<Rightarrow>
               (let (new_box, v2) = bench_load_labware tip_apiname OffDeck v1
                in Inr (new_box, move_labware new_box slot False v2))
           | Some old \<Rightarrow>
               and_then (dict_get (BACKUP_TIPRACKS v1) tip_type) (\<lambda>backups.
               if backups \<noteq> []
               then (let v2 = emit (Comment ''---> Remove old tips'') v1;
                         v3 = move_labware old (Slot ''A4'') True v2;
                         v4 = emit (Comment ''---> Grabbing backup tips from on-deck'') v3;
                         new_box = last backups;
                         v5 = v4\<lparr>BACKUP_TIPRACKS := (BACKUP_TIPRACKS v4)(tip_type \<mapsto> butlast backups)\<rparr>
                     in Inr (new_box, move_labware new_box slot True v5))
               else (let v2 = emit (Comment ''---> Remove old tips'') v1;
                         (new_box, v3) = bench_load_labware tip_apiname OffDeck v2;
                         v4 = move_labware old OffDeck False v3;
                         v5 = emit (Comment ''---> Swap backup tips from off-deck'') v4
                     in Inr (new_box, move_labware new_box slot False v5))))
          (\<lambda>(new_box, v6).
             Inr (v6\<lparr>ACTIVE_TIPRACKS :=
                       (ACTIVE_TIPRACKS v6)(tip_type \<mapsto> entry1\<lparr>rack := Some new_box\<rparr>)\<rparr>)))"

text \<open>Lines 266 to 276 of BombBio_Trizol_RNA_reuse_noShake_v3.py.\<close>

definition v3_get_next_tip :: "pipette \<Rightarrow> string \<Rightarrow> string \<Rightarrow> (active_entry, 'z) bench_scheme \<Rightarrow> py_error + (active_entry, 'z) bench_scheme" where
  "v3_get_next_tip pip tip_type tip_apiname v =
     and_then (dict_get (TIPS_USED v) tip_type) (\<lambda>used.
     and_then
       (if used = 12
        then and_then (swap_tips tip_type tip_apiname None v) (\<lambda>v1.
             Inr (v1\<lparr>TIPS_USED := (TIPS_USED v1)(tip_type \<mapsto> 0)\<rparr>))
        else Inr v) (\<lambda>v2.
     and_then (dict_get (TIPS_USED v2) tip_type) (\<lambda>used2.
     let tip_col = ''A'' @ str_int (used2 + 1) in
     and_then (dict_get (ACTIVE_TIPRACKS v2) tip_type) (\<lambda>entry.
     and_then (case rack entry of None \<Rightarrow> Inl TypeError | Some rk \<Rightarrow> labware_well rk tip_col) (\<lambda>w.
     let v3 = emit (PickUpTip pip (Some w)) v2 in
     and_then (dict_get (TIPS_USED v3) tip_type) (\<lambda>used3.
     Inr (v3\<lparr>TIPS_USED := (TIPS_USED v3)(tip_type \<mapsto> used3 + 1)\<rparr>)))))))"

subsection \<open>shake v1 and Yeast_OPP v1: load_new_tips and get_next_tip\<close>

text \<open>
  Lines 174 to 230 of BombBio_Trizol_RNA_reuse_shake_v1.py; lines 80 to 136 of
  Yeast_OPP_v1.py are the same text. \<open>EMPTYOFFDECKSLOT\<close> is a variable of \<open>run\<close>
  (\<open>'A4'\<close> in both scripts) and is a parameter here.
\<close>

definition swap_labware :: "labware \<Rightarrow> labware \<Rightarrow> string \<Rightarrow> bool \<Rightarrow> ('e, 'z) bench_scheme \<Rightarrow> ('e, 'z) bench_scheme" where
  "swap_labware labware1 labware2 EMPTYSLOT gripper v =
     (let labware1_pos = parent v labware1;
          labware2_pos = parent v labware2
      in if EMPTYSLOT \<noteq> []
         then move_labware labware1 labware2_pos gripper
                (move_labware labware2 labware1_pos gripper
                  (move_labware labware1 (Slot EMPTYSLOT) gripper v))
         else move_labware labware1 labware2_pos False
                (move_labware labware2 labware1_pos False
                  (move_labware labware1 OffDeck False v)))"

definition load_active_tips :: "string \<Rightarrow> labware \<Rightarrow> (labware option, 'z) bench_scheme \<Rightarrow> (labware option, 'z) bench_scheme" where
  "load_active_tips tip_type tip_rack v =
     v\<lparr>ACTIVE_TIPRACKS := (ACTIVE_TIPRACKS v)(tip_type \<mapsto> Some tip_rack),
       TIPS_USED := (TIPS_USED v)(tip_type \<mapsto> 0)\<rparr>"

definition load_backup_tips :: "string \<Rightarrow> labware \<Rightarrow> ('e, 'z) bench_scheme \<Rightarrow> py_error + ('e, 'z) bench_scheme" where
  "load_backup_tips tip_type tip_rack v =
     and_then (dict_get (BACKUP_TIPRACKS v) tip_type) (\<lambda>backups.
     Inr (v\<lparr>BACKUP_TIPRACKS := (BACKUP_TIPRACKS v)(tip_type \<mapsto> backups @ [tip_rack])\<rparr>))"

definition load_new_tips :: "string \<Rightarrow> string \<Rightarrow> string \<Rightarrow> (labware option, 'z) bench_scheme \<Rightarrow> py_error + (labware option, 'z) bench_scheme" where
  "load_new_tips tip_type tip_apiname EMPTYOFFDECKSLOT v =
     (let v0 = emit (Comment ''---> Swapping empty tips'') v in
      and_then (dict_get (ACTIVE_TIPRACKS v0) tip_type) (\<lambda>old_opt.
      and_then (case old_opt of None \<Rightarrow> Inl AttributeError | Some old \<Rightarrow> Inr old) (\<lambda>old_box.
      let old_box_location = parent v0 old_box in
      and_then (dict_get (BACKUP_TIPRACKS v0) tip_type) (\<lambda>backups.
      let (new_box, v4) =
            (if backups \<noteq> []
             then (let new_box = last backups;
                       v1 = v0\<lparr>BACKUP_TIPRACKS := (BACKUP_TIPRACKS v0)(tip_type \<mapsto> butlast backups)\<rparr>
                   in if EMPTYOFFDECKSLOT \<noteq> []
                      then (new_box, swap_labware old_box new_box EMPTYOFFDECKSLOT True v1)
                      else (new_box, swap_labware old_box new_box [] False v1))
             else (let (new_box, v1) = bench_load_labware tip_apiname OffDeck v0;
                       v2 = move_labware old_box OffDeck False v1
                   in (new_box, move_labware new_box old_box_location False v2)))
      in Inr (load_active_tips tip_type new_box v4)))))"

definition shake_get_next_tip :: "string \<Rightarrow> pipette \<Rightarrow> string \<Rightarrow> string \<Rightarrow> (labware option, 'z) bench_scheme \<Rightarrow> py_error + (labware option, 'z) bench_scheme" where
  "shake_get_next_tip EMPTYOFFDECKSLOT pip tip_type tip_apiname v =
     and_then (dict_get (TIPS_USED v) tip_type) (\<lambda>used.
     and_then
       (if used = 12 then load_new_tips tip_type tip_apiname EMPTYOFFDECKSLOT v else Inr v) (\<lambda>v2.
     and_then (dict_get (TIPS_USED v2) tip_type) (\<lambda>used2.
     let tip_col = ''A'' @ str_int (used2 + 1) in
     and_then (dict_get (ACTIVE_TIPRACKS v2) tip_type) (\<lambda>rack_opt.
     and_then (case rack_opt of None \<Rightarrow> Inl TypeError | Some rk \<Rightarrow> labware_well rk tip_col) (\<lambda>w.
     let v3 = emit (PickUpTip pip (Some w)) v2 in
     and_then (dict_get (TIPS_USED v3) tip_type) (\<lambda>used3.
     Inr (v3\<lparr>TIPS_USED := (TIPS_USED v3)(tip_type \<mapsto> used3 + 1)\<rparr>)))))))"


subsection \<open>Frame of the rack swap\<close>

definition backup_of :: "('e, 'z) bench_scheme \<Rightarrow> string \<Rightarrow> labware list" where
  "backup_of v t = (case BACKUP_TIPRACKS v t of None \<Rightarrow> [] | Some bs \<Rightarrow> bs)"

lemma swap_tips_frame:
  assumes "swap_tips t api ns v = Inr v'"
  shows "\<exists>e e'. ACTIVE_TIPRACKS v t = Some e \<and> ACTIVE_TIPRACKS v' t = Some e'
           \<and> rack e' \<noteq> None
           \<and> deckslot e' = (if truthy_str ns then ns else deckslot e)
           \<and> (if rack e \<noteq> None \<and> backup_of v t \<noteq> []
               then BACKUP_TIPRACKS v' t = Some (butlast (backup_of v t))
                    \<and> rack e' = Some (last (backup_of v t))
               else BACKUP_TIPRACKS v' t = BACKUP_TIPRACKS v t)
           \<and> (\<forall>t'. t' \<noteq> t \<longrightarrow> ACTIVE_TIPRACKS v' t' = ACTIVE_TIPRACKS v t'
                                \<and> BACKUP_TIPRACKS v' t' = BACKUP_TIPRACKS v t')
           \<and> TIPS_USED v' = TIPS_USED v \<and> COUNTERS v' = COUNTERS v"
  using assms
  by (auto simp: swap_tips_def dict_get_def bench_load_labware_def move_labware_def emit_def
        load_labware_def Let_def backup_of_def
      split: option.splits if_splits prod.splits)

lemma load_new_tips_frame:
  assumes "load_new_tips t api slot v = Inr v'"
  shows "\<exists>old new. ACTIVE_TIPRACKS v t = Some (Some old) \<and> ACTIVE_TIPRACKS v' t = Some (Some new)
           \<and> (if backup_of v t \<noteq> []
               then BACKUP_TIPRACKS v' t = Some (butlast (backup_of v t))
                    \<and> new = last (backup_of v t)
               else BACKUP_TIPRACKS v' t = BACKUP_TIPRACKS v t)
           \<and> (\<forall>t'. t' \<noteq> t \<longrightarrow> ACTIVE_TIPRACKS v' t' = ACTIVE_TIPRACKS v t'
                                \<and> BACKUP_TIPRACKS v' t' = BACKUP_TIPRACKS v t'
                                \<and> TIPS_USED v' t' = TIPS_USED v t')
           \<and> TIPS_USED v' t = Some 0 \<and> COUNTERS v' = COUNTERS v"
  using assms
  by (auto simp: load_new_tips_def load_active_tips_def swap_labware_def dict_get_def
        bench_load_labware_def move_labware_def emit_def load_labware_def Let_def backup_of_def
      split: option.splits if_splits prod.splits)

subsection \<open>The tip counter\<close>

definition tips_used_ok :: "('e, 'z) bench_scheme \<Rightarrow> bool" where
  "tips_used_ok v = (\<forall>t k. TIPS_USED v t = Some k \<longrightarrow> 0 \<le> k \<and> k \<le> 12)"

lemma str_nat_digit: "n < 10 \<Longrightarrow> str_nat n = [digit_char n]"
  by (simp add: str_nat.simps)

lemma well_in_wells_96:
  assumes "r \<in> set ''ABCDEFGH''" and "1 \<le> c" and "c < 13"
  shows "r # str_nat c \<in> set wells_96"
  unfolding wells_96_def using assms by auto

lemma tip_col_valid:
  assumes "1 \<le> k" and "k \<le> 12"
  shows "labware_well rk (''A'' @ str_int k) = Inr (Well rk (''A'' @ str_int k))"
proof -
  have "''A'' @ str_int k = CHR ''A'' # str_nat (nat k)"
    using assms by (simp add: str_int_def)
  moreover have "CHR ''A'' # str_nat (nat k) \<in> set wells_96"
    using assms by (intro well_in_wells_96) auto
  ultimately show ?thesis by (simp add: labware_well_def)
qed

lemma swap_tips_total:
  assumes "ACTIVE_TIPRACKS v t = Some e" and "rack e \<noteq> None \<longrightarrow> BACKUP_TIPRACKS v t \<noteq> None"
  shows "\<exists>v'. swap_tips t api ns v = Inr v'"
  using assms
  by (auto simp: swap_tips_def dict_get_def Let_def split: option.splits prod.splits)

lemma load_new_tips_total:
  assumes "ACTIVE_TIPRACKS v t = Some (Some old)" and "BACKUP_TIPRACKS v t \<noteq> None"
  shows "\<exists>v'. load_new_tips t api slot v = Inr v'"
  using assms
  by (auto simp: load_new_tips_def dict_get_def Let_def emit_def split: option.splits prod.splits)

lemma v3_get_next_tip_spec:
  assumes ok: "tips_used_ok v" and run: "v3_get_next_tip pip t api v = Inr v'"
  shows "tips_used_ok v' \<and>
         (\<exists>u e rk. TIPS_USED v t = Some u
            \<and> TIPS_USED v' t = Some (if u = 12 then 1 else u + 1)
            \<and> ACTIVE_TIPRACKS v' t = Some e \<and> rack e = Some rk
            \<and> (if u = 12
                then (\<exists>v1. swap_tips t api None v = Inr v1
                        \<and> ACTIVE_TIPRACKS v' = ACTIVE_TIPRACKS v1
                        \<and> BACKUP_TIPRACKS v' = BACKUP_TIPRACKS v1
                        \<and> events v' = events v1 @ [PickUpTip pip (Some (Well rk (''A'' @ str_int 1)))])
                else ACTIVE_TIPRACKS v' = ACTIVE_TIPRACKS v
                     \<and> BACKUP_TIPRACKS v' = BACKUP_TIPRACKS v
                     \<and> events v' = events v @ [PickUpTip pip (Some (Well rk (''A'' @ str_int (u + 1))))])
            \<and> (\<forall>t'. t' \<noteq> t \<longrightarrow> TIPS_USED v' t' = TIPS_USED v t'))"
proof -
  obtain u where u: "TIPS_USED v t = Some u"
    using run by (auto simp: v3_get_next_tip_def dict_get_def split: option.splits)
  have ur: "0 \<le> u" "u \<le> 12" using ok u by (auto simp: tips_used_ok_def)
  show ?thesis
  proof (cases "u = 12")
    case True
    obtain v1 where v1: "swap_tips t api None v = Inr v1"
      using run u True by (cases "swap_tips t api None v") (auto simp: v3_get_next_tip_def dict_get_def)
    from swap_tips_frame [OF v1] obtain e' rk where
      f: "ACTIVE_TIPRACKS v1 t = Some e'" "rack e' = Some rk" "TIPS_USED v1 = TIPS_USED v"
      by auto
    have w: "labware_well rk (''A'' @ str_int 1) = Inr (Well rk (''A'' @ str_int 1))"
      by (rule tip_col_valid) simp_all
    let ?v2 = "v1\<lparr>TIPS_USED := (TIPS_USED v1)(t \<mapsto> 0)\<rparr>"
    let ?v' = "(emit (PickUpTip pip (Some (Well rk (''A'' @ str_int 1)))) ?v2)
                 \<lparr>TIPS_USED := (TIPS_USED v1)(t \<mapsto> 1)\<rparr>"
    have "v3_get_next_tip pip t api v = Inr ?v'"
      using u True v1 f w by (simp add: v3_get_next_tip_def dict_get_def emit_def Let_def)
    then have v': "v' = ?v'" using run by simp
    have ok': "tips_used_ok v'"
      using ok f(3) unfolding v' by (auto simp: tips_used_ok_def emit_def)
    show ?thesis
      using ok' u True v1 f unfolding v' by (auto simp: emit_def)
  next
    case False
    obtain e where e: "ACTIVE_TIPRACKS v t = Some e"
      using run u False by (auto simp: v3_get_next_tip_def dict_get_def Let_def split: option.splits)
    obtain rk where rk: "rack e = Some rk"
      using run u False e by (auto simp: v3_get_next_tip_def dict_get_def Let_def split: option.splits)
    have w: "labware_well rk (''A'' @ str_int (u + 1)) = Inr (Well rk (''A'' @ str_int (u + 1)))"
      using ur False by (intro tip_col_valid) simp_all
    let ?v' = "(emit (PickUpTip pip (Some (Well rk (''A'' @ str_int (u + 1))))) v)
                 \<lparr>TIPS_USED := (TIPS_USED v)(t \<mapsto> u + 1)\<rparr>"
    have "v3_get_next_tip pip t api v = Inr ?v'"
      using u False e rk w by (simp add: v3_get_next_tip_def dict_get_def emit_def Let_def)
    then have v': "v' = ?v'" using run by simp
    have ok': "tips_used_ok v'"
      using ok ur False unfolding v' by (auto simp: tips_used_ok_def emit_def)
    show ?thesis
      using ok' u False e rk unfolding v' by (auto simp: emit_def)
  qed
qed

lemma shake_get_next_tip_spec:
  assumes ok: "tips_used_ok v" and run: "shake_get_next_tip slot pip t api v = Inr v'"
  shows "tips_used_ok v' \<and>
         (\<exists>u rk. TIPS_USED v t = Some u
            \<and> TIPS_USED v' t = Some (if u = 12 then 1 else u + 1)
            \<and> ACTIVE_TIPRACKS v' t = Some (Some rk)
            \<and> (if u = 12
                then (\<exists>v1. load_new_tips t api slot v = Inr v1
                        \<and> TIPS_USED v1 t = Some 0
                        \<and> ACTIVE_TIPRACKS v' = ACTIVE_TIPRACKS v1
                        \<and> BACKUP_TIPRACKS v' = BACKUP_TIPRACKS v1
                        \<and> events v' = events v1 @ [PickUpTip pip (Some (Well rk (''A'' @ str_int 1)))])
                else ACTIVE_TIPRACKS v' = ACTIVE_TIPRACKS v
                     \<and> BACKUP_TIPRACKS v' = BACKUP_TIPRACKS v
                     \<and> events v' = events v @ [PickUpTip pip (Some (Well rk (''A'' @ str_int (u + 1))))])
            \<and> (\<forall>t'. t' \<noteq> t \<longrightarrow> TIPS_USED v' t' = TIPS_USED v t'))"
proof -
  obtain u where u: "TIPS_USED v t = Some u"
    using run by (auto simp: shake_get_next_tip_def dict_get_def split: option.splits)
  have ur: "0 \<le> u" "u \<le> 12" using ok u by (auto simp: tips_used_ok_def)
  show ?thesis
  proof (cases "u = 12")
    case True
    obtain v1 where v1: "load_new_tips t api slot v = Inr v1"
      using run u True
      by (cases "load_new_tips t api slot v") (auto simp: shake_get_next_tip_def dict_get_def)
    from load_new_tips_frame [OF v1] obtain rk where
      f: "ACTIVE_TIPRACKS v1 t = Some (Some rk)" "TIPS_USED v1 t = Some 0"
         "\<forall>t'. t' \<noteq> t \<longrightarrow> TIPS_USED v1 t' = TIPS_USED v t'"
      by auto
    have w: "labware_well rk (''A'' @ str_int 1) = Inr (Well rk (''A'' @ str_int 1))"
      by (rule tip_col_valid) simp_all
    let ?v' = "(emit (PickUpTip pip (Some (Well rk (''A'' @ str_int 1)))) v1)
                 \<lparr>TIPS_USED := (TIPS_USED v1)(t \<mapsto> 1)\<rparr>"
    have "shake_get_next_tip slot pip t api v = Inr ?v'"
      using u True v1 f w by (simp add: shake_get_next_tip_def dict_get_def emit_def Let_def)
    then have v': "v' = ?v'" using run by simp
    have ok': "tips_used_ok v'"
      unfolding v' tips_used_ok_def
    proof (intro allI impI)
      fix t' k
      assume a: "TIPS_USED ?v' t' = Some k"
      show "0 \<le> k \<and> k \<le> 12"
      proof (cases "t' = t")
        case True
        then show ?thesis using a by (simp add: emit_def)
      next
        case False
        then have "TIPS_USED v t' = Some k" using a f(3) by (simp add: emit_def)
        then show ?thesis using ok by (auto simp: tips_used_ok_def)
      qed
    qed
    show ?thesis
      using ok' u True v1 f unfolding v' by (auto simp: emit_def)
  next
    case False
    obtain rk where rk: "ACTIVE_TIPRACKS v t = Some (Some rk)"
      using run u False
      by (auto simp: shake_get_next_tip_def dict_get_def Let_def split: option.splits)
    have w: "labware_well rk (''A'' @ str_int (u + 1)) = Inr (Well rk (''A'' @ str_int (u + 1)))"
      using ur False by (intro tip_col_valid) simp_all
    let ?v' = "(emit (PickUpTip pip (Some (Well rk (''A'' @ str_int (u + 1))))) v)
                 \<lparr>TIPS_USED := (TIPS_USED v)(t \<mapsto> u + 1)\<rparr>"
    have "shake_get_next_tip slot pip t api v = Inr ?v'"
      using u False rk w by (simp add: shake_get_next_tip_def dict_get_def emit_def Let_def)
    then have v': "v' = ?v'" using run by simp
    have ok': "tips_used_ok v'"
      using ok ur False unfolding v' by (auto simp: tips_used_ok_def emit_def)
    show ?thesis
      using ok' u False rk unfolding v' by (auto simp: emit_def)
  qed
qed

lemma swap_tips_ok: "tips_used_ok v \<Longrightarrow> swap_tips t api ns v = Inr v' \<Longrightarrow> tips_used_ok v'"
  using swap_tips_frame [of t api ns v v'] by (auto simp: tips_used_ok_def)

lemma load_new_tips_ok:
  assumes "tips_used_ok v" and "load_new_tips t api slot v = Inr v'"
  shows "tips_used_ok v'"
  unfolding tips_used_ok_def
proof (intro allI impI)
  fix t' k
  assume a: "TIPS_USED v' t' = Some k"
  from load_new_tips_frame [OF assms(2)]
  have f: "TIPS_USED v' t = Some 0" "\<forall>t'. t' \<noteq> t \<longrightarrow> TIPS_USED v' t' = TIPS_USED v t'"
    by auto
  show "0 \<le> k \<and> k \<le> 12"
  proof (cases "t' = t")
    case True
    then show ?thesis using a f(1) by simp
  next
    case False
    then have "TIPS_USED v t' = Some k" using a f(2) by simp
    then show ?thesis using assms(1) by (auto simp: tips_used_ok_def)
  qed
qed

lemma v3_get_next_tip_total:
  assumes "TIPS_USED v t = Some u" and "0 \<le> u" and "u \<le> 12"
    and "ACTIVE_TIPRACKS v t = Some e" and "u \<noteq> 12 \<longrightarrow> rack e \<noteq> None"
    and "rack e \<noteq> None \<longrightarrow> BACKUP_TIPRACKS v t \<noteq> None"
  shows "\<exists>v'. v3_get_next_tip pip t api v = Inr v'"
proof (cases "u = 12")
  case True
  obtain v1 where v1: "swap_tips t api None v = Inr v1"
    using swap_tips_total [OF assms(4,6)] by blast
  from swap_tips_frame [OF v1] obtain e' rk where
    f: "ACTIVE_TIPRACKS v1 t = Some e'" "rack e' = Some rk"
    by auto
  have w: "labware_well rk (''A'' @ str_int 1) = Inr (Well rk (''A'' @ str_int 1))"
    by (rule tip_col_valid) simp_all
  show ?thesis
    using assms(1) True v1 f w by (simp add: v3_get_next_tip_def dict_get_def emit_def Let_def)
next
  case False
  then obtain rk where rk: "rack e = Some rk" using assms(5) by auto
  have w: "labware_well rk (''A'' @ str_int (u + 1)) = Inr (Well rk (''A'' @ str_int (u + 1)))"
    using assms(2,3) False by (intro tip_col_valid) simp_all
  show ?thesis
    using assms(1,4) False rk w by (simp add: v3_get_next_tip_def dict_get_def emit_def Let_def)
qed

lemma shake_get_next_tip_total:
  assumes "TIPS_USED v t = Some u" and "0 \<le> u" and "u \<le> 12"
    and "ACTIVE_TIPRACKS v t = Some (Some old)" and "BACKUP_TIPRACKS v t \<noteq> None"
  shows "\<exists>v'. shake_get_next_tip slot pip t api v = Inr v'"
proof (cases "u = 12")
  case True
  obtain v1 where v1: "load_new_tips t api slot v = Inr v1"
    using load_new_tips_total [OF assms(4,5)] by blast
  from load_new_tips_frame [OF v1] obtain rk where
    f: "ACTIVE_TIPRACKS v1 t = Some (Some rk)" "TIPS_USED v1 t = Some 0"
    by auto
  have w: "labware_well rk (''A'' @ str_int 1) = Inr (Well rk (''A'' @ str_int 1))"
    by (rule tip_col_valid) simp_all
  show ?thesis
    using assms(1) True v1 f w by (simp add: shake_get_next_tip_def dict_get_def emit_def Let_def)
next
  case False
  have w: "labware_well old (''A'' @ str_int (u + 1)) = Inr (Well old (''A'' @ str_int (u + 1)))"
    using assms(2,3) False by (intro tip_col_valid) simp_all
  show ?thesis
    using assms(1,4) False w by (simp add: shake_get_next_tip_def dict_get_def emit_def Let_def)
qed

subsection \<open>The dictionaries when the protocol steps start\<close>

text \<open>
  Lines 150 to 155 and 233 of the noShake v3 script; lines 172 and 187 to 200 of the shake
  v1 script; lines 78 and 93 to 103 of the Yeast_OPP v1 script. Only the tip racks are
  loaded here; the other labware of the deck does not enter the dictionaries.
\<close>

definition empty_bench :: "robot \<Rightarrow> (string \<rightharpoonup> 'e) \<Rightarrow> 'e bench" where
  "empty_bench r active =
     \<lparr>events = events r, next_labware = next_labware r, parent = (\<lambda>lw. OffDeck),
      ACTIVE_TIPRACKS = active,
      BACKUP_TIPRACKS = [''tip50'' \<mapsto> [], ''tip1000'' \<mapsto> []],
      TIPS_USED = [''tip50'' \<mapsto> 0, ''tip1000'' \<mapsto> 0],
      COUNTERS = [''WASTEVOL'' \<mapsto> 0]\<rparr>"

definition v3_tip_setup :: "robot \<Rightarrow> active_entry bench" where
  "v3_tip_setup r =
     (let v0 = empty_bench r [''tip50'' \<mapsto> \<lparr>deckslot = None, rack = None\<rparr>,
                              ''tip1000'' \<mapsto> \<lparr>deckslot = Some ''B3'', rack = None\<rparr>];
          (lw1, v1) = bench_load_labware ''opentrons_flex_96_filtertiprack_1000ul'' (Slot ''B3'') v0;
          v2 = v1\<lparr>ACTIVE_TIPRACKS := (ACTIVE_TIPRACKS v1)
                    (''tip1000'' \<mapsto> \<lparr>deckslot = Some ''B3'', rack = Some lw1\<rparr>)\<rparr>;
          (lw2, v3) = bench_load_labware ''opentrons_flex_96_filtertiprack_1000ul'' (Slot ''D4'') v2
      in v3\<lparr>BACKUP_TIPRACKS := (BACKUP_TIPRACKS v3)(''tip1000'' \<mapsto> [lw2])\<rparr>)"

definition shake_tip_setup :: "robot \<Rightarrow> py_error + labware option bench" where
  "shake_tip_setup r =
     (let v0 = empty_bench r [''tip50'' \<mapsto> None, ''tip1000'' \<mapsto> None];
          (lw1, v1) = bench_load_labware ''opentrons_flex_96_filtertiprack_1000ul'' (Slot ''B3'') v0;
          v2 = load_active_tips ''tip1000'' lw1 v1;
          (lw2, v3) = bench_load_labware ''opentrons_flex_96_filtertiprack_50ul'' (Slot ''C4'') v2;
          v4 = load_active_tips ''tip50'' lw2 v3;
          (lw3, v5) = bench_load_labware ''opentrons_flex_96_filtertiprack_1000ul'' (Slot ''B4'') v4
      in load_backup_tips ''tip1000'' lw3 v5)"

definition yeast_tip_setup :: "robot \<Rightarrow> labware option bench" where
  "yeast_tip_setup r =
     (let v0 = empty_bench r [''tip50'' \<mapsto> None, ''tip1000'' \<mapsto> None];
          (lw1, v1) = bench_load_labware ''opentrons_flex_96_filtertiprack_1000ul'' (Slot ''C3'') v0
      in load_active_tips ''tip1000'' lw1 v1)"

text \<open>What a run that may have raised left in a dictionary.\<close>

definition used_after :: "py_error + ('e, 'z) bench_scheme \<Rightarrow> string \<Rightarrow> int option" where
  "used_after res t = (case res of Inl e \<Rightarrow> None | Inr v \<Rightarrow> TIPS_USED v t)"

definition backup_after :: "py_error + ('e, 'z) bench_scheme \<Rightarrow> string \<Rightarrow> labware list option" where
  "backup_after res t = (case res of Inl e \<Rightarrow> None | Inr v \<Rightarrow> BACKUP_TIPRACKS v t)"

definition shake_rack_used_up :: "labware option bench" where
  "shake_rack_used_up =
     (case shake_tip_setup fresh_robot of
        Inl e \<Rightarrow> empty_bench fresh_robot Map.empty
      | Inr v \<Rightarrow> v\<lparr>TIPS_USED := (TIPS_USED v)(''tip1000'' \<mapsto> 12)\<rparr>)"

lemma v3_tip_setup_fields:
  "TIPS_USED (v3_tip_setup r) = [''tip50'' \<mapsto> 0, ''tip1000'' \<mapsto> 0]"
  "ACTIVE_TIPRACKS (v3_tip_setup r) ''tip1000''
     = Some \<lparr>deckslot = Some ''B3'',
             rack = Some (Labware (next_labware r) ''opentrons_flex_96_filtertiprack_1000ul'')\<rparr>"
  "ACTIVE_TIPRACKS (v3_tip_setup r) ''tip50'' = Some \<lparr>deckslot = None, rack = None\<rparr>"
  "BACKUP_TIPRACKS (v3_tip_setup r) ''tip1000''
     = Some [Labware (next_labware r + 1) ''opentrons_flex_96_filtertiprack_1000ul'']"
  "BACKUP_TIPRACKS (v3_tip_setup r) ''tip50'' = Some []"
  "COUNTERS (v3_tip_setup r) = [''WASTEVOL'' \<mapsto> 0]"
  by (simp_all add: v3_tip_setup_def empty_bench_def bench_load_labware_def load_labware_def
        emit_def Let_def)

lemma shake_tip_setup_fields:
  "\<exists>v. shake_tip_setup r = Inr v
     \<and> TIPS_USED v = [''tip50'' \<mapsto> 0, ''tip1000'' \<mapsto> 0]
     \<and> ACTIVE_TIPRACKS v ''tip1000''
         = Some (Some (Labware (next_labware r) ''opentrons_flex_96_filtertiprack_1000ul''))
     \<and> ACTIVE_TIPRACKS v ''tip50''
         = Some (Some (Labware (next_labware r + 1) ''opentrons_flex_96_filtertiprack_50ul''))
     \<and> BACKUP_TIPRACKS v ''tip1000''
         = Some [Labware (next_labware r + 2) ''opentrons_flex_96_filtertiprack_1000ul'']
     \<and> BACKUP_TIPRACKS v ''tip50'' = Some []
     \<and> COUNTERS v = [''WASTEVOL'' \<mapsto> 0]"
  by (simp add: shake_tip_setup_def empty_bench_def bench_load_labware_def load_labware_def
        load_active_tips_def load_backup_tips_def dict_get_def emit_def Let_def fun_upd_twist)

lemma yeast_tip_setup_fields:
  "TIPS_USED (yeast_tip_setup r) = [''tip50'' \<mapsto> 0, ''tip1000'' \<mapsto> 0]"
  "ACTIVE_TIPRACKS (yeast_tip_setup r) ''tip1000''
     = Some (Some (Labware (next_labware r) ''opentrons_flex_96_filtertiprack_1000ul''))"
  "BACKUP_TIPRACKS (yeast_tip_setup r) ''tip1000'' = Some []"
  by (simp_all add: yeast_tip_setup_def empty_bench_def bench_load_labware_def load_labware_def
        load_active_tips_def emit_def Let_def)

lemma tips_used_ok_zero: "TIPS_USED v = [''tip50'' \<mapsto> 0, ''tip1000'' \<mapsto> 0] \<Longrightarrow> tips_used_ok v"
  by (auto simp: tips_used_ok_def split: if_splits)

text \<open>
  C8, as the claim states it, fails for \<open>load_new_tips\<close> of shake v1: the swap itself sets
  the tips-used counter of the swapped tip type to 0 (through \<open>load_active_tips\<close>). With
  the first 1000 ul rack used up, the counter is 12 before and 0 after.
\<close>

theorem load_new_tips_resets_counter_counterexample:
  "TIPS_USED shake_rack_used_up ''tip1000'' = Some 12
   \<and> used_after (load_new_tips ''tip1000'' ''opentrons_flex_96_filtertiprack_1000ul'' ''A4''
                   shake_rack_used_up) ''tip1000'' = Some 0"
  by (simp add: shake_rack_used_up_def shake_tip_setup_def empty_bench_def bench_load_labware_def
        load_labware_def load_active_tips_def load_backup_tips_def dict_get_def emit_def Let_def
        load_new_tips_def swap_labware_def move_labware_def used_after_def fresh_robot_def)

text \<open>
  C8, amended. A successful call of the swap routine for a tip type changes, among the
  active-rack entries and the backup lists, only those of that tip type: the entry gets a
  rack (and in noShake v3 the new deck slot, when one is given); when a rack was active
  and the backup list is not empty, the list loses its last rack, the one added most
  recently, and that rack becomes the active one; otherwise the backup list is unchanged.
  The entries and lists of every other tip type and the waste counter are unchanged.
  \<open>swap_tips\<close> of noShake v3 leaves both tips-used counters unchanged;
  \<open>load_new_tips\<close> of shake v1 sets the counter of the swapped tip type to 0 and leaves
  the other counter unchanged.
\<close>

theorem swap_frame_amended:
  "(swap_tips t api ns v = Inr v' \<longrightarrow>
      (\<exists>e e'. ACTIVE_TIPRACKS v t = Some e \<and> ACTIVE_TIPRACKS v' t = Some e'
           \<and> rack e' \<noteq> None
           \<and> deckslot e' = (if truthy_str ns then ns else deckslot e)
           \<and> (if rack e \<noteq> None \<and> backup_of v t \<noteq> []
               then BACKUP_TIPRACKS v' t = Some (butlast (backup_of v t))
                    \<and> rack e' = Some (last (backup_of v t))
               else BACKUP_TIPRACKS v' t = BACKUP_TIPRACKS v t)
           \<and> (\<forall>t'. t' \<noteq> t \<longrightarrow> ACTIVE_TIPRACKS v' t' = ACTIVE_TIPRACKS v t'
                                \<and> BACKUP_TIPRACKS v' t' = BACKUP_TIPRACKS v t')
           \<and> TIPS_USED v' = TIPS_USED v \<and> COUNTERS v' = COUNTERS v))
   \<and> (load_new_tips t api slot w = Inr w' \<longrightarrow>
      (\<exists>old new. ACTIVE_TIPRACKS w t = Some (Some old) \<and> ACTIVE_TIPRACKS w' t = Some (Some new)
           \<and> (if backup_of w t \<noteq> []
               then BACKUP_TIPRACKS w' t = Some (butlast (backup_of w t))
                    \<and> new = last (backup_of w t)
               else BACKUP_TIPRACKS w' t = BACKUP_TIPRACKS w t)
           \<and> (\<forall>t'. t' \<noteq> t \<longrightarrow> ACTIVE_TIPRACKS w' t' = ACTIVE_TIPRACKS w t'
                                \<and> BACKUP_TIPRACKS w' t' = BACKUP_TIPRACKS w t'
                                \<and> TIPS_USED w' t' = TIPS_USED w t')
           \<and> TIPS_USED w' t = Some 0 \<and> COUNTERS w' = COUNTERS w))"
  using swap_tips_frame [of t api ns v v'] load_new_tips_frame [of t api slot w w']
  by blast

theorem swap_frame_amended_witness:
  "(\<exists>v'. swap_tips ''tip1000'' ''opentrons_flex_96_filtertiprack_1000ul'' None
            (v3_tip_setup fresh_robot) = Inr v'
        \<and> BACKUP_TIPRACKS v' ''tip1000'' = Some []
        \<and> ACTIVE_TIPRACKS v' ''tip50'' = ACTIVE_TIPRACKS (v3_tip_setup fresh_robot) ''tip50''
        \<and> TIPS_USED v' = TIPS_USED (v3_tip_setup fresh_robot))
   \<and> (\<exists>w'. load_new_tips ''tip1000'' ''opentrons_flex_96_filtertiprack_1000ul'' ''A4''
            shake_rack_used_up = Inr w'
        \<and> BACKUP_TIPRACKS w' ''tip1000'' = Some []
        \<and> TIPS_USED w' ''tip1000'' = Some 0
        \<and> TIPS_USED w' ''tip50'' = TIPS_USED shake_rack_used_up ''tip50'')"
proof -
  let ?api = "''opentrons_flex_96_filtertiprack_1000ul''"
  let ?v = "v3_tip_setup fresh_robot"
  have a: "ACTIVE_TIPRACKS ?v ''tip1000''
             = Some \<lparr>deckslot = Some ''B3'', rack = Some (Labware 0 ?api)\<rparr>"
    using v3_tip_setup_fields(2) [of fresh_robot] by (simp add: fresh_robot_def)
  have b: "BACKUP_TIPRACKS ?v ''tip1000'' = Some [Labware 1 ?api]"
    using v3_tip_setup_fields(4) [of fresh_robot] by (simp add: fresh_robot_def)
  obtain v' where s: "swap_tips ''tip1000'' ?api None ?v = Inr v'"
    using swap_tips_total [of ?v "''tip1000''" _ ?api None] a b by auto
  have ne: "(''tip50'' :: string) \<noteq> ''tip1000''" by simp
  have w1: "BACKUP_TIPRACKS v' ''tip1000'' = Some []
        \<and> ACTIVE_TIPRACKS v' ''tip50'' = ACTIVE_TIPRACKS ?v ''tip50''
        \<and> TIPS_USED v' = TIPS_USED ?v"
    using swap_frame_amended [where t = "''tip1000''" and api = ?api and ns = None
            and v = ?v and v' = v', THEN conjunct1] s a b ne
    by (auto simp: backup_of_def)
  let ?w = "shake_rack_used_up"
  obtain w0 where w0: "shake_tip_setup fresh_robot = Inr w0"
      "ACTIVE_TIPRACKS w0 ''tip1000'' = Some (Some (Labware 0 ?api))"
      "BACKUP_TIPRACKS w0 ''tip1000'' = Some [Labware 2 ?api]"
    using shake_tip_setup_fields [of fresh_robot] by (auto simp: fresh_robot_def)
  have wd: "?w = w0\<lparr>TIPS_USED := (TIPS_USED w0)(''tip1000'' \<mapsto> 12)\<rparr>"
    using w0(1) by (simp add: shake_rack_used_up_def)
  have c: "ACTIVE_TIPRACKS ?w ''tip1000'' = Some (Some (Labware 0 ?api))"
    and d: "BACKUP_TIPRACKS ?w ''tip1000'' = Some [Labware 2 ?api]"
    unfolding wd using w0 by simp_all
  obtain w' where l: "load_new_tips ''tip1000'' ?api ''A4'' ?w = Inr w'"
    using load_new_tips_total [of ?w "''tip1000''" _ ?api "''A4''"] c d by auto
  have w2: "BACKUP_TIPRACKS w' ''tip1000'' = Some []
        \<and> TIPS_USED w' ''tip1000'' = Some 0
        \<and> TIPS_USED w' ''tip50'' = TIPS_USED ?w ''tip50''"
    using swap_frame_amended [where t = "''tip1000''" and api = ?api and slot = "''A4''"
            and w = ?w and w' = w', THEN conjunct2] l c d ne
    by (auto simp: backup_of_def)
  show ?thesis using s w1 l w2 by blast
qed

text \<open>
  C1. In the three protocols the tips-used counter of every tip type stays between 0 and
  12: it is 0 at the start, and \<open>get_next_tip\<close>, \<open>swap_tips\<close> and \<open>load_new_tips\<close> keep it in
  that range. A call of \<open>get_next_tip\<close> that finds the counter \<open>u\<close> below 12 picks up the
  tip in column \<open>A{u+1}\<close> of the active rack and leaves the counter at \<open>u + 1\<close>; a call that
  finds it at 12 first swaps in a new rack, with the counter at 0, then picks up \<open>A1\<close> of
  the new rack and leaves the counter at 1. So the column picked is between A1 and A12.
  The call returns whenever the dictionaries have the tip type and a rack is active (in
  noShake v3 a missing rack is allowed when the counter is 12).
\<close>

theorem get_next_tip_counter:
  "(tips_used_ok v \<and> v3_get_next_tip pip t api v = Inr v' \<longrightarrow>
      tips_used_ok v' \<and>
      (\<exists>u e rk. TIPS_USED v t = Some u \<and> 0 \<le> u \<and> u \<le> 12
         \<and> TIPS_USED v' t = Some (if u = 12 then 1 else u + 1)
         \<and> ACTIVE_TIPRACKS v' t = Some e \<and> rack e = Some rk
         \<and> (if u = 12
             then (\<exists>v1. swap_tips t api None v = Inr v1
                     \<and> ACTIVE_TIPRACKS v' = ACTIVE_TIPRACKS v1
                     \<and> BACKUP_TIPRACKS v' = BACKUP_TIPRACKS v1
                     \<and> events v' = events v1 @ [PickUpTip pip (Some (Well rk (''A'' @ str_int 1)))])
             else ACTIVE_TIPRACKS v' = ACTIVE_TIPRACKS v
                  \<and> BACKUP_TIPRACKS v' = BACKUP_TIPRACKS v
                  \<and> events v' = events v @ [PickUpTip pip (Some (Well rk (''A'' @ str_int (u + 1))))])
         \<and> (\<forall>t'. t' \<noteq> t \<longrightarrow> TIPS_USED v' t' = TIPS_USED v t')))
   \<and> (tips_used_ok w \<and> shake_get_next_tip slot pip t api w = Inr w' \<longrightarrow>
      tips_used_ok w' \<and>
      (\<exists>u rk. TIPS_USED w t = Some u \<and> 0 \<le> u \<and> u \<le> 12
         \<and> TIPS_USED w' t = Some (if u = 12 then 1 else u + 1)
         \<and> ACTIVE_TIPRACKS w' t = Some (Some rk)
         \<and> (if u = 12
             then (\<exists>w1. load_new_tips t api slot w = Inr w1
                     \<and> TIPS_USED w1 t = Some 0
                     \<and> ACTIVE_TIPRACKS w' = ACTIVE_TIPRACKS w1
                     \<and> BACKUP_TIPRACKS w' = BACKUP_TIPRACKS w1
                     \<and> events w' = events w1 @ [PickUpTip pip (Some (Well rk (''A'' @ str_int 1)))])
             else ACTIVE_TIPRACKS w' = ACTIVE_TIPRACKS w
                  \<and> BACKUP_TIPRACKS w' = BACKUP_TIPRACKS w
                  \<and> events w' = events w @ [PickUpTip pip (Some (Well rk (''A'' @ str_int (u + 1))))])
         \<and> (\<forall>t'. t' \<noteq> t \<longrightarrow> TIPS_USED w' t' = TIPS_USED w t')))
   \<and> (tips_used_ok v \<and> swap_tips t api ns v = Inr v' \<longrightarrow> tips_used_ok v')
   \<and> (tips_used_ok w \<and> load_new_tips t api slot w = Inr w' \<longrightarrow> tips_used_ok w')
   \<and> tips_used_ok (v3_tip_setup r)
   \<and> (\<exists>w0. shake_tip_setup r = Inr w0 \<and> tips_used_ok w0)
   \<and> tips_used_ok (yeast_tip_setup r)
   \<and> (tips_used_ok v \<and> TIPS_USED v t \<noteq> None \<and> ACTIVE_TIPRACKS v t = Some e0
        \<and> (TIPS_USED v t \<noteq> Some 12 \<longrightarrow> rack e0 \<noteq> None)
        \<and> (rack e0 \<noteq> None \<longrightarrow> BACKUP_TIPRACKS v t \<noteq> None)
        \<longrightarrow> (\<exists>v2. v3_get_next_tip pip t api v = Inr v2))
   \<and> (tips_used_ok w \<and> TIPS_USED w t \<noteq> None \<and> ACTIVE_TIPRACKS w t = Some (Some rk0)
        \<and> BACKUP_TIPRACKS w t \<noteq> None
        \<longrightarrow> (\<exists>w2. shake_get_next_tip slot pip t api w = Inr w2))"
proof (intro conjI impI)
  assume a: "tips_used_ok v \<and> v3_get_next_tip pip t api v = Inr v'"
  note s = v3_get_next_tip_spec [OF a [THEN conjunct1] a [THEN conjunct2]]
  show "tips_used_ok v'" using s by simp
  obtain u e rk where u: "TIPS_USED v t = Some u"
    and rest: "TIPS_USED v' t = Some (if u = 12 then 1 else u + 1)"
      "ACTIVE_TIPRACKS v' t = Some e" "rack e = Some rk"
      "if u = 12
       then (\<exists>v1. swap_tips t api None v = Inr v1
               \<and> ACTIVE_TIPRACKS v' = ACTIVE_TIPRACKS v1
               \<and> BACKUP_TIPRACKS v' = BACKUP_TIPRACKS v1
               \<and> events v' = events v1 @ [PickUpTip pip (Some (Well rk (''A'' @ str_int 1)))])
       else ACTIVE_TIPRACKS v' = ACTIVE_TIPRACKS v
            \<and> BACKUP_TIPRACKS v' = BACKUP_TIPRACKS v
            \<and> events v' = events v @ [PickUpTip pip (Some (Well rk (''A'' @ str_int (u + 1))))]"
      "\<forall>t'. t' \<noteq> t \<longrightarrow> TIPS_USED v' t' = TIPS_USED v t'"
    using s by blast
  have "0 \<le> u \<and> u \<le> 12" using a u by (auto simp: tips_used_ok_def)
  then show "\<exists>u e rk. TIPS_USED v t = Some u \<and> 0 \<le> u \<and> u \<le> 12
         \<and> TIPS_USED v' t = Some (if u = 12 then 1 else u + 1)
         \<and> ACTIVE_TIPRACKS v' t = Some e \<and> rack e = Some rk
         \<and> (if u = 12
             then (\<exists>v1. swap_tips t api None v = Inr v1
                     \<and> ACTIVE_TIPRACKS v' = ACTIVE_TIPRACKS v1
                     \<and> BACKUP_TIPRACKS v' = BACKUP_TIPRACKS v1
                     \<and> events v' = events v1 @ [PickUpTip pip (Some (Well rk (''A'' @ str_int 1)))])
             else ACTIVE_TIPRACKS v' = ACTIVE_TIPRACKS v
                  \<and> BACKUP_TIPRACKS v' = BACKUP_TIPRACKS v
                  \<and> events v' = events v @ [PickUpTip pip (Some (Well rk (''A'' @ str_int (u + 1))))])
         \<and> (\<forall>t'. t' \<noteq> t \<longrightarrow> TIPS_USED v' t' = TIPS_USED v t')"
    using u rest by blast
next
  assume a: "tips_used_ok w \<and> shake_get_next_tip slot pip t api w = Inr w'"
  note s = shake_get_next_tip_spec [OF a [THEN conjunct1] a [THEN conjunct2]]
  show "tips_used_ok w'" using s by simp
  obtain u rk where u: "TIPS_USED w t = Some u"
    and rest: "TIPS_USED w' t = Some (if u = 12 then 1 else u + 1)"
      "ACTIVE_TIPRACKS w' t = Some (Some rk)"
      "if u = 12
       then (\<exists>w1. load_new_tips t api slot w = Inr w1
               \<and> TIPS_USED w1 t = Some 0
               \<and> ACTIVE_TIPRACKS w' = ACTIVE_TIPRACKS w1
               \<and> BACKUP_TIPRACKS w' = BACKUP_TIPRACKS w1
               \<and> events w' = events w1 @ [PickUpTip pip (Some (Well rk (''A'' @ str_int 1)))])
       else ACTIVE_TIPRACKS w' = ACTIVE_TIPRACKS w
            \<and> BACKUP_TIPRACKS w' = BACKUP_TIPRACKS w
            \<and> events w' = events w @ [PickUpTip pip (Some (Well rk (''A'' @ str_int (u + 1))))]"
      "\<forall>t'. t' \<noteq> t \<longrightarrow> TIPS_USED w' t' = TIPS_USED w t'"
    using s by blast
  have "0 \<le> u \<and> u \<le> 12" using a u by (auto simp: tips_used_ok_def)
  then show "\<exists>u rk. TIPS_USED w t = Some u \<and> 0 \<le> u \<and> u \<le> 12
         \<and> TIPS_USED w' t = Some (if u = 12 then 1 else u + 1)
         \<and> ACTIVE_TIPRACKS w' t = Some (Some rk)
         \<and> (if u = 12
             then (\<exists>w1. load_new_tips t api slot w = Inr w1
                     \<and> TIPS_USED w1 t = Some 0
                     \<and> ACTIVE_TIPRACKS w' = ACTIVE_TIPRACKS w1
                     \<and> BACKUP_TIPRACKS w' = BACKUP_TIPRACKS w1
                     \<and> events w' = events w1 @ [PickUpTip pip (Some (Well rk (''A'' @ str_int 1)))])
             else ACTIVE_TIPRACKS w' = ACTIVE_TIPRACKS w
                  \<and> BACKUP_TIPRACKS w' = BACKUP_TIPRACKS w
                  \<and> events w' = events w @ [PickUpTip pip (Some (Well rk (''A'' @ str_int (u + 1))))])
         \<and> (\<forall>t'. t' \<noteq> t \<longrightarrow> TIPS_USED w' t' = TIPS_USED w t')"
    using u rest by blast
next
  assume "tips_used_ok v \<and> swap_tips t api ns v = Inr v'"
  then show "tips_used_ok v'" using swap_tips_ok by blast
next
  assume "tips_used_ok w \<and> load_new_tips t api slot w = Inr w'"
  then show "tips_used_ok w'" using load_new_tips_ok by blast
next
  show "tips_used_ok (v3_tip_setup r)"
    by (rule tips_used_ok_zero) (rule v3_tip_setup_fields(1))
next
  show "\<exists>w0. shake_tip_setup r = Inr w0 \<and> tips_used_ok w0"
    using shake_tip_setup_fields [of r] tips_used_ok_zero by blast
next
  show "tips_used_ok (yeast_tip_setup r)"
    by (rule tips_used_ok_zero) (rule yeast_tip_setup_fields(1))
next
  assume a: "tips_used_ok v \<and> TIPS_USED v t \<noteq> None \<and> ACTIVE_TIPRACKS v t = Some e0
        \<and> (TIPS_USED v t \<noteq> Some 12 \<longrightarrow> rack e0 \<noteq> None)
        \<and> (rack e0 \<noteq> None \<longrightarrow> BACKUP_TIPRACKS v t \<noteq> None)"
  then obtain u where u: "TIPS_USED v t = Some u" by auto
  have ur: "0 \<le> u" "u \<le> 12" using a u by (auto simp: tips_used_ok_def)
  show "\<exists>v2. v3_get_next_tip pip t api v = Inr v2"
    using v3_get_next_tip_total [OF u ur, of e0] a u by auto
next
  assume a: "tips_used_ok w \<and> TIPS_USED w t \<noteq> None \<and> ACTIVE_TIPRACKS w t = Some (Some rk0)
        \<and> BACKUP_TIPRACKS w t \<noteq> None"
  then obtain u where u: "TIPS_USED w t = Some u" by auto
  have ur: "0 \<le> u" "u \<le> 12" using a u by (auto simp: tips_used_ok_def)
  show "\<exists>w2. shake_get_next_tip slot pip t api w = Inr w2"
    using shake_get_next_tip_total [OF u ur, of rk0] a by auto
qed

theorem get_next_tip_counter_witness:
  "tips_used_ok (v3_tip_setup fresh_robot)
   \<and> (\<exists>v'. v3_get_next_tip P1000 ''tip1000'' ''opentrons_flex_96_filtertiprack_1000ul''
             (v3_tip_setup fresh_robot) = Inr v'
         \<and> TIPS_USED v' ''tip1000'' = Some 1
         \<and> events v' = events (v3_tip_setup fresh_robot)
             @ [PickUpTip P1000
                  (Some (Well (Labware 0 ''opentrons_flex_96_filtertiprack_1000ul'') ''A1''))])
   \<and> tips_used_ok shake_rack_used_up
   \<and> (\<exists>w'. shake_get_next_tip ''A4'' P1000 ''tip1000'' ''opentrons_flex_96_filtertiprack_1000ul''
             shake_rack_used_up = Inr w'
         \<and> TIPS_USED w' ''tip1000'' = Some 1
         \<and> ACTIVE_TIPRACKS w' ''tip1000''
             = Some (Some (Labware 2 ''opentrons_flex_96_filtertiprack_1000ul'')))"
proof -
  let ?api = "''opentrons_flex_96_filtertiprack_1000ul''"
  let ?v = "v3_tip_setup fresh_robot"
  let ?w = "shake_rack_used_up"
  note thm_v = get_next_tip_counter [where v = ?v and pip = P1000 and t = "''tip1000''"
                 and api = ?api and r = fresh_robot]
  have ok: "tips_used_ok ?v"
    using thm_v [THEN conjunct2, THEN conjunct2, THEN conjunct2, THEN conjunct2, THEN conjunct1] .
  have a: "ACTIVE_TIPRACKS ?v ''tip1000''
             = Some \<lparr>deckslot = Some ''B3'', rack = Some (Labware 0 ?api)\<rparr>"
    using v3_tip_setup_fields(2) [of fresh_robot] by (simp add: fresh_robot_def)
  have b: "BACKUP_TIPRACKS ?v ''tip1000'' = Some [Labware 1 ?api]"
    using v3_tip_setup_fields(4) [of fresh_robot] by (simp add: fresh_robot_def)
  have u: "TIPS_USED ?v ''tip1000'' = Some 0"
    using v3_tip_setup_fields(1) [of fresh_robot] by simp
  obtain v' where run: "v3_get_next_tip P1000 ''tip1000'' ?api ?v = Inr v'"
    using get_next_tip_counter [where v = ?v and pip = P1000 and t = "''tip1000''"
            and api = ?api and ?e0.0 = "\<lparr>deckslot = Some ''B3'', rack = Some (Labware 0 ?api)\<rparr>",
            THEN conjunct2, THEN conjunct2, THEN conjunct2, THEN conjunct2, THEN conjunct2,
            THEN conjunct2, THEN conjunct2, THEN conjunct1] ok a b u
    by auto
  have one: "str_int 1 = ''1''"
    by (simp add: str_int_def str_nat.simps digit_char_def)
  have w1: "TIPS_USED v' ''tip1000'' = Some 1
         \<and> events v' = events ?v @ [PickUpTip P1000 (Some (Well (Labware 0 ?api) ''A1''))]"
    using get_next_tip_counter [where v = ?v and v' = v' and pip = P1000 and t = "''tip1000''"
            and api = ?api, THEN conjunct1] ok run u a one
    by auto
  obtain w0 where w0: "shake_tip_setup fresh_robot = Inr w0"
      "TIPS_USED w0 = [''tip50'' \<mapsto> 0, ''tip1000'' \<mapsto> 0]"
      "ACTIVE_TIPRACKS w0 ''tip1000'' = Some (Some (Labware 0 ?api))"
      "BACKUP_TIPRACKS w0 ''tip1000'' = Some [Labware 2 ?api]"
    using shake_tip_setup_fields [of fresh_robot] by (auto simp: fresh_robot_def)
  have wd: "?w = w0\<lparr>TIPS_USED := (TIPS_USED w0)(''tip1000'' \<mapsto> 12)\<rparr>"
    using w0(1) by (simp add: shake_rack_used_up_def)
  have okw: "tips_used_ok ?w"
    unfolding wd using w0(2) by (auto simp: tips_used_ok_def split: if_splits)
  have c: "ACTIVE_TIPRACKS ?w ''tip1000'' = Some (Some (Labware 0 ?api))"
    and d: "BACKUP_TIPRACKS ?w ''tip1000'' = Some [Labware 2 ?api]"
    and uw: "TIPS_USED ?w ''tip1000'' = Some 12"
    unfolding wd using w0 by simp_all
  obtain w' where runw: "shake_get_next_tip ''A4'' P1000 ''tip1000'' ?api ?w = Inr w'"
    using get_next_tip_counter [where w = ?w and pip = P1000 and t = "''tip1000''"
            and api = ?api and slot = "''A4''" and ?rk0.0 = "Labware 0 ?api",
            THEN conjunct2, THEN conjunct2, THEN conjunct2, THEN conjunct2, THEN conjunct2,
            THEN conjunct2, THEN conjunct2, THEN conjunct2] okw c d uw
    by auto
  obtain rk where w2: "TIPS_USED w' ''tip1000'' = Some 1"
      "ACTIVE_TIPRACKS w' ''tip1000'' = Some (Some rk)"
      "\<exists>w1. load_new_tips ''tip1000'' ?api ''A4'' ?w = Inr w1
             \<and> ACTIVE_TIPRACKS w' = ACTIVE_TIPRACKS w1"
    using get_next_tip_counter [where w = ?w and w' = w' and pip = P1000 and t = "''tip1000''"
            and api = ?api and slot = "''A4''", THEN conjunct2, THEN conjunct1] okw runw uw
    by auto
  then obtain w1 where w1f: "load_new_tips ''tip1000'' ?api ''A4'' ?w = Inr w1"
      "ACTIVE_TIPRACKS w' = ACTIVE_TIPRACKS w1"
    by blast
  have "ACTIVE_TIPRACKS w1 ''tip1000'' = Some (Some (Labware 2 ?api))"
    using load_new_tips_frame [OF w1f(1)] d by (auto simp: backup_of_def)
  then have w3: "ACTIVE_TIPRACKS w' ''tip1000'' = Some (Some (Labware 2 ?api))"
    using w1f(2) by simp
  show ?thesis using ok run w1 okw runw w2(1) w3 by blast
qed

section \<open>BombBio protocols: removal of the supernatant\<close>

text \<open>
  \<open>removeSup\<close>, lines 309 to 339 of the noShake v3 script and lines 341 to 368 of the
  shake v1 script. \<open>WasteRes\<close> and the flow-rate defaults of the 1000 ul pipette (200, 200
  and 400) are variables of \<open>run\<close>; \<open>DRYRUN\<close> is a run-time parameter that the shake v1
  version reads for its delays. \<open>PLATE[COL]\<close> is looked up once here; the source looks it
  up at each of its three moves, with the same result.
\<close>

definition v3_removeSup :: "labware \<Rightarrow> labware \<Rightarrow> string \<Rightarrow> rat \<Rightarrow> rat \<Rightarrow> ('e, 'z) bench_scheme \<Rightarrow> py_error + ('e, 'z) bench_scheme" where
  "v3_removeSup WasteRes PLATE COL SUPVOL Deepwell_Z_offset v =
     (let SUPVOL1 = (if SUPVOL < 100 then 100 else SUPVOL);
          v1 = emits [SetFlowRate P1000 FlowAspirate (200 * (1 / 2)),
                      SetFlowRate P1000 FlowDispense (200 * (1 / 2)),
                      SetFlowRate P1000 FlowBlowOut (400 * (1 / 2))] v
      in and_then (labware_well PLATE COL) (\<lambda>well.
         let v2 = emits [MoveTo P1000 (Bottom well (Deepwell_Z_offset + 2)),
                         Aspirate P1000 (SUPVOL1 - 100) None 1,
                         DelayMinutes (1 / 10),
                         MoveTo P1000 (Bottom well (Deepwell_Z_offset + 1)),
                         Aspirate P1000 100 None 1,
                         SetDefaultSpeed P1000 200,
                         MoveTo P1000 (Top well 2)] v1
         in and_then (dict_get (COUNTERS v2) ''WASTEVOL'') (\<lambda>waste.
            let v3 = v2\<lparr>COUNTERS := (COUNTERS v2)(''WASTEVOL'' \<mapsto> waste + SUPVOL1 * 8)\<rparr>;
                v4 = emit (Comment ''--->Adding'') v3
            in and_then (dict_get (COUNTERS v4) ''WASTEVOL'') (\<lambda>total.
               let v5 = (if total > 150000 then emit (Pause ''Please empty the waste'') v4 else v4)
               in Inr (emits [Dispense P1000 SUPVOL1 (Some (Top (Well WasteRes ''A1'') 0)) 1 None,
                              DelayMinutes (1 / 10),
                              BlowOut P1000 None,
                              SetDefaultSpeed P1000 400,
                              MoveTo P1000 (Top (Well WasteRes ''A1'') (- 5)),
                              MoveTo P1000 (Top (Well WasteRes ''A1'') 0),
                              SetFlowRate P1000 FlowAspirate 200,
                              SetFlowRate P1000 FlowDispense 200,
                              SetFlowRate P1000 FlowBlowOut 400] v5)))))"

definition shake_removeSup :: "bool \<Rightarrow> labware \<Rightarrow> labware \<Rightarrow> string \<Rightarrow> rat \<Rightarrow> rat \<Rightarrow> ('e, 'z) bench_scheme \<Rightarrow> py_error + ('e, 'z) bench_scheme" where
  "shake_removeSup DRYRUN WasteRes PLATE COL SUPVOL Deepwell_Z_offset v =
     (let SUPVOL1 = (if SUPVOL < 100 then 100 else SUPVOL);
          v1 = emits [SetFlowRate P1000 FlowAspirate (200 * (1 / 2)),
                      SetFlowRate P1000 FlowDispense (200 * (1 / 2)),
                      SetFlowRate P1000 FlowBlowOut (400 * (1 / 2))] v
      in and_then (labware_well PLATE COL) (\<lambda>well.
         let v2 = emits [MoveTo P1000 (Bottom well (Deepwell_Z_offset + 2)),
                         Aspirate P1000 (SUPVOL1 - 100) None 1,
                         DelayMinutes (if \<not> DRYRUN then 1 / 10 else 1 / 100),
                         MoveTo P1000 (Bottom well (Deepwell_Z_offset + 1)),
                         Aspirate P1000 100 None 1,
                         SetDefaultSpeed P1000 200,
                         MoveTo P1000 (Top well 2)] v1
         in and_then (dict_get (COUNTERS v2) ''WASTEVOL'') (\<lambda>waste.
            let v3 = v2\<lparr>COUNTERS := (COUNTERS v2)(''WASTEVOL'' \<mapsto> waste + SUPVOL1 * 8)\<rparr>;
                v4 = emit (Comment ''--->Adding'') v3
            in and_then (dict_get (COUNTERS v4) ''WASTEVOL'') (\<lambda>total.
               let v5 = (if total > 150000 then emit (Pause ''Please empty the waste'') v4 else v4)
               in Inr (emits [Dispense P1000 SUPVOL1 (Some (Top (Well WasteRes ''A1'') 0)) 1 None,
                              DelayMinutes (if \<not> DRYRUN then 1 / 20 else 1 / 100),
                              BlowOut P1000 None,
                              SetFlowRate P1000 FlowAspirate 200,
                              SetFlowRate P1000 FlowDispense 200,
                              SetFlowRate P1000 FlowBlowOut 400] v5)))))"






text \<open>
  Reading a trace: the volumes the pipette aspirates and dispenses, each with the place
  where it happens. A call without a location acts where the pipette is, which is where
  the last move or located call of that pipette put it.
\<close>

fun aspirated :: "pipette \<Rightarrow> place option \<Rightarrow> event list \<Rightarrow> (rat \<times> place option) list" where
  "aspirated p pos [] = []"
| "aspirated p pos (MoveTo q pl # es) = aspirated p (if q = p then Some pl else pos) es"
| "aspirated p pos (Aspirate q vol loc rate # es) =
     (if q = p
      then (case loc of
              None \<Rightarrow> (vol, pos) # aspirated p pos es
            | Some pl \<Rightarrow> (vol, Some pl) # aspirated p (Some pl) es)
      else aspirated p pos es)"
| "aspirated p pos (Dispense q vol loc rate push # es) =
     aspirated p (if q = p then (case loc of None \<Rightarrow> pos | Some pl \<Rightarrow> Some pl) else pos) es"
| "aspirated p pos (BlowOut q loc # es) =
     aspirated p (if q = p then (case loc of None \<Rightarrow> pos | Some pl \<Rightarrow> Some pl) else pos) es"
| "aspirated p pos (e # es) = aspirated p pos es"

fun dispensed :: "pipette \<Rightarrow> place option \<Rightarrow> event list \<Rightarrow> (rat \<times> place option) list" where
  "dispensed p pos [] = []"
| "dispensed p pos (MoveTo q pl # es) = dispensed p (if q = p then Some pl else pos) es"
| "dispensed p pos (Dispense q vol loc rate push # es) =
     (if q = p
      then (case loc of
              None \<Rightarrow> (vol, pos) # dispensed p pos es
            | Some pl \<Rightarrow> (vol, Some pl) # dispensed p (Some pl) es)
      else dispensed p pos es)"
| "dispensed p pos (Aspirate q vol loc rate # es) =
     dispensed p (if q = p then (case loc of None \<Rightarrow> pos | Some pl \<Rightarrow> Some pl) else pos) es"
| "dispensed p pos (BlowOut q loc # es) =
     dispensed p (if q = p then (case loc of None \<Rightarrow> pos | Some pl \<Rightarrow> Some pl) else pos) es"
| "dispensed p pos (e # es) = dispensed p pos es"

definition total_volume :: "(rat \<times> place option) list \<Rightarrow> rat" where
  "total_volume xs = sum_list (map fst xs)"

text \<open>The events a call appended to the trace.\<close>

definition new_events :: "'a robot_scheme \<Rightarrow> 'b robot_scheme \<Rightarrow> event list" where
  "new_events v v' = drop (length (events v)) (events v')"

definition v3_removeSup_events :: "labware \<Rightarrow> labware \<Rightarrow> string \<Rightarrow> rat \<Rightarrow> rat \<Rightarrow> rat \<Rightarrow> event list" where
  "v3_removeSup_events WasteRes PLATE COL vol Z tot =
     [SetFlowRate P1000 FlowAspirate 100,
      SetFlowRate P1000 FlowDispense 100,
      SetFlowRate P1000 FlowBlowOut 200,
      MoveTo P1000 (Bottom (Well PLATE COL) (Z + 2)),
      Aspirate P1000 (vol - 100) None 1,
      DelayMinutes (1 / 10),
      MoveTo P1000 (Bottom (Well PLATE COL) (Z + 1)),
      Aspirate P1000 100 None 1,
      SetDefaultSpeed P1000 200,
      MoveTo P1000 (Top (Well PLATE COL) 2),
      Comment ''--->Adding'']
     @ (if tot > 150000 then [Pause ''Please empty the waste''] else [])
     @ [Dispense P1000 vol (Some (Top (Well WasteRes ''A1'') 0)) 1 None,
        DelayMinutes (1 / 10),
        BlowOut P1000 None,
        SetDefaultSpeed P1000 400,
        MoveTo P1000 (Top (Well WasteRes ''A1'') (- 5)),
        MoveTo P1000 (Top (Well WasteRes ''A1'') 0),
        SetFlowRate P1000 FlowAspirate 200,
        SetFlowRate P1000 FlowDispense 200,
        SetFlowRate P1000 FlowBlowOut 400]"

definition shake_removeSup_events :: "bool \<Rightarrow> labware \<Rightarrow> labware \<Rightarrow> string \<Rightarrow> rat \<Rightarrow> rat \<Rightarrow> rat \<Rightarrow> event list" where
  "shake_removeSup_events DRYRUN WasteRes PLATE COL vol Z tot =
     [SetFlowRate P1000 FlowAspirate 100,
      SetFlowRate P1000 FlowDispense 100,
      SetFlowRate P1000 FlowBlowOut 200,
      MoveTo P1000 (Bottom (Well PLATE COL) (Z + 2)),
      Aspirate P1000 (vol - 100) None 1,
      DelayMinutes (if DRYRUN then 1 / 100 else 1 / 10),
      MoveTo P1000 (Bottom (Well PLATE COL) (Z + 1)),
      Aspirate P1000 100 None 1,
      SetDefaultSpeed P1000 200,
      MoveTo P1000 (Top (Well PLATE COL) 2),
      Comment ''--->Adding'']
     @ (if tot > 150000 then [Pause ''Please empty the waste''] else [])
     @ [Dispense P1000 vol (Some (Top (Well WasteRes ''A1'') 0)) 1 None,
        DelayMinutes (if DRYRUN then 1 / 100 else 1 / 20),
        BlowOut P1000 None,
        SetFlowRate P1000 FlowAspirate 200,
        SetFlowRate P1000 FlowDispense 200,
        SetFlowRate P1000 FlowBlowOut 400]"

lemma v3_removeSup_result:
  assumes "COL \<in> set wells_96" and "COUNTERS v ''WASTEVOL'' = Some w"
  shows "\<exists>v'. v3_removeSup WasteRes PLATE COL SUPVOL Z v = Inr v'
           \<and> events v' = events v
               @ v3_removeSup_events WasteRes PLATE COL (max SUPVOL 100) Z (w + max SUPVOL 100 * 8)
           \<and> COUNTERS v' = (COUNTERS v)(''WASTEVOL'' \<mapsto> w + max SUPVOL 100 * 8)
           \<and> TIPS_USED v' = TIPS_USED v \<and> ACTIVE_TIPRACKS v' = ACTIVE_TIPRACKS v
           \<and> BACKUP_TIPRACKS v' = BACKUP_TIPRACKS v"
  using assms
  by (simp add: v3_removeSup_def v3_removeSup_events_def labware_well_def dict_get_def
        emits_def emit_def Let_def max_def)

lemma shake_removeSup_result:
  assumes "COL \<in> set wells_96" and "COUNTERS v ''WASTEVOL'' = Some w"
  shows "\<exists>v'. shake_removeSup DRYRUN WasteRes PLATE COL SUPVOL Z v = Inr v'
           \<and> events v' = events v
               @ shake_removeSup_events DRYRUN WasteRes PLATE COL (max SUPVOL 100) Z
                   (w + max SUPVOL 100 * 8)
           \<and> COUNTERS v' = (COUNTERS v)(''WASTEVOL'' \<mapsto> w + max SUPVOL 100 * 8)
           \<and> TIPS_USED v' = TIPS_USED v \<and> ACTIVE_TIPRACKS v' = ACTIVE_TIPRACKS v
           \<and> BACKUP_TIPRACKS v' = BACKUP_TIPRACKS v"
  using assms
  by (simp add: shake_removeSup_def shake_removeSup_events_def labware_well_def dict_get_def
        emits_def emit_def Let_def max_def)



lemma aspirated_v3_events:
  "aspirated P1000 pos (v3_removeSup_events WasteRes PLATE COL vol Z tot)
     = [(vol - 100, Some (Bottom (Well PLATE COL) (Z + 2))),
        (100, Some (Bottom (Well PLATE COL) (Z + 1)))]"
  by (simp add: v3_removeSup_events_def)

lemma dispensed_v3_events:
  "dispensed P1000 pos (v3_removeSup_events WasteRes PLATE COL vol Z tot)
     = [(vol, Some (Top (Well WasteRes ''A1'') 0))]"
  by (simp add: v3_removeSup_events_def)

lemma aspirated_shake_events:
  "aspirated P1000 pos (shake_removeSup_events D WasteRes PLATE COL vol Z tot)
     = [(vol - 100, Some (Bottom (Well PLATE COL) (Z + 2))),
        (100, Some (Bottom (Well PLATE COL) (Z + 1)))]"
  by (simp add: shake_removeSup_events_def)

lemma dispensed_shake_events:
  "dispensed P1000 pos (shake_removeSup_events D WasteRes PLATE COL vol Z tot)
     = [(vol, Some (Top (Well WasteRes ''A1'') 0))]"
  by (simp add: shake_removeSup_events_def)







lemma new_events_append: "events v' = events v @ es \<Longrightarrow> new_events v v' = es"
  by (simp add: new_events_def)

lemma A1_in_wells_96: "''A1'' \<in> set wells_96"
proof -
  have "CHR ''A'' # str_nat 1 \<in> set wells_96"
    by (rule well_in_wells_96) simp_all
  then show ?thesis by (simp add: str_nat.simps digit_char_def)
qed



text \<open>
  C4. \<open>removeSup\<close> raises its volume to at least 100, then aspirates twice and dispenses
  once: the raised volume less 100 at \<open>Deepwell_Z_offset + 2\<close> above the bottom of the
  well, 100 at \<open>Deepwell_Z_offset + 1\<close> above it, and the whole raised volume at the top of
  well A1 of the waste reservoir. The volume aspirated in total and the volume dispensed
  in total both equal \<open>max(SUPVOL, 100)\<close>. This holds for the noShake v3 and the shake v1
  version, for every call whose column is a well of the plate.
\<close>

theorem removeSup_two_stage:
  "(COL \<in> set wells_96 \<and> COUNTERS v ''WASTEVOL'' = Some w \<longrightarrow>
      (\<exists>v'. v3_removeSup WasteRes PLATE COL SUPVOL Z v = Inr v'
          \<and> new_events v v'
              = v3_removeSup_events WasteRes PLATE COL (max SUPVOL 100) Z (w + max SUPVOL 100 * 8)
          \<and> aspirated P1000 pos (new_events v v')
              = [(max SUPVOL 100 - 100, Some (Bottom (Well PLATE COL) (Z + 2))),
                 (100, Some (Bottom (Well PLATE COL) (Z + 1)))]
          \<and> dispensed P1000 pos (new_events v v')
              = [(max SUPVOL 100, Some (Top (Well WasteRes ''A1'') 0))]
          \<and> total_volume (aspirated P1000 pos (new_events v v')) = max SUPVOL 100
          \<and> total_volume (dispensed P1000 pos (new_events v v')) = max SUPVOL 100))
   \<and> (COL \<in> set wells_96 \<and> COUNTERS u ''WASTEVOL'' = Some w \<longrightarrow>
      (\<exists>u'. shake_removeSup DRYRUN WasteRes PLATE COL SUPVOL Z u = Inr u'
          \<and> new_events u u'
              = shake_removeSup_events DRYRUN WasteRes PLATE COL (max SUPVOL 100) Z
                  (w + max SUPVOL 100 * 8)
          \<and> aspirated P1000 pos (new_events u u')
              = [(max SUPVOL 100 - 100, Some (Bottom (Well PLATE COL) (Z + 2))),
                 (100, Some (Bottom (Well PLATE COL) (Z + 1)))]
          \<and> dispensed P1000 pos (new_events u u')
              = [(max SUPVOL 100, Some (Top (Well WasteRes ''A1'') 0))]
          \<and> total_volume (aspirated P1000 pos (new_events u u')) = max SUPVOL 100
          \<and> total_volume (dispensed P1000 pos (new_events u u')) = max SUPVOL 100))"
proof (intro conjI impI)
  assume a: "COL \<in> set wells_96 \<and> COUNTERS v ''WASTEVOL'' = Some w"
  obtain v' where v': "v3_removeSup WasteRes PLATE COL SUPVOL Z v = Inr v'"
      "events v' = events v
         @ v3_removeSup_events WasteRes PLATE COL (max SUPVOL 100) Z (w + max SUPVOL 100 * 8)"
    using v3_removeSup_result [OF a [THEN conjunct1] a [THEN conjunct2]] by blast
  note n = new_events_append [OF v'(2)]
  show "\<exists>v'. v3_removeSup WasteRes PLATE COL SUPVOL Z v = Inr v'
          \<and> new_events v v'
              = v3_removeSup_events WasteRes PLATE COL (max SUPVOL 100) Z (w + max SUPVOL 100 * 8)
          \<and> aspirated P1000 pos (new_events v v')
              = [(max SUPVOL 100 - 100, Some (Bottom (Well PLATE COL) (Z + 2))),
                 (100, Some (Bottom (Well PLATE COL) (Z + 1)))]
          \<and> dispensed P1000 pos (new_events v v')
              = [(max SUPVOL 100, Some (Top (Well WasteRes ''A1'') 0))]
          \<and> total_volume (aspirated P1000 pos (new_events v v')) = max SUPVOL 100
          \<and> total_volume (dispensed P1000 pos (new_events v v')) = max SUPVOL 100"
    using v'(1) n
    by (auto simp: aspirated_v3_events dispensed_v3_events total_volume_def)
next
  assume a: "COL \<in> set wells_96 \<and> COUNTERS u ''WASTEVOL'' = Some w"
  obtain u' where u': "shake_removeSup DRYRUN WasteRes PLATE COL SUPVOL Z u = Inr u'"
      "events u' = events u
         @ shake_removeSup_events DRYRUN WasteRes PLATE COL (max SUPVOL 100) Z
             (w + max SUPVOL 100 * 8)"
    using shake_removeSup_result [OF a [THEN conjunct1] a [THEN conjunct2]] by blast
  note n = new_events_append [OF u'(2)]
  show "\<exists>u'. shake_removeSup DRYRUN WasteRes PLATE COL SUPVOL Z u = Inr u'
          \<and> new_events u u'
              = shake_removeSup_events DRYRUN WasteRes PLATE COL (max SUPVOL 100) Z
                  (w + max SUPVOL 100 * 8)
          \<and> aspirated P1000 pos (new_events u u')
              = [(max SUPVOL 100 - 100, Some (Bottom (Well PLATE COL) (Z + 2))),
                 (100, Some (Bottom (Well PLATE COL) (Z + 1)))]
          \<and> dispensed P1000 pos (new_events u u')
              = [(max SUPVOL 100, Some (Top (Well WasteRes ''A1'') 0))]
          \<and> total_volume (aspirated P1000 pos (new_events u u')) = max SUPVOL 100
          \<and> total_volume (dispensed P1000 pos (new_events u u')) = max SUPVOL 100"
    using u'(1) n
    by (auto simp: aspirated_shake_events dispensed_shake_events total_volume_def)
qed

theorem removeSup_two_stage_witness:
  "\<exists>v'. v3_removeSup (Labware 9 ''nest_1_reservoir_290ml'') (Labware 5 ''nest_96_wellplate_2ml_deep'')
            ''A1'' 925 20 (v3_tip_setup fresh_robot) = Inr v'
        \<and> aspirated P1000 None (new_events (v3_tip_setup fresh_robot) v')
            = [(825, Some (Bottom (Well (Labware 5 ''nest_96_wellplate_2ml_deep'') ''A1'') 22)),
               (100, Some (Bottom (Well (Labware 5 ''nest_96_wellplate_2ml_deep'') ''A1'') 21))]
        \<and> dispensed P1000 None (new_events (v3_tip_setup fresh_robot) v')
            = [(925, Some (Top (Well (Labware 9 ''nest_1_reservoir_290ml'') ''A1'') 0))]"
proof -
  let ?v = "v3_tip_setup fresh_robot"
  have z: "COUNTERS ?v ''WASTEVOL'' = Some 0"
    by (simp add: v3_tip_setup_fields(6))
  show ?thesis
    using removeSup_two_stage [where COL = "''A1''" and v = ?v and w = 0
            and WasteRes = "Labware 9 ''nest_1_reservoir_290ml''"
            and PLATE = "Labware 5 ''nest_96_wellplate_2ml_deep''"
            and SUPVOL = 925 and Z = 20 and pos = None, THEN conjunct1] A1_in_wells_96 z
    by auto
qed

section \<open>noShake v3: the Rebind step\<close>

text \<open>A list comprehension whose body may raise.\<close>

fun collect :: "('a \<Rightarrow> py_error + 'b) \<Rightarrow> 'a list \<Rightarrow> py_error + 'b list" where
  "collect f [] = Inr []"
| "collect f (x # xs) = and_then (f x) (\<lambda>y. and_then (collect f xs) (\<lambda>ys. Inr (y # ys)))"

text \<open>Lines 204 to 211 and line 232 of the noShake v3 script.\<close>

definition binding_buffer_column :: "int \<Rightarrow> py_error + int list" where
  "binding_buffer_column N_SAMPLECOLS =
     (if N_SAMPLECOLS \<le> 4 then Inr [3]
      else if N_SAMPLECOLS > 4 \<and> N_SAMPLECOLS \<le> 8 then Inr [3, 4]
      else if N_SAMPLECOLS > 8 \<and> N_SAMPLECOLS \<le> 12 then Inr [3, 4, 5]
      else Inl (ValueError ''Unsupported number of samples''))"

definition SAMPLECOLS :: "int \<Rightarrow> py_error + string list" where
  "SAMPLECOLS N_SAMPLECOLS = collect (item COLUMN_1_LIST) (map int [0..<nat N_SAMPLECOLS])"

text \<open>
  The keys of \<open>BindingBuffer_cols\<close>, in the order of insertion: \<open>str(i)\<close> for each column
  of \<open>binding_buffer_column\<close> (line 213).
\<close>

definition BindingBuffer_keys :: "int list \<Rightarrow> string list" where
  "BindingBuffer_keys columns = map str_int columns"

text \<open>The body of the inner loop, lines 438 to 455, for one sample column \<open>Y\<close>.\<close>

definition rebind_transfer :: "rat \<Rightarrow> well \<Rightarrow> labware \<Rightarrow> string \<Rightarrow> 'a robot_scheme \<Rightarrow> py_error + 'a robot_scheme" where
  "rebind_transfer REBINDVOL source_well SamplePlate Y v =
     (let v1 = emits [Aspirate P1000 REBINDVOL (Some (Bottom source_well 1)) 1,
                      AirGap P1000 20,
                      MoveTo P1000 (Top source_well 0),
                      MoveTo P1000 (Top source_well (- 5)),
                      MoveTo P1000 (Top source_well 0),
                      SetDefaultSpeed P1000 100,
                      MoveTo P1000 (TopMove source_well 4 (- 3)),
                      MoveTo P1000 (TopMove source_well (- 4) (- 3)),
                      SetDefaultSpeed P1000 400] v
      in and_then (labware_well SamplePlate Y) (\<lambda>dest.
         Inr (emits [MoveTo P1000 (Top dest 7),
                     Dispense P1000 (REBINDVOL + 20) None 1 None,
                     DelayMinutes (1 / 10),
                     MoveTo P1000 (Top dest 5),
                     MoveTo P1000 (Top dest 2),
                     MoveTo P1000 (Top dest 5),
                     AirGap P1000 20] v1)))"

fun rebind_inner :: "rat \<Rightarrow> well \<Rightarrow> labware \<Rightarrow> string list \<Rightarrow> 'a robot_scheme \<Rightarrow> py_error + 'a robot_scheme" where
  "rebind_inner REBINDVOL source_well SamplePlate [] v = Inr v"
| "rebind_inner REBINDVOL source_well SamplePlate (Y # Ys) v =
     and_then (rebind_transfer REBINDVOL source_well SamplePlate Y v)
       (rebind_inner REBINDVOL source_well SamplePlate Ys)"

text \<open>
  The outer loop, lines 433 to 437, over \<open>enumerate(BindingBuffer_cols.keys())\<close>; the
  inner loop runs over the slice \<open>SAMPLECOLS[i*4:i*4+3]\<close>.
\<close>

fun rebind_outer :: "rat \<Rightarrow> labware \<Rightarrow> labware \<Rightarrow> string list \<Rightarrow> (nat \<times> string) list \<Rightarrow> 'a robot_scheme \<Rightarrow> py_error + 'a robot_scheme" where
  "rebind_outer REBINDVOL ReagentPlate SamplePlate scols [] v = Inr v"
| "rebind_outer REBINDVOL ReagentPlate SamplePlate scols ((i, X) # rest) v =
     and_then (labware_well ReagentPlate (''A'' @ X)) (\<lambda>source_well.
     and_then (rebind_inner REBINDVOL source_well SamplePlate
                 (slice scols (int i * 4) (int i * 4 + 3)) v)
       (rebind_outer REBINDVOL ReagentPlate SamplePlate scols rest))"

text \<open>
  The distribution loop of the Rebind step for a given number of sample columns: the
  source columns and the sample columns as the set-up computes them, then the loops.
\<close>

definition rebind_loop :: "int \<Rightarrow> rat \<Rightarrow> labware \<Rightarrow> labware \<Rightarrow> 'a robot_scheme \<Rightarrow> py_error + 'a robot_scheme" where
  "rebind_loop N_SAMPLECOLS REBINDVOL ReagentPlate SamplePlate v =
     and_then (binding_buffer_column N_SAMPLECOLS) (\<lambda>columns.
     and_then (SAMPLECOLS N_SAMPLECOLS) (\<lambda>scols.
     rebind_outer REBINDVOL ReagentPlate SamplePlate scols
       (enumerate 0 (BindingBuffer_keys columns)) v))"

text \<open>The places at which the loop dispenses, read off the trace of a run on a fresh robot.\<close>

definition rebind_dispenses :: "int \<Rightarrow> rat \<Rightarrow> labware \<Rightarrow> labware \<Rightarrow> (rat \<times> place option) list option" where
  "rebind_dispenses N_SAMPLECOLS REBINDVOL ReagentPlate SamplePlate =
     (case rebind_loop N_SAMPLECOLS REBINDVOL ReagentPlate SamplePlate fresh_robot of
        Inl e \<Rightarrow> None
      | Inr v \<Rightarrow> Some (dispensed P1000 None (events v)))"

definition rebind_aspirations :: "int \<Rightarrow> rat \<Rightarrow> labware \<Rightarrow> labware \<Rightarrow> (rat \<times> place option) list option" where
  "rebind_aspirations N_SAMPLECOLS REBINDVOL ReagentPlate SamplePlate =
     (case rebind_loop N_SAMPLECOLS REBINDVOL ReagentPlate SamplePlate fresh_robot of
        Inl e \<Rightarrow> None
      | Inr v \<Rightarrow> Some (aspirated P1000 None (events v)))"

lemma wells_A1_to_A4:
  "''A1'' \<in> set wells_96" "''A2'' \<in> set wells_96" "''A3'' \<in> set wells_96" "''A4'' \<in> set wells_96"
proof -
  have "CHR ''A'' # str_nat 1 \<in> set wells_96" "CHR ''A'' # str_nat 2 \<in> set wells_96"
       "CHR ''A'' # str_nat 3 \<in> set wells_96" "CHR ''A'' # str_nat 4 \<in> set wells_96"
    by (rule well_in_wells_96; simp)+
  then show "''A1'' \<in> set wells_96" "''A2'' \<in> set wells_96" "''A3'' \<in> set wells_96"
      "''A4'' \<in> set wells_96"
    by (simp_all add: str_nat.simps digit_char_def)
qed

lemma SAMPLECOLS_4: "SAMPLECOLS 4 = Inr [''A1'', ''A2'', ''A3'', ''A4'']"
proof -
  have "[0..<nat 4] = [0, 1, 2, 3]" by (simp add: upt_rec)
  then show ?thesis by (simp add: SAMPLECOLS_def item_def COLUMN_1_LIST_def)
qed

text \<open>
  C3 does not hold of the code. With four sample columns the loop draws from source column
  3 only, as the claim says, but the slice \<open>SAMPLECOLS[i*4:i*4+3]\<close> holds three columns,
  not four: the loop dispenses into A1, A2 and A3 and never into A4.
\<close>

theorem rebind_skips_fourth_column:
  "SAMPLECOLS 4 = Inr [''A1'', ''A2'', ''A3'', ''A4'']
   \<and> rebind_dispenses 4 500 (Labware 4 ''nest_96_wellplate_2ml_deep'')
        (Labware 0 ''nest_96_wellplate_2ml_deep'')
       = Some [(520, Some (Top (Well (Labware 0 ''nest_96_wellplate_2ml_deep'') ''A1'') 7)),
               (520, Some (Top (Well (Labware 0 ''nest_96_wellplate_2ml_deep'') ''A2'') 7)),
               (520, Some (Top (Well (Labware 0 ''nest_96_wellplate_2ml_deep'') ''A3'') 7))]
   \<and> rebind_aspirations 4 500 (Labware 4 ''nest_96_wellplate_2ml_deep'')
        (Labware 0 ''nest_96_wellplate_2ml_deep'')
       = Some [(500, Some (Bottom (Well (Labware 4 ''nest_96_wellplate_2ml_deep'') ''A3'') 1)),
               (500, Some (Bottom (Well (Labware 4 ''nest_96_wellplate_2ml_deep'') ''A3'') 1)),
               (500, Some (Bottom (Well (Labware 4 ''nest_96_wellplate_2ml_deep'') ''A3'') 1))]"
proof -
  have k: "BindingBuffer_keys [3] = [''3'']"
    by (simp add: BindingBuffer_keys_def str_int_def str_nat.simps digit_char_def)
  have s: "slice [''A1'', ''A2'', ''A3'', ''A4''] 0 3 = [''A1'', ''A2'', ''A3'']"
    by (simp add: slice_def py_index_def)
  have w: "labware_well lw ''A1'' = Inr (Well lw ''A1'')" "labware_well lw ''A2'' = Inr (Well lw ''A2'')"
      "labware_well lw ''A3'' = Inr (Well lw ''A3'')" for lw
    using wells_A1_to_A4 by (simp_all add: labware_well_def)
  show ?thesis
    by (simp add: SAMPLECOLS_4 rebind_dispenses_def rebind_aspirations_def rebind_loop_def
          binding_buffer_column_def k s w rebind_transfer_def emits_def fresh_robot_def)
qed

section \<open>UltraExpress part 1: well_to_list\<close>

subsection \<open>State and environment\<close>

text \<open>
  On top of the tip variables, the attributes of the pipettes that the script reads and
  writes (\<open>default_speed\<close>, \<open>flow_rate.blow_out\<close>), and the SDK's own count of the 50 ul
  tips left, which decides whether \<open>p50m.pick_up_tip()\<close> raises \<open>OutOfTipsError\<close>;
  \<open>reset_tipracks\<close> sets the count back to \<open>tips_reset_50\<close>.
\<close>

record proto = tip_vars +
  default_speed :: "pipette \<Rightarrow> rat"
  blow_out_rate :: "pipette \<Rightarrow> rat"
  tips_left_50 :: nat
  tips_reset_50 :: nat

text \<open>
  What the nested functions read from \<open>run\<close> and from the labware definitions: the
  run-time parameters \<open>DRY_WATER_RUN\<close> and \<open>sample_rate\<close>, the tip plan, the literal of
  \<open>pick_up_200\<close>, the volume of a tip of the first rack of each pipette
  (\<open>pip.tip_racks[0].wells()[0].max_volume\<close>) and the depth of a well (\<open>d.depth\<close>).
\<close>

record env =
  DRY_WATER_RUN :: bool
  sample_rate :: rat
  plan_200 :: tip_plan
  chute_at :: int
  tip_max_volume :: "pipette \<Rightarrow> rat"
  well_depth :: "well \<Rightarrow> rat"

text \<open>
  \<open>pip.has_tip\<close>: the pipette holds a tip after a pick-up and none after a drop or a
  return, and none at the start.
\<close>

fun holds_tip :: "pipette \<Rightarrow> bool \<Rightarrow> event list \<Rightarrow> bool" where
  "holds_tip p h [] = h"
| "holds_tip p h (PickUpTip q w # es) = holds_tip p (if q = p then True else h) es"
| "holds_tip p h (DropTip q t # es) = holds_tip p (if q = p then False else h) es"
| "holds_tip p h (DropTipInto q w # es) = holds_tip p (if q = p then False else h) es"
| "holds_tip p h (ReturnTip q # es) = holds_tip p (if q = p then False else h) es"
| "holds_tip p h (e # es) = holds_tip p h es"

definition has_tip :: "pipette \<Rightarrow> 'a robot_scheme \<Rightarrow> bool" where
  "has_tip p v = holds_tip p False (events v)"

subsection \<open>The basic functions\<close>

text \<open>\<open>pick_up_50\<close>, lines 598 to 604.\<close>

definition pick_up_50 :: "'a proto_scheme \<Rightarrow> py_error + 'a proto_scheme" where
  "pick_up_50 v =
     (if 0 < tips_left_50 v
      then Inr ((emit (PickUpTip P50 None) v)\<lparr>tips_left_50 := tips_left_50 v - 1\<rparr>)
      else (let v1 = pause_attention ''Replace empty tipracks before resuming.'' False v;
                v2 = (emit (ResetTipracks P50) v1)\<lparr>tips_left_50 := tips_reset_50 v1\<rparr>
            in if 0 < tips_left_50 v2
               then Inr ((emit (PickUpTip P50 None) v2)\<lparr>tips_left_50 := tips_left_50 v2 - 1\<rparr>)
               else Inl OutOfTipsError))"

text \<open>\<open>tip_disposal\<close>, lines 606 to 610.\<close>

definition tip_disposal :: "env \<Rightarrow> pipette \<Rightarrow> 'a proto_scheme \<Rightarrow> 'a proto_scheme" where
  "tip_disposal en pip v =
     (if DRY_WATER_RUN en then emit (ReturnTip pip) v
      else if has_tip pip v then emit (DropTip pip (Some Chute)) v
      else v)"

text \<open>\<open>slow_withdraw\<close>, lines 612 to 617.\<close>

definition slow_withdraw :: "pipette \<Rightarrow> well \<Rightarrow> rat \<Rightarrow> rat \<Rightarrow> 'a proto_scheme \<Rightarrow> 'a proto_scheme" where
  "slow_withdraw pip w z delay_seconds v =
     (let s1 = default_speed v pip / 40;
          v1 = (emit (SetDefaultSpeed pip s1) v)\<lparr>default_speed := (default_speed v)(pip := s1)\<rparr>;
          v2 = (if delay_seconds > 0 then emit (DelaySeconds delay_seconds) v1 else v1);
          v3 = emit (MoveTo pip (Top w z)) v2;
          s2 = default_speed v3 pip * 40
      in (emit (SetDefaultSpeed pip s2) v3)\<lparr>default_speed := (default_speed v3)(pip := s2)\<rparr>)"

text \<open>
  \<open>custom_mix\<close>, lines 624 to 654. \<open>low\<close> and \<open>high\<close> are \<open>False\<close> (here \<open>None\<close>) or a
  height, and a height of 0 counts as \<open>False\<close>; the mixing volume is the middle one of
  three numbers. \<open>mix_pair\<close> is one pass of the mixing loop.
\<close>

definition mix_height :: "rat option \<Rightarrow> rat \<Rightarrow> rat" where
  "mix_height given dflt = (case given of None \<Rightarrow> dflt | Some h \<Rightarrow> if h \<noteq> 0 then h else dflt)"

definition middle_of_three :: "rat \<Rightarrow> rat \<Rightarrow> rat \<Rightarrow> rat" where
  "middle_of_three a b c = sort [a, b, c] ! 1"

definition mix_vol :: "env \<Rightarrow> pipette \<Rightarrow> rat \<Rightarrow> rat" where
  "mix_vol en pip mvol =
     (let a = (if pip = P50 then 2 else 5);
          b = (8 / 10) * tip_max_volume en pip;
          c = mvol
      in middle_of_three a b c)"

definition mix_pair :: "env \<Rightarrow> pipette \<Rightarrow> rat \<Rightarrow> well \<Rightarrow> rat option \<Rightarrow> rat option \<Rightarrow> event list" where
  "mix_pair en pip mvol mix_loc low high =
     (let asp = Bottom mix_loc (mix_height low (3 / 2));
          disp = Bottom mix_loc (mix_height high (5 / 2));
          vol = mix_vol en pip mvol
      in [Aspirate pip vol (Some asp) (sample_rate en), Dispense pip vol (Some disp) 1 (Some 0)])"

definition custom_mix :: "env \<Rightarrow> pipette \<Rightarrow> rat \<Rightarrow> well \<Rightarrow> int \<Rightarrow> bool \<Rightarrow> rat option \<Rightarrow> rat option \<Rightarrow> 'a proto_scheme \<Rightarrow> 'a proto_scheme" where
  "custom_mix en pip mvol mix_loc mix_rep blowout low high v =
     (let v1 = emits (concat (replicate (nat mix_rep) (mix_pair en pip mvol mix_loc low high))) v
      in if blowout
         then (let b1 = blow_out_rate v1 pip / 5;
                   v2 = (emit (SetFlowRate pip FlowBlowOut b1) v1)
                          \<lparr>blow_out_rate := (blow_out_rate v1)(pip := b1)\<rparr>;
                   v3 = slow_withdraw pip mix_loc (- 3) 1 v2;
                   v4 = emit (BlowOut pip (Some (Top mix_loc (- 3)))) v3;
                   v5 = emit (TouchTip pip (3 / 4) (- 3) 10) v4;
                   b2 = blow_out_rate v5 pip * 5
               in (emit (SetFlowRate pip FlowBlowOut b2) v5)
                    \<lparr>blow_out_rate := (blow_out_rate v5)(pip := b2)\<rparr>)
         else v1)"

subsection \<open>well_to_list\<close>

text \<open>
  Lines 680 to 727. The arguments that stay the same through the loop are collected in a
  record (\<open>source\<close> is the parameter \<open>well\<close>); \<open>post_mix_vol\<close> is assigned inside the
  loop and is threaded through it; \<open>index\<close> only enters the text of the comment. The
  body of the loop is \<open>w2l_body\<close>: the comment and the tip pick-up, which may raise, then
  \<open>w2l_transfer\<close>, the rest of the body.
\<close>

text \<open>A statement under a condition: \<open>if c: f()\<close>.\<close>

definition if_then :: "bool \<Rightarrow> ('s \<Rightarrow> 's) \<Rightarrow> 's \<Rightarrow> 's" where
  "if_then c f v = (if c then f v else v)"

record w2l_args =
  pip :: pipette
  source :: well
  transfer_vol :: rat
  liquid_rate :: rat
  z_height :: rat
  pre_mix :: bool
  post_mix :: bool
  post_mix_rep :: int
  tip_withdrawal :: bool
  change_tip :: bool

definition low_volume :: "w2l_args \<Rightarrow> bool" where
  "low_volume a = (pip a = P50 \<and> 1 \<le> transfer_vol a \<and> transfer_vol a \<le> 5)"

definition next_post_mix_vol :: "w2l_args \<Rightarrow> rat \<Rightarrow> rat" where
  "next_post_mix_vol a post_mix_vol =
     (if post_mix a \<and> low_volume a
      then (if post_mix_vol > 25 then 25 else post_mix_vol)
      else post_mix_vol)"

definition w2l_transfer :: "env \<Rightarrow> w2l_args \<Rightarrow> rat \<Rightarrow> well \<Rightarrow> 'a proto_scheme \<Rightarrow> 'a proto_scheme" where
  "w2l_transfer en a post_mix_vol d v1 =
     (let v2 = if_then (pre_mix a)
                 (custom_mix en (pip a) (transfer_vol a) (source a) 6 False None None) v1;
          v3 = if_then (low_volume a) (emit (ConfigureForVolume (pip a) (transfer_vol a))) v2;
          v4 = emit (Aspirate (pip a) (transfer_vol a) (Some (At (source a))) (liquid_rate a)) v3;
          v5 = emit (Dispense (pip a) (transfer_vol a) (Some (Bottom d (z_height a)))
                       (liquid_rate a) None) v4;
          pmv = next_post_mix_vol a post_mix_vol;
          v6 = if_then (post_mix a)
                 (custom_mix en (pip a) pmv d (post_mix_rep a) False
                    (if pmv \<le> 10 then Some 1 else None) (if pmv \<le> 10 then Some 1 else None)) v5;
          v7 = if_then (tip_withdrawal a) (slow_withdraw (pip a) d (- 3) 0) v6;
          v8 = if_then (low_volume a) (emit (ConfigureForVolume (pip a) 50)) v7;
          v9 = if_then (z_height a < (1 / 2) * well_depth en d)
                 (emit (BlowOut (pip a) (Some (Top d (- 3))))) v8
      in if_then (change_tip a) (tip_disposal en (pip a)) v9)"

definition w2l_body :: "env \<Rightarrow> w2l_args \<Rightarrow> rat \<Rightarrow> well \<Rightarrow> 'a proto_scheme \<Rightarrow> py_error + 'a proto_scheme" where
  "w2l_body en a post_mix_vol d v =
     (let v0 = emit (Comment ''---Column x'') v in
      and_then
        (if change_tip a
         then (if pip a = P1000 then pick_up_200 (chute_at en) (plan_200 en) v0 else pick_up_50 v0)
         else Inr v0)
        (\<lambda>v1. Inr (w2l_transfer en a post_mix_vol d v1)))"

fun well_to_list :: "env \<Rightarrow> w2l_args \<Rightarrow> rat \<Rightarrow> well list \<Rightarrow> 'a proto_scheme \<Rightarrow> py_error + 'a proto_scheme" where
  "well_to_list en a post_mix_vol [] v = Inr v"
| "well_to_list en a post_mix_vol (d # ds) v =
     and_then (w2l_body en a post_mix_vol d v)
       (well_to_list en a (next_post_mix_vol a post_mix_vol) ds)"

subsection \<open>Reading the liquid out of a trace\<close>

fun is_liquid :: "event \<Rightarrow> bool" where
  "is_liquid (Aspirate p vol loc rate) = True"
| "is_liquid (Dispense p vol loc rate push) = True"
| "is_liquid e = False"

definition liquid :: "event list \<Rightarrow> event list" where
  "liquid es = filter is_liquid es"

text \<open>The well a place belongs to.\<close>

fun place_well :: "place \<Rightarrow> well" where
  "place_well (At w) = w"
| "place_well (Bottom w z) = w"
| "place_well (Top w z) = w"
| "place_well (TopMove w x z) = w"
| "place_well (BottomMove w z) = w"

text \<open>
  The volume a pipette takes out of a well over a trace: what it aspirates there less
  what it dispenses there.
\<close>

fun drawn :: "pipette \<Rightarrow> well \<Rightarrow> event \<Rightarrow> rat" where
  "drawn p w (Aspirate q vol (Some pl) rate) = (if q = p \<and> place_well pl = w then vol else 0)"
| "drawn p w (Dispense q vol (Some pl) rate push) = (if q = p \<and> place_well pl = w then - vol else 0)"
| "drawn p w e = 0"

definition net_drawn :: "pipette \<Rightarrow> well \<Rightarrow> event list \<Rightarrow> rat" where
  "net_drawn p w es = sum_list (map (drawn p w) es)"

text \<open>The aspirate calls of a pipette at a given place, in order, by volume.\<close>

fun aspirate_at :: "pipette \<Rightarrow> place \<Rightarrow> event \<Rightarrow> rat option" where
  "aspirate_at p pl (Aspirate q vol loc rate) = (if q = p \<and> loc = Some pl then Some vol else None)"
| "aspirate_at p pl e = None"

definition aspirates_at :: "pipette \<Rightarrow> place \<Rightarrow> event list \<Rightarrow> rat list" where
  "aspirates_at p pl es = List.map_filter (aspirate_at p pl) es"

text \<open>The liquid events of one pass of the loop, for destination \<open>d\<close>.\<close>

definition w2l_liquid :: "env \<Rightarrow> w2l_args \<Rightarrow> rat \<Rightarrow> well \<Rightarrow> event list" where
  "w2l_liquid en a post_mix_vol d =
     (if pre_mix a
      then concat (replicate 6 (mix_pair en (pip a) (transfer_vol a) (source a) None None))
      else [])
     @ [Aspirate (pip a) (transfer_vol a) (Some (At (source a))) (liquid_rate a),
        Dispense (pip a) (transfer_vol a) (Some (Bottom d (z_height a))) (liquid_rate a) None]
     @ (if post_mix a
        then concat (replicate (nat (post_mix_rep a))
               (mix_pair en (pip a) (next_post_mix_vol a post_mix_vol) d
                  (if next_post_mix_vol a post_mix_vol \<le> 10 then Some 1 else None)
                  (if next_post_mix_vol a post_mix_vol \<le> 10 then Some 1 else None)))
        else [])"

subsection \<open>What each function adds to the liquid events\<close>

lemma liquid_append [simp]: "liquid (xs @ ys) = liquid xs @ liquid ys"
  by (simp add: liquid_def)

lemma liquid_Nil [simp]: "liquid [] = []"
  by (simp add: liquid_def)

lemma liquid_mix_pair [simp]: "liquid (mix_pair en p mvol loc low high) = mix_pair en p mvol loc low high"
  by (simp add: liquid_def mix_pair_def Let_def)

lemma liquid_mix_pairs [simp]:
  "liquid (concat (replicate n (mix_pair en p mvol loc low high)))
     = concat (replicate n (mix_pair en p mvol loc low high))"
  by (induction n) simp_all

lemma liquid_pause_attention [simp]:
  "liquid (events (pause_attention msg flash v)) = liquid (events v)"
  by (simp add: pause_attention_def emits_def emit_def liquid_def Let_def)

lemma liquid_load_racks:
  "load_racks name slots v = (lws, v') \<Longrightarrow> liquid (events v') = liquid (events v)"
proof (induction slots arbitrary: v lws v')
  case Nil
  then show ?case by simp
next
  case (Cons s slots)
  obtain lw v1 where a: "load_labware name s v = (lw, v1)"
    by (cases "load_labware name s v") blast
  obtain ls v2 where b: "load_racks name slots v1 = (ls, v2)"
    by (cases "load_racks name slots v1") blast
  have c: "v' = v2" using Cons.prems a b by simp
  have d: "liquid (events v1) = liquid (events v)"
    using a by (auto simp: load_labware_def emit_def Let_def liquid_def)
  show ?case using Cons.IH [OF b] c d by simp
qed

lemma liquid_fold_deldeck [simp]:
  "liquid (events (fold (\<lambda>a. emit (DelDeck a)) xs v)) = liquid (events v)"
  by (induction xs arbitrary: v) (simp_all add: emit_def liquid_def)

lemma liquid_replace_all_racks [simp]:
  "liquid (events (replace_all_racks pl v)) = liquid (events v)"
proof -
  let ?n = "''opentrons_flex_96_filtertiprack_200ul''"
  let ?v1 = "pause_attention ''Replace empty 200ul filter tips'' False v"
  let ?v2 = "?v1\<lparr>tiporder_200 := []\<rparr>"
  let ?v3 = "fold (\<lambda>a. emit (DelDeck a)) (slots_200 pl) ?v2"
  let ?v4 = "fold (\<lambda>c. emit (DelDeck c)) (expansion_slots pl) ?v3"
  obtain t200 v5 where l1: "load_racks ?n (map Slot (slots_200 pl)) ?v4 = (t200, v5)"
    by (cases "load_racks ?n (map Slot (slots_200 pl)) ?v4") blast
  let ?v6 = "v5\<lparr>tips200 := t200\<rparr>"
  let ?v7 = "?v6\<lparr>tiporder_200 := fold (\<lambda>lw order. order @ row_A lw) (tips200 ?v6) (tiporder_200 ?v6)\<rparr>"
  obtain t200x v8 where l2: "load_racks ?n (map Slot (slots_200_extra pl)) ?v7 = (t200x, v8)"
    by (cases "load_racks ?n (map Slot (slots_200_extra pl)) ?v7") blast
  have r: "replace_all_racks pl v = v8\<lparr>tips200_extra := t200x\<rparr>"
    using l1 l2 by (simp add: replace_all_racks_def Let_def)
  have "liquid (events v8) = liquid (events ?v7)" by (rule liquid_load_racks [OF l2])
  also have "\<dots> = liquid (events v5)" by simp
  also have "\<dots> = liquid (events ?v4)" by (rule liquid_load_racks [OF l1])
  also have "\<dots> = liquid (events v)" by simp
  finally show ?thesis unfolding r by simp
qed

lemma liquid_move_in:
  "move_in pl bs v = Inr v' \<Longrightarrow> liquid (events v') = liquid (events v)"
proof (induction bs arbitrary: v)
  case Nil
  then show ?case by simp
next
  case (Cons b bs)
  from Cons.prems obtain u where u: "move_in pl bs u = Inr v'" "liquid (events u) = liquid (events v)"
    by (auto simp: and_then_def Let_def emit_def liquid_def split: sum.splits if_splits)
  show ?case using Cons.IH [OF u(1)] u(2) by simp
qed

lemma liquid_move_in_extra_racks:
  "move_in_extra_racks K pl v = Inr v' \<Longrightarrow> liquid (events v') = liquid (events v)"
proof -
  assume a: "move_in_extra_racks K pl v = Inr v'"
  then obtain u u' where u: "move_in pl (map int [0..<length (slots_200_extra pl)]) u = Inr u'"
      "liquid (events u) = liquid (events v)" "v' = u'\<lparr>tips200_extra := []\<rparr>"
    by (auto simp: move_in_extra_racks_def and_then_def Let_def emit_def liquid_def
          split: sum.splits if_splits)
  show ?thesis using liquid_move_in [OF u(1)] u(2,3) by simp
qed

lemma liquid_pick_up_200:
  assumes "pick_up_200 K pl v = Inr v'"
  shows "liquid (events v') = liquid (events v)"
proof -
  let ?pre = "if tip_count_200 v = int (length (tiporder_200 v))
        then and_then
               (if length (tips200_extra v) = 0 then Inr (replace_all_racks pl v)
                else move_in_extra_racks K pl v)
               (\<lambda>v1. Inr (v1\<lparr>tip_count_200 := 0\<rparr>))
        else Inr v"
  obtain v2 where pre: "?pre = Inr v2"
    using assms by (cases ?pre) (simp_all add: pick_up_200_def)
  have tail: "and_then (item (tiporder_200 v2) (tip_count_200 v2)) (\<lambda>w.
     let v3 = emit (PickUpTip P1000 (Some w)) v2
     in Inr (v3\<lparr>tip_count_200 := tip_count_200 v3 + 1\<rparr>)) = Inr v'"
    using assms pre by (simp add: pick_up_200_def)
  have l2: "liquid (events v') = liquid (events v2)"
    using tail by (auto simp: and_then_def Let_def emit_def liquid_def split: sum.splits)
  have l1: "liquid (events v2) = liquid (events v)"
  proof (cases "tip_count_200 v = int (length (tiporder_200 v))")
    case False
    then show ?thesis using pre by simp
  next
    case True
    show ?thesis
    proof (cases "length (tips200_extra v) = 0")
      case e: True
      then have "v2 = (replace_all_racks pl v)\<lparr>tip_count_200 := 0\<rparr>"
        using pre True by simp
      then show ?thesis by simp
    next
      case e: False
      then obtain u where u: "move_in_extra_racks K pl v = Inr u" "v2 = u\<lparr>tip_count_200 := 0\<rparr>"
        using pre True by (cases "move_in_extra_racks K pl v") auto
      show ?thesis using liquid_move_in_extra_racks [OF u(1)] u(2) by simp
    qed
  qed
  show ?thesis using l1 l2 by simp
qed

lemma liquid_pick_up_50:
  "pick_up_50 v = Inr v' \<Longrightarrow> liquid (events v') = liquid (events v)"
  by (auto simp: pick_up_50_def Let_def emit_def liquid_def pause_attention_def
        split: if_splits)

lemma liquid_tip_disposal [simp]: "liquid (events (tip_disposal en p v)) = liquid (events v)"
  by (simp add: tip_disposal_def emit_def liquid_def)

lemma liquid_slow_withdraw [simp]: "liquid (events (slow_withdraw p w z t v)) = liquid (events v)"
  by (simp add: slow_withdraw_def emit_def liquid_def Let_def)

lemma liquid_custom_mix [simp]:
  "liquid (events (custom_mix en p mvol loc n blowout low high v))
     = liquid (events v) @ concat (replicate (nat n) (mix_pair en p mvol loc low high))"
proof -
  let ?v1 = "emits (concat (replicate (nat n) (mix_pair en p mvol loc low high))) v"
  have a: "liquid (events ?v1)
             = liquid (events v) @ concat (replicate (nat n) (mix_pair en p mvol loc low high))"
    by (simp add: emits_def)
  show ?thesis
  proof (cases blowout)
    case False
    then show ?thesis using a by (simp add: custom_mix_def Let_def)
  next
    case True
    then show ?thesis
      using a by (simp add: custom_mix_def Let_def emit_def, simp add: liquid_def)
  qed
qed

lemma liquid_emit: "liquid (events (emit e v)) = liquid (events v) @ liquid [e]"
  by (simp add: emit_def)

lemma liquid_if_then_emit:
  "\<not> is_liquid e \<Longrightarrow> liquid (events (if_then c (emit e) v)) = liquid (events v)"
  by (simp add: if_then_def emit_def liquid_def)

lemma liquid_if_then_slow_withdraw [simp]:
  "liquid (events (if_then c (slow_withdraw p w z t) v)) = liquid (events v)"
  by (simp add: if_then_def)

lemma liquid_if_then_tip_disposal [simp]:
  "liquid (events (if_then c (tip_disposal en p) v)) = liquid (events v)"
  by (simp add: if_then_def)

lemma liquid_if_then_custom_mix [simp]:
  "liquid (events (if_then c (custom_mix en p mvol loc n blowout low high) v))
     = liquid (events v) @ (if c then concat (replicate (nat n) (mix_pair en p mvol loc low high)) else [])"
  by (simp add: if_then_def)

lemma liquid_single: "liquid [e] = (if is_liquid e then [e] else [])"
  by (simp add: liquid_def)

lemma w2l_transfer_liquid:
  "liquid (events (w2l_transfer en a pmv d v1)) = liquid (events v1) @ w2l_liquid en a pmv d"
  by (simp add: w2l_transfer_def Let_def w2l_liquid_def liquid_emit liquid_if_then_emit
        liquid_single)

lemma w2l_body_liquid:
  assumes "w2l_body en a pmv d v = Inr v'"
  shows "liquid (events v') = liquid (events v) @ w2l_liquid en a pmv d"
proof -
  let ?v0 = "emit (Comment ''---Column x'') v"
  let ?pick = "if change_tip a
         then (if pip a = P1000 then pick_up_200 (chute_at en) (plan_200 en) ?v0 else pick_up_50 ?v0)
         else Inr ?v0"
  obtain v1 where v1: "?pick = Inr v1"
    using assms by (cases ?pick) (simp_all add: w2l_body_def Let_def)
  have l1: "liquid (events v1) = liquid (events v)"
  proof -
    have "liquid (events v1) = liquid (events ?v0)"
      using v1 liquid_pick_up_200 liquid_pick_up_50 by (auto split: if_splits)
    then show ?thesis by (simp add: emit_def liquid_def)
  qed
  have "v' = w2l_transfer en a pmv d v1"
    using assms v1 by (simp add: w2l_body_def Let_def)
  then show ?thesis using l1 by (simp add: w2l_transfer_liquid)
qed

lemma next_post_mix_vol_idem [simp]:
  "next_post_mix_vol a (next_post_mix_vol a x) = next_post_mix_vol a x"
  by (simp add: next_post_mix_vol_def)

lemma w2l_liquid_next [simp]: "w2l_liquid en a (next_post_mix_vol a x) d = w2l_liquid en a x d"
  by (simp add: w2l_liquid_def)

lemma well_to_list_liquid:
  assumes "well_to_list en a pmv ds v = Inr v'"
  shows "liquid (events v') = liquid (events v) @ concat (map (w2l_liquid en a pmv) ds)"
  using assms
proof (induction ds arbitrary: v pmv)
  case Nil
  then show ?case by simp
next
  case (Cons d ds)
  obtain v1 where v1: "w2l_body en a pmv d v = Inr v1"
    using Cons.prems by (cases "w2l_body en a pmv d v") simp_all
  then have rest: "well_to_list en a (next_post_mix_vol a pmv) ds v1 = Inr v'"
    using Cons.prems by simp
  show ?case
    using Cons.IH [OF rest] w2l_body_liquid [OF v1] by simp
qed

subsection \<open>Read-outs of the liquid events\<close>

text \<open>
  The dispense calls of a pipette that give no \<open>push_out\<close>, in order, by volume and place;
  the mixing dispenses all give \<open>push_out=0\<close>. And the volumes of all aspirate calls of a
  pipette at places of a given well.
\<close>

fun plain_dispense :: "pipette \<Rightarrow> event \<Rightarrow> (rat \<times> place option) option" where
  "plain_dispense p (Dispense q vol loc rate push) =
     (if q = p \<and> push = None then Some (vol, loc) else None)"
| "plain_dispense p e = None"

definition plain_dispenses :: "pipette \<Rightarrow> event list \<Rightarrow> (rat \<times> place option) list" where
  "plain_dispenses p es = List.map_filter (plain_dispense p) es"

fun aspirate_from :: "pipette \<Rightarrow> well \<Rightarrow> event \<Rightarrow> rat option" where
  "aspirate_from p w (Aspirate q vol (Some pl) rate) =
     (if q = p \<and> place_well pl = w then Some vol else None)"
| "aspirate_from p w e = None"

definition aspirates_from :: "pipette \<Rightarrow> well \<Rightarrow> event list \<Rightarrow> rat list" where
  "aspirates_from p w es = List.map_filter (aspirate_from p w) es"

lemma map_filter_append: "List.map_filter f (xs @ ys) = List.map_filter f xs @ List.map_filter f ys"
  by (simp add: List.map_filter_def)

lemma map_filter_skip:
  "(\<And>e. \<not> P e \<Longrightarrow> f e = None) \<Longrightarrow> List.map_filter f (filter P es) = List.map_filter f es"
proof (induction es)
  case Nil
  then show ?case by simp
next
  case (Cons e es)
  then show ?case by (cases "P e") (simp_all add: List.map_filter_def)
qed

lemma aspirates_at_liquid: "aspirates_at p pl (liquid es) = aspirates_at p pl es"
  unfolding aspirates_at_def liquid_def
proof (rule map_filter_skip)
  fix e show "\<not> is_liquid e \<Longrightarrow> aspirate_at p pl e = None" by (cases e) simp_all
qed

lemma plain_dispenses_liquid: "plain_dispenses p (liquid es) = plain_dispenses p es"
  unfolding plain_dispenses_def liquid_def
proof (rule map_filter_skip)
  fix e show "\<not> is_liquid e \<Longrightarrow> plain_dispense p e = None" by (cases e) simp_all
qed

lemma aspirates_from_liquid: "aspirates_from p w (liquid es) = aspirates_from p w es"
  unfolding aspirates_from_def liquid_def
proof (rule map_filter_skip)
  fix e show "\<not> is_liquid e \<Longrightarrow> aspirate_from p w e = None" by (cases e) simp_all
qed

lemma drawn_not_liquid: "\<not> is_liquid e \<Longrightarrow> drawn p w e = 0"
  by (cases e) simp_all

lemma net_drawn_Nil [simp]: "net_drawn p w [] = 0"
  by (simp add: net_drawn_def)

lemma net_drawn_Cons [simp]: "net_drawn p w (e # es) = drawn p w e + net_drawn p w es"
  by (simp add: net_drawn_def)

lemma net_drawn_append [simp]: "net_drawn p w (xs @ ys) = net_drawn p w xs + net_drawn p w ys"
  by (simp add: net_drawn_def)

lemma net_drawn_liquid: "net_drawn p w (liquid es) = net_drawn p w es"
  by (induction es) (simp_all add: liquid_def drawn_not_liquid)

lemma aspirates_at_Nil [simp]: "aspirates_at p pl [] = []"
  by (simp add: aspirates_at_def List.map_filter_def)

lemma aspirates_at_Cons [simp]:
  "aspirates_at p pl (e # es)
     = (case aspirate_at p pl e of None \<Rightarrow> [] | Some x \<Rightarrow> [x]) @ aspirates_at p pl es"
  by (simp add: aspirates_at_def List.map_filter_def split: option.splits)

lemma aspirates_at_append [simp]:
  "aspirates_at p pl (xs @ ys) = aspirates_at p pl xs @ aspirates_at p pl ys"
  by (simp add: aspirates_at_def map_filter_append)

lemma plain_dispenses_Nil [simp]: "plain_dispenses p [] = []"
  by (simp add: plain_dispenses_def List.map_filter_def)

lemma plain_dispenses_Cons [simp]:
  "plain_dispenses p (e # es)
     = (case plain_dispense p e of None \<Rightarrow> [] | Some x \<Rightarrow> [x]) @ plain_dispenses p es"
  by (simp add: plain_dispenses_def List.map_filter_def split: option.splits)

lemma plain_dispenses_append [simp]:
  "plain_dispenses p (xs @ ys) = plain_dispenses p xs @ plain_dispenses p ys"
  by (simp add: plain_dispenses_def map_filter_append)

lemma aspirates_from_Nil [simp]: "aspirates_from p w [] = []"
  by (simp add: aspirates_from_def List.map_filter_def)

lemma aspirates_from_Cons [simp]:
  "aspirates_from p w (e # es)
     = (case aspirate_from p w e of None \<Rightarrow> [] | Some x \<Rightarrow> [x]) @ aspirates_from p w es"
  by (simp add: aspirates_from_def List.map_filter_def split: option.splits)

lemma aspirates_from_append [simp]:
  "aspirates_from p w (xs @ ys) = aspirates_from p w xs @ aspirates_from p w ys"
  by (simp add: aspirates_from_def map_filter_append)

lemma net_drawn_mix_pair [simp]: "net_drawn p w (mix_pair en q mvol loc low high) = 0"
  by (simp add: mix_pair_def Let_def)

lemma net_drawn_mix_pairs [simp]:
  "net_drawn p w (concat (replicate n (mix_pair en q mvol loc low high))) = 0"
  by (induction n) simp_all

lemma aspirates_at_mix_pair [simp]: "aspirates_at p (At w) (mix_pair en q mvol loc low high) = []"
  by (simp add: mix_pair_def Let_def)

lemma aspirates_at_mix_pairs [simp]:
  "aspirates_at p (At w) (concat (replicate n (mix_pair en q mvol loc low high))) = []"
  by (induction n) simp_all

lemma plain_dispenses_mix_pair [simp]: "plain_dispenses p (mix_pair en q mvol loc low high) = []"
  by (simp add: mix_pair_def Let_def)

lemma plain_dispenses_mix_pairs [simp]:
  "plain_dispenses p (concat (replicate n (mix_pair en q mvol loc low high))) = []"
  by (induction n) simp_all

lemma net_drawn_w2l_liquid:
  "d \<noteq> source a \<Longrightarrow> net_drawn (pip a) (source a) (w2l_liquid en a pmv d) = transfer_vol a"
  by (simp add: w2l_liquid_def)

lemma aspirates_at_w2l_liquid:
  "aspirates_at (pip a) (At (source a)) (w2l_liquid en a pmv d) = [transfer_vol a]"
  by (simp add: w2l_liquid_def)

lemma plain_dispenses_w2l_liquid:
  "plain_dispenses (pip a) (w2l_liquid en a pmv d)
     = [(transfer_vol a, Some (Bottom d (z_height a)))]"
  by (simp add: w2l_liquid_def)

lemma net_drawn_w2l_all:
  "source a \<notin> set ds \<Longrightarrow>
     net_drawn (pip a) (source a) (concat (map (w2l_liquid en a pmv) ds))
       = transfer_vol a * of_nat (length ds)"
  by (induction ds) (auto simp: net_drawn_w2l_liquid algebra_simps)

lemma aspirates_at_w2l_all:
  "aspirates_at (pip a) (At (source a)) (concat (map (w2l_liquid en a pmv) ds))
     = replicate (length ds) (transfer_vol a)"
  by (induction ds) (simp_all add: aspirates_at_w2l_liquid)

lemma plain_dispenses_w2l_all:
  "plain_dispenses (pip a) (concat (map (w2l_liquid en a pmv) ds))
     = map (\<lambda>d. (transfer_vol a, Some (Bottom d (z_height a)))) ds"
  by (induction ds) (simp_all add: plain_dispenses_w2l_liquid)

lemma w2l_liquid_plain:
  "\<not> pre_mix a \<Longrightarrow> \<not> post_mix a \<Longrightarrow>
     w2l_liquid en a pmv d
       = [Aspirate (pip a) (transfer_vol a) (Some (At (source a))) (liquid_rate a),
          Dispense (pip a) (transfer_vol a) (Some (Bottom d (z_height a))) (liquid_rate a) None]"
  by (simp add: w2l_liquid_def)

subsection \<open>When well_to_list returns\<close>

lemma well_to_list_no_change_tip:
  "\<not> change_tip a \<Longrightarrow> \<exists>v'. well_to_list en a pmv ds v = Inr v'"
  by (induction ds arbitrary: v pmv) (simp_all add: w2l_body_def Let_def)

text \<open>The tip variables are untouched by everything in the loop but the tip pick-up.\<close>

definition tip_part :: "'a tip_vars_scheme \<Rightarrow> labware list \<times> labware list \<times> int \<times> well list" where
  "tip_part v = (tips200 v, tips200_extra v, tip_count_200 v, tiporder_200 v)"

lemma tip_inv_tip_part: "tip_part v' = tip_part v \<Longrightarrow> tip_inv K pl v' = tip_inv K pl v"
  by (simp add: tip_part_def tip_inv_def)

lemma tip_part_emit [simp]: "tip_part (emit e v) = tip_part v"
  by (simp add: tip_part_def emit_def)

lemma tip_part_emits [simp]: "tip_part (emits es v) = tip_part v"
  by (simp add: tip_part_def emits_def)

lemma tip_part_slow_withdraw [simp]: "tip_part (slow_withdraw p w z t v) = tip_part v"
  by (simp add: slow_withdraw_def Let_def) (simp add: tip_part_def emit_def)

lemma tip_part_custom_mix [simp]: "tip_part (custom_mix en p mvol loc n b low high v) = tip_part v"
proof (cases b)
  case False
  then show ?thesis by (simp add: custom_mix_def Let_def)
next
  case True
  let ?v1 = "emits (concat (replicate (nat n) (mix_pair en p mvol loc low high))) v"
  let ?v2 = "(emit (SetFlowRate p FlowBlowOut (blow_out_rate ?v1 p / 5)) ?v1)
               \<lparr>blow_out_rate := (blow_out_rate ?v1)(p := blow_out_rate ?v1 p / 5)\<rparr>"
  have a: "tip_part ?v2 = tip_part v" by (simp add: tip_part_def emit_def emits_def)
  let ?v5 = "emit (TouchTip p (3 / 4) (- 3) 10)
               (emit (BlowOut p (Some (Top loc (- 3)))) (slow_withdraw p loc (- 3) 1 ?v2))"
  have b: "tip_part ?v5 = tip_part v" using a by simp
  have "custom_mix en p mvol loc n b low high v
          = (emit (SetFlowRate p FlowBlowOut (blow_out_rate ?v5 p * 5)) ?v5)
               \<lparr>blow_out_rate := (blow_out_rate ?v5)(p := blow_out_rate ?v5 p * 5)\<rparr>"
    using True by (simp add: custom_mix_def Let_def)
  moreover have "tip_part ((emit (SetFlowRate p FlowBlowOut (blow_out_rate ?v5 p * 5)) ?v5)
               \<lparr>blow_out_rate := (blow_out_rate ?v5)(p := blow_out_rate ?v5 p * 5)\<rparr>) = tip_part ?v5"
    by (simp add: tip_part_def emit_def)
  ultimately show ?thesis using b by simp
qed

lemma tip_part_tip_disposal [simp]: "tip_part (tip_disposal en p v) = tip_part v"
  by (simp add: tip_disposal_def)

lemma tip_part_if_then: "(\<And>u. tip_part (f u) = tip_part u) \<Longrightarrow> tip_part (if_then c f v) = tip_part v"
  by (simp add: if_then_def)

lemma tip_part_w2l_transfer [simp]: "tip_part (w2l_transfer en a pmv d v) = tip_part v"
  by (simp add: w2l_transfer_def Let_def tip_part_if_then)

lemma reset_50_emit [simp]: "tips_reset_50 (emit e v) = tips_reset_50 v"
  by (simp add: emit_def)

lemma reset_50_emits [simp]: "tips_reset_50 (emits es v) = tips_reset_50 v"
  by (simp add: emits_def)

lemma reset_50_slow_withdraw [simp]: "tips_reset_50 (slow_withdraw p w z t v) = tips_reset_50 v"
  by (simp add: slow_withdraw_def Let_def)

lemma reset_50_custom_mix [simp]:
  "tips_reset_50 (custom_mix en p mvol loc n b low high v) = tips_reset_50 v"
  by (cases b) (simp_all add: custom_mix_def Let_def)

lemma reset_50_tip_disposal [simp]: "tips_reset_50 (tip_disposal en p v) = tips_reset_50 v"
  by (simp add: tip_disposal_def)

lemma reset_50_if_then:
  "(\<And>u. tips_reset_50 (f u) = tips_reset_50 u) \<Longrightarrow> tips_reset_50 (if_then c f v) = tips_reset_50 v"
  by (simp add: if_then_def)

lemma reset_50_w2l_transfer [simp]: "tips_reset_50 (w2l_transfer en a pmv d v) = tips_reset_50 v"
  by (simp add: w2l_transfer_def Let_def reset_50_if_then)

lemma pick_up_50_total:
  assumes "0 < tips_reset_50 v"
  shows "\<exists>v'. pick_up_50 v = Inr v' \<and> tips_reset_50 v' = tips_reset_50 v"
  using assms
  by (auto simp: pick_up_50_def Let_def emit_def pause_attention_def)

lemma well_to_list_total_200:
  assumes "change_tip a" and "pip a = P1000" and "tip_inv (chute_at en) (plan_200 en) v"
  shows "\<exists>v'. well_to_list en a pmv ds v = Inr v'"
  using assms(3)
proof (induction ds arbitrary: v pmv)
  case Nil
  then show ?case by simp
next
  case (Cons d ds)
  let ?v0 = "emit (Comment ''---Column x'') v"
  have "tip_part ?v0 = tip_part v" by simp
  then have "tip_inv (chute_at en) (plan_200 en) ?v0"
    using Cons.prems tip_inv_tip_part by blast
  then obtain v1 where v1: "pick_up_200 (chute_at en) (plan_200 en) ?v0 = Inr v1"
      "tip_inv (chute_at en) (plan_200 en) v1"
    using pick_up_200_ok by blast
  have b: "w2l_body en a pmv d v = Inr (w2l_transfer en a pmv d v1)"
    using assms(1,2) v1(1) by (simp add: w2l_body_def Let_def)
  have "tip_part (w2l_transfer en a pmv d v1) = tip_part v1" by simp
  then have "tip_inv (chute_at en) (plan_200 en) (w2l_transfer en a pmv d v1)"
    using v1(2) tip_inv_tip_part by blast
  then show ?case using Cons.IH b by simp
qed

lemma well_to_list_total_50:
  assumes "change_tip a" and "pip a = P50" and "0 < tips_reset_50 v"
  shows "\<exists>v'. well_to_list en a pmv ds v = Inr v'"
  using assms(3)
proof (induction ds arbitrary: v pmv)
  case Nil
  then show ?case by simp
next
  case (Cons d ds)
  let ?v0 = "emit (Comment ''---Column x'') v"
  have "0 < tips_reset_50 ?v0" using Cons.prems by simp
  then obtain v1 where v1: "pick_up_50 ?v0 = Inr v1" "tips_reset_50 v1 = tips_reset_50 ?v0"
    using pick_up_50_total by blast
  have b: "w2l_body en a pmv d v = Inr (w2l_transfer en a pmv d v1)"
    using assms(1,2) v1(1) by (simp add: w2l_body_def Let_def)
  have "0 < tips_reset_50 (w2l_transfer en a pmv d v1)"
    using v1(2) Cons.prems by simp
  then show ?case using Cons.IH b by simp
qed

subsection \<open>The call of dt25_beads_prep\<close>

text \<open>
  The first call of \<open>well_to_list\<close> in a run, lines 738 to 751: the 1000 ul pipette, 20 ul
  of beads, \<open>pre_mix=True\<close>, no tip change. The environment is that of a dry run with the
  default sample rate; the tips hold 50 and 200 ul. The state is the one at the start of
  the protocol steps with one rack of 200 ul tips; the source is well A1 of the reagent
  plate and the destination well A1 of the mag prep plate.
\<close>

definition dt25_env :: env where
  "dt25_env =
     \<lparr>DRY_WATER_RUN = True, sample_rate = 6 / 10, plan_200 = P1_tip_plan 1, chute_at = 3,
      tip_max_volume = (\<lambda>p. if p = P50 then 50 else 200),
      well_depth = (\<lambda>w. 15)\<rparr>"

definition dt25_args :: w2l_args where
  "dt25_args =
     \<lparr>pip = P1000, source = Well (Labware 10 ''nest_96_wellplate_2ml_deep'') ''A1'',
      transfer_vol = 20, liquid_rate = 2 / 10, z_height = 3 / 2,
      pre_mix = True, post_mix = False, post_mix_rep = 0,
      tip_withdrawal = True, change_tip = False\<rparr>"

definition dt25_start :: proto where
  "dt25_start =
     \<lparr>events = [], next_labware = 1,
      tips200 = [Labware 0 ''opentrons_flex_96_filtertiprack_200ul''], tips200_extra = [],
      tip_count_200 = 0,
      tiporder_200 = tiporder_of [Labware 0 ''opentrons_flex_96_filtertiprack_200ul''],
      pause_time = 1,
      default_speed = (\<lambda>p. 400), blow_out_rate = (\<lambda>p. 100),
      tips_left_50 = 12, tips_reset_50 = 12\<rparr>"

definition dt25_dest :: well where
  "dt25_dest = Well (Labware 11 ''opentrons_96_wellplate_200ul_pcr_full_skirt'') ''A1''"

text \<open>The volumes of the aspirate calls at the source well, after a call on the start state.\<close>

definition source_aspirates :: "env \<Rightarrow> w2l_args \<Rightarrow> rat \<Rightarrow> well list \<Rightarrow> proto \<Rightarrow> rat list option" where
  "source_aspirates en a pmv ds v =
     (case well_to_list en a pmv ds v of
        Inl e \<Rightarrow> None
      | Inr v' \<Rightarrow> Some (aspirates_from (pip a) (source a) (events v')))"

lemma mix_vol_dt25: "mix_vol dt25_env P1000 20 = 20"
  by (simp add: mix_vol_def dt25_env_def middle_of_three_def Let_def)

text \<open>
  C7, as the claim states it, fails when \<open>pre_mix\<close> is set: in the call of
  \<open>dt25_beads_prep\<close>, with one destination, the pipette aspirates 20 ul from the source
  well seven times, six times to mix and once to transfer.
\<close>

theorem well_to_list_pre_mix_counterexample:
  "source_aspirates dt25_env dt25_args 0 [dt25_dest] dt25_start = Some [20, 20, 20, 20, 20, 20, 20]"
proof -
  have nc: "\<not> change_tip dt25_args" by (simp add: dt25_args_def)
  obtain v' where v': "well_to_list dt25_env dt25_args 0 [dt25_dest] dt25_start = Inr v'"
    using well_to_list_no_change_tip [OF nc] by blast
  have l: "liquid (events v') = w2l_liquid dt25_env dt25_args 0 dt25_dest"
    using well_to_list_liquid [OF v'] by (simp add: dt25_start_def)
  have six: "replicate 6 x = [x, x, x, x, x, x]" for x :: "event list"
    by (simp add: numeral_eq_Suc)
  have "aspirates_from P1000 (source dt25_args) (events v')
          = aspirates_from P1000 (source dt25_args) (liquid (events v'))"
    by (simp add: aspirates_from_liquid)
  also have "\<dots> = [20, 20, 20, 20, 20, 20, 20]"
    unfolding l
    by (simp add: w2l_liquid_def six mix_pair_def mix_vol_dt25 Let_def dt25_args_def mix_height_def)
  finally show ?thesis using v' by (simp add: source_aspirates_def dt25_args_def)
qed

subsection \<open>What a call of well_to_list transfers\<close>

text \<open>
  The second kind of call, lines 952 to 965: 50 ul of binding buffer from well A2 of the
  reagent plate, no mixing, no tip change, here to two columns of the mag prep plate.
\<close>

definition bb_args :: w2l_args where
  "bb_args =
     \<lparr>pip = P1000, source = Well (Labware 10 ''nest_96_wellplate_2ml_deep'') ''A2'',
      transfer_vol = 50, liquid_rate = 8 / 10, z_height = 2,
      pre_mix = False, post_mix = False, post_mix_rep = 0,
      tip_withdrawal = False, change_tip = False\<rparr>"

definition bb_dests :: "well list" where
  "bb_dests =
     [Well (Labware 11 ''opentrons_96_wellplate_200ul_pcr_full_skirt'') ''A1'',
      Well (Labware 11 ''opentrons_96_wellplate_200ul_pcr_full_skirt'') ''A2'']"

text \<open>
  The call returns when it changes no tip, or changes tips of the 1000 ul pipette under the
  invariant of \<open>pick_up_200\<close>, or tips of the 50 ul pipette with a rack to reset.
\<close>

definition w2l_ready :: "env \<Rightarrow> w2l_args \<Rightarrow> 'a proto_scheme \<Rightarrow> bool" where
  "w2l_ready en a v =
     (if change_tip a
      then (if pip a = P1000 then tip_inv (chute_at en) (plan_200 en) v else 0 < tips_reset_50 v)
      else True)"

text \<open>One transfer: the aspirate at the source well and the dispense above the bottom of \<open>d\<close>.\<close>

definition transfer_pair :: "w2l_args \<Rightarrow> well \<Rightarrow> event list" where
  "transfer_pair a d =
     [Aspirate (pip a) (transfer_vol a) (Some (At (source a))) (liquid_rate a),
      Dispense (pip a) (transfer_vol a) (Some (Bottom d (z_height a))) (liquid_rate a) None]"

lemma well_to_list_returns:
  assumes "w2l_ready en a v"
  shows "\<exists>v'. well_to_list en a pmv ds v = Inr v'"
proof (cases "change_tip a")
  case False
  then show ?thesis by (rule well_to_list_no_change_tip)
next
  case True
  show ?thesis
  proof (cases "pip a")
    case P1000
    then show ?thesis using True assms well_to_list_total_200 by (simp add: w2l_ready_def)
  next
    case P50
    then show ?thesis using True assms well_to_list_total_50 by (simp add: w2l_ready_def)
  qed
qed

text \<open>
  C7, amended. A call of \<open>well_to_list\<close> that is ready returns, and for the state \<open>v'\<close> it
  returns:
  \<^item> the aspirate and dispense calls it added are, for each destination in list order, the
    six mixing pairs at the source when \<open>pre_mix\<close> is set, then one aspirate of
    \<open>transfer_vol\<close> at the source well and one dispense of \<open>transfer_vol\<close> at
    \<open>d.bottom(z_height)\<close>, then the \<open>post_mix_rep\<close> mixing pairs at the destination when
    \<open>post_mix\<close> is set;
  \<^item> the aspirates at the source well itself (no height given) are one of \<open>transfer_vol\<close>
    for each destination;
  \<^item> the dispenses without a push-out volume are one of \<open>transfer_vol\<close> at
    \<open>d.bottom(z_height)\<close> for each destination, in list order;
  \<^item> with \<open>pre_mix\<close> and \<open>post_mix\<close> both unset, the transfers are the only aspirate and
    dispense calls;
  \<^item> when the source is not among the destinations, the volume drawn from the source well,
    less the volume given back to it, is \<open>transfer_vol\<close> times the length of the list.
\<close>

theorem well_to_list_transfers_amended:
  assumes "w2l_ready en a v"
  shows "\<exists>v'. well_to_list en a pmv ds v = Inr v'
           \<and> liquid (events v') = liquid (events v) @ concat (map (w2l_liquid en a pmv) ds)
           \<and> aspirates_at (pip a) (At (source a)) (events v')
               = aspirates_at (pip a) (At (source a)) (events v)
                   @ replicate (length ds) (transfer_vol a)
           \<and> plain_dispenses (pip a) (events v')
               = plain_dispenses (pip a) (events v)
                   @ map (\<lambda>d. (transfer_vol a, Some (Bottom d (z_height a)))) ds
           \<and> (\<not> pre_mix a \<and> \<not> post_mix a \<longrightarrow>
                liquid (events v') = liquid (events v) @ concat (map (transfer_pair a) ds))
           \<and> (source a \<notin> set ds \<longrightarrow>
                net_drawn (pip a) (source a) (events v')
                  = net_drawn (pip a) (source a) (events v)
                      + transfer_vol a * of_nat (length ds))"
proof -
  obtain v' where v': "well_to_list en a pmv ds v = Inr v'"
    using well_to_list_returns [OF assms] by blast
  let ?new = "concat (map (w2l_liquid en a pmv) ds)"
  have l: "liquid (events v') = liquid (events v) @ ?new"
    using v' by (rule well_to_list_liquid)
  have "aspirates_at (pip a) (At (source a)) (events v')
          = aspirates_at (pip a) (At (source a)) (liquid (events v'))"
    by (simp add: aspirates_at_liquid)
  also have "\<dots> = aspirates_at (pip a) (At (source a)) (liquid (events v))
                     @ aspirates_at (pip a) (At (source a)) ?new"
    unfolding l by simp
  finally have a: "aspirates_at (pip a) (At (source a)) (events v')
          = aspirates_at (pip a) (At (source a)) (events v)
              @ replicate (length ds) (transfer_vol a)"
    by (simp add: aspirates_at_liquid aspirates_at_w2l_all)
  have "plain_dispenses (pip a) (events v') = plain_dispenses (pip a) (liquid (events v'))"
    by (simp add: plain_dispenses_liquid)
  also have "\<dots> = plain_dispenses (pip a) (liquid (events v)) @ plain_dispenses (pip a) ?new"
    unfolding l by simp
  finally have d: "plain_dispenses (pip a) (events v')
          = plain_dispenses (pip a) (events v)
              @ map (\<lambda>d. (transfer_vol a, Some (Bottom d (z_height a)))) ds"
    by (simp add: plain_dispenses_liquid plain_dispenses_w2l_all)
  have p: "liquid (events v') = liquid (events v) @ concat (map (transfer_pair a) ds)"
    if "\<not> pre_mix a" "\<not> post_mix a"
  proof -
    have "w2l_liquid en a pmv = transfer_pair a"
      using that by (simp add: fun_eq_iff w2l_liquid_plain transfer_pair_def)
    then show ?thesis using l by simp
  qed
  have n: "net_drawn (pip a) (source a) (events v')
             = net_drawn (pip a) (source a) (events v) + transfer_vol a * of_nat (length ds)"
    if "source a \<notin> set ds"
  proof -
    have "net_drawn (pip a) (source a) (events v')
            = net_drawn (pip a) (source a) (liquid (events v'))"
      by (simp add: net_drawn_liquid)
    also have "\<dots> = net_drawn (pip a) (source a) (liquid (events v))
                       + net_drawn (pip a) (source a) ?new"
      unfolding l by simp
    finally show ?thesis using that by (simp add: net_drawn_liquid net_drawn_w2l_all)
  qed
  show ?thesis using v' l a d p n by blast
qed

theorem well_to_list_transfers_amended_witness:
  "\<exists>v'. well_to_list dt25_env bb_args 0 bb_dests dt25_start = Inr v'
      \<and> liquid (events v') = concat (map (transfer_pair bb_args) bb_dests)
      \<and> aspirates_at P1000 (At (source bb_args)) (events v') = [50, 50]
      \<and> net_drawn P1000 (source bb_args) (events v') = 100"
proof -
  have r: "w2l_ready dt25_env bb_args dt25_start"
    by (simp add: w2l_ready_def bb_args_def)
  have s: "source bb_args \<notin> set bb_dests"
    by (simp add: bb_args_def bb_dests_def)
  have m: "\<not> pre_mix bb_args \<and> \<not> post_mix bb_args"
    by (simp add: bb_args_def)
  have e: "events dt25_start = []" by (simp add: dt25_start_def)
  have p: "pip bb_args = P1000" "transfer_vol bb_args = 50" "length bb_dests = 2"
    by (simp_all add: bb_args_def bb_dests_def)
  obtain v' where v': "well_to_list dt25_env bb_args 0 bb_dests dt25_start = Inr v'"
      "aspirates_at (pip bb_args) (At (source bb_args)) (events v')
         = aspirates_at (pip bb_args) (At (source bb_args)) (events dt25_start)
             @ replicate (length bb_dests) (transfer_vol bb_args)"
      "\<not> pre_mix bb_args \<and> \<not> post_mix bb_args \<longrightarrow>
         liquid (events v')
           = liquid (events dt25_start) @ concat (map (transfer_pair bb_args) bb_dests)"
      "source bb_args \<notin> set bb_dests \<longrightarrow>
         net_drawn (pip bb_args) (source bb_args) (events v')
           = net_drawn (pip bb_args) (source bb_args) (events dt25_start)
               + transfer_vol bb_args * of_nat (length bb_dests)"
    using well_to_list_transfers_amended [OF r, of 0 bb_dests] by blast
  have "liquid (events v') = concat (map (transfer_pair bb_args) bb_dests)"
    using v'(3) m e by (simp add: liquid_Nil)
  moreover have "aspirates_at P1000 (At (source bb_args)) (events v') = [50, 50]"
    using v'(2) e p by (simp add: numeral_2_eq_2)
  moreover have "net_drawn P1000 (source bb_args) (events v') = 100"
    using v'(4) s e p by simp
  ultimately show ?thesis using v'(1) by blast
qed

end
